theory Spec2Isabelle
  imports Complex_Main "HOL-Library.Word" "HOL-Library.Sublist"
begin

text \<open>
  A shallow embedding of the batch engine of the mail manager: the rate limiter and the
  store operations of database-mongo.js, the classification engine of gemini-enhanced.js,
  the batch processor (class \<open>BatchProcessor\<close>, src/unnamed/part_000) and, of
  server-mongo.js, the handler of POST /api/batch/create and the wrapper
  \<open>withTokenRefresh\<close>.

  A function of the source that awaits and mutates becomes a function from the state
  before to a result and the state after; an exception is the \<open>Inl\<close> of a sum. The
  services outside the process (clock, classification API, mail provider) are the fields
  of an environment record over which every theorem is universal. The calls run one at a
  time, as the awaits of one request do; interleavings of several requests are not
  modelled. The loop over the pages of the provider's listing runs on fuel, since the
  provider decides when it ends.
\<close>

section \<open>JavaScript values\<close>

text \<open>
  A JavaScript string is a sequence of UTF-16 code units. String literals of the source
  are ASCII and are written through \<open>js\<close>.
\<close>

type_synonym jsstring = "16 word list"

definition js :: "string \<Rightarrow> jsstring" where
  "js s = map of_char s"

text \<open>
  Values as \<open>JSON.parse\<close> and the document store hand them to the code. A number is
  only ever tested for truthiness or compared with a constant by the modelled code, so a
  rational stands for it.
\<close>

datatype jsval =
    JUndefined
  | JNull
  | JBool bool
  | JNum rat
  | JStr jsstring
  | JDate int
  | JArr "jsval list"
  | JObj "(jsstring \<times> jsval) list"

type_synonym jsobject = "(jsstring \<times> jsval) list"

text \<open>Property read \<open>obj.k\<close> on a parsed object: a missing key reads as \<open>undefined\<close>.\<close>

definition getProp :: "jsobject \<Rightarrow> jsstring \<Rightarrow> jsval" where
  "getProp obj k = (case map_of obj k of Some v \<Rightarrow> v | None \<Rightarrow> JUndefined)"

text \<open>Truthiness, as \<open>||\<close>, \<open>&&\<close> and \<open>if\<close> test it.\<close>

fun truthy :: "jsval \<Rightarrow> bool" where
  "truthy JUndefined = False"
| "truthy JNull = False"
| "truthy (JBool b) = b"
| "truthy (JNum n) = (n \<noteq> 0)"
| "truthy (JStr s) = (s \<noteq> [])"
| "truthy (JDate _) = True"
| "truthy (JArr _) = True"
| "truthy (JObj _) = True"

text \<open>\<open>a || b\<close> on values.\<close>

definition js_or :: "jsval \<Rightarrow> jsval \<Rightarrow> jsval" where
  "js_or a b = (if truthy a then a else b)"

text \<open>An \<open>Error\<close> object as the code inspects it: \<open>error.code\<close> and \<open>error.message\<close>.\<close>

record js_error =
  err_code :: jsval
  err_message :: jsstring

definition Error :: "jsstring \<Rightarrow> js_error" where
  "Error msg = \<lparr>err_code = JUndefined, err_message = msg\<rparr>"

definition TypeError :: "jsstring \<Rightarrow> js_error" where
  "TypeError msg = \<lparr>err_code = JUndefined, err_message = msg\<rparr>"

subsection \<open>String methods\<close>

text \<open>\<open>s.includes(k)\<close>: \<open>k\<close> occurs in \<open>s\<close> as a contiguous run.\<close>

fun str_includes :: "jsstring \<Rightarrow> jsstring \<Rightarrow> bool" where
  "str_includes [] k = (k = [])"
| "str_includes (c # s) k = (prefix k (c # s) \<or> str_includes s k)"

text \<open>
  The class \<open>\s\<close> of a regular expression, which is also what \<open>trim\<close> strips:
  TAB, LF, VT, FF, CR, SPACE, NBSP, U+1680, U+2000 to U+200A, LS, PS, U+202F, U+205F,
  U+3000 and U+FEFF.
\<close>

definition isWhiteSpace :: "16 word \<Rightarrow> bool" where
  "isWhiteSpace c \<longleftrightarrow>
     c = 0x09 \<or> c = 0x0A \<or> c = 0x0B \<or> c = 0x0C \<or> c = 0x0D \<or> c = 0x20 \<or> c = 0xA0 \<or>
     c = 0x1680 \<or> (0x2000 \<le> c \<and> c \<le> 0x200A) \<or> c = 0x2028 \<or> c = 0x2029 \<or>
     c = 0x202F \<or> c = 0x205F \<or> c = 0x3000 \<or> c = 0xFEFF"

definition isAlnum :: "16 word \<Rightarrow> bool" where
  "isAlnum c \<longleftrightarrow>
     (0x61 \<le> c \<and> c \<le> 0x7A) \<or> (0x41 \<le> c \<and> c \<le> 0x5A) \<or> (0x30 \<le> c \<and> c \<le> 0x39)"

definition trim :: "jsstring \<Rightarrow> jsstring" where
  "trim s = rev (dropWhile isWhiteSpace (rev (dropWhile isWhiteSpace s)))"

text \<open>\<open>s.substring(0, n)\<close> for a constant \<open>n\<close>.\<close>

definition substring0 :: "nat \<Rightarrow> jsstring \<Rightarrow> jsstring" where
  "substring0 n s = take n s"

section \<open>The rate limiter (database-mongo.js, checkRateLimit)\<close>

record rate_doc =
  rl_key :: jsstring
  rl_timestamp :: int
  rl_expiresAt :: int

text \<open>
  Whether the \<open>rateLimits\<close> collection answers: the driver call named throws.
  Only one of the two calls matters in a run, since a failed count skips the insert.
\<close>

datatype store_fault = Healthy | CountFails | InsertFails

definition storeDown :: js_error where
  "storeDown = Error (js ''store unreachable'')"

definition countDocuments :: "store_fault \<Rightarrow> jsstring \<Rightarrow> int \<Rightarrow> rate_doc list \<Rightarrow> js_error + nat" where
  "countDocuments fault key windowStart coll =
     (if fault = CountFails then Inl storeDown
      else Inr (length (filter (\<lambda>d. rl_key d = key \<and> windowStart \<le> rl_timestamp d) coll)))"

definition insertOne :: "store_fault \<Rightarrow> rate_doc \<Rightarrow> rate_doc list \<Rightarrow> js_error + rate_doc list" where
  "insertOne fault d coll = (if fault = InsertFails then Inl storeDown else Inr (coll @ [d]))"

definition rateKey :: "jsstring \<Rightarrow> jsstring \<Rightarrow> jsstring" where
  "rateKey userId operation = userId @ js ''_'' @ operation"

text \<open>
  \<open>now\<close> is the reading of \<open>Date.now()\<close>; the three readings of one call are taken at
  the same instant. The result is the returned flag and the collection afterwards.
\<close>

definition checkRateLimit ::
  "store_fault \<Rightarrow> int \<Rightarrow> jsstring \<Rightarrow> jsstring \<Rightarrow> rate_doc list \<Rightarrow> bool \<times> rate_doc list" where
  "checkRateLimit fault now userId operation coll =
     (let key = rateKey userId operation;
          windowStart = now - 60000
      in case countDocuments fault key windowStart coll of
           Inl e \<Rightarrow> (True, coll)
         | Inr count \<Rightarrow>
             if count \<ge> 10 then (False, coll)
             else (case insertOne fault
                          \<lparr>rl_key = key, rl_timestamp = now, rl_expiresAt = now + 60000\<rparr> coll of
                     Inl e \<Rightarrow> (True, coll)
                   | Inr coll' \<Rightarrow> (True, coll')))"


text \<open>The number of entries of a key that a call at time \<open>now\<close> counts.\<close>

definition inWindowCount :: "jsstring \<Rightarrow> int \<Rightarrow> rate_doc list \<Rightarrow> nat" where
  "inWindowCount key now coll =
     length (filter (\<lambda>d. rl_key d = key \<and> now - 60000 \<le> rl_timestamp d) coll)"


section \<open>The store and the remote services\<close>

subsection \<open>Documents\<close>

text \<open>
  A validated classification (gemini-enhanced.js, \<open>validateAnalysis\<close> and
  \<open>fallbackAnalysis\<close>). \<open>purpose\<close> and \<open>summary\<close> are passed through unchecked, so
  they stay values.
\<close>

record analysis =
  purpose :: jsval
  category :: jsstring
  summary :: jsval
  sentiment :: jsstring
  suggestedLabel :: jsstring

text \<open>A document of the \<open>emails\<close> collection; \<open>from\<close> and \<open>to\<close> are \<open>e_from\<close> and \<open>e_to\<close>.\<close>

record email =
  gmailId :: jsstring
  e_userId :: jsstring
  threadId :: jsval
  subject :: jsstring
  e_from :: jsstring
  e_to :: jsstring
  snippet :: jsstring
  timestamp :: int
  processed :: bool
  synced :: bool
  e_analysis :: "analysis option"
  e_updatedAt :: int

text \<open>A document of the \<open>labels\<close> collection.\<close>

record label =
  l_userId :: jsstring
  name :: jsstring
  gmailLabelId :: jsstring
  emailCount :: nat
  isAuto :: bool
  l_updatedAt :: int

text \<open>A document of the \<open>users\<close> collection, as far as the tokens go.\<close>

record user =
  u_userId :: jsstring
  u_accessToken :: jsval
  u_refreshToken :: jsval
  u_tokenExpiry :: int
  u_updatedAt :: int

text \<open>
  The \<open>options\<close> object of a batch request. The numeric options are integers when
  present; \<open>None\<close> is an absent key.
\<close>

record options =
  o_userId :: jsstring
  batchSize :: "int option"
  limit :: "int option"
  query :: "jsstring option"

text \<open>
  The keys of a batch log that an update or a result object can set. A result object and
  the argument of \<open>$set\<close> are finite maps over them, so that the spread
  \<open>{...a, ...b}\<close> is \<open>a ++ b\<close> and \<open>$set\<close> is \<open>doc ++ update\<close>.
\<close>

datatype field =
    Status | StartTime | EndTime | UpdatedAt
  | EmailsProcessed | EmailsTotal | LabelsCreated | LabelsUsed
  | Errors | Operation | Suggestions

type_synonym fields = "field \<rightharpoonup> jsval"

text \<open>
  A document of the \<open>batchLogs\<close> collection. \<open>batchId\<close>, \<open>userId\<close> and \<open>options\<close>
  are written at insertion only; every other key is in \<open>b_fields\<close>.
\<close>

record batch_log =
  batchId :: jsstring
  b_userId :: jsstring
  b_options :: options
  b_fields :: fields

text \<open>The credentials installed on the shared \<open>oauth2Client\<close>.\<close>

record oauth_credentials =
  access_token :: jsval
  refresh_token :: jsval

text \<open>What \<open>refreshAccessToken\<close> resolves with.\<close>

record refreshed_credentials =
  new_access_token :: jsval
  new_refresh_token :: jsval
  expiry_date :: int

subsection \<open>Remote calls\<close>

text \<open>
  The text sent to the classification API is a fixed template around these arguments; the
  template itself is not reproduced.
\<close>

datatype prompt =
    AnalyzePrompt jsstring jsstring jsstring
  | OrganizePrompt "jsstring list" "(jsstring \<times> nat) list"

record list_request =
  maxResults :: int
  pageToken :: "jsstring option"
  q :: jsstring

record list_response =
  messages :: "jsstring list option"
  nextPageToken :: "jsstring option"

text \<open>
  The metadata of one message: the header values looked up by the code (\<open>None\<close> when the
  header is missing), the \<open>Date\<close> header already parsed to milliseconds.
\<close>

record message_meta =
  m_id :: jsstring
  m_threadId :: jsval
  m_subject :: "jsstring option"
  m_from :: "jsstring option"
  m_to :: "jsstring option"
  m_date :: "int option"
  m_snippet :: "jsstring option"

text \<open>
  The services outside the process, over a state \<open>'g\<close> of their own: the clock, the
  runtime's \<open>toLowerCase\<close>, timers, the reachability of the rate-limit collection,
  the classification API (the whole exchange of \<open>callGeminiAPI\<close>: \<open>Inl\<close> is a rejected
  promise, \<open>Inr\<close> the object parsed from the response text) and the mail provider, which
  sees the credentials installed on the client. Every theorem below holds for every such
  environment.
\<close>

record 'g env =
  clock :: "'g \<Rightarrow> int"
  toLowerCase :: "jsstring \<Rightarrow> jsstring"
  setTimeout :: "int \<Rightarrow> 'g \<Rightarrow> 'g"
  rateStore :: "'g \<Rightarrow> store_fault"
  generateContent :: "jsval \<Rightarrow> prompt \<Rightarrow> 'g \<Rightarrow> (js_error + jsobject) \<times> 'g"
  messages_list :: "oauth_credentials \<Rightarrow> list_request \<Rightarrow> 'g \<Rightarrow> (js_error + list_response) \<times> 'g"
  messages_get :: "oauth_credentials \<Rightarrow> jsstring \<Rightarrow> 'g \<Rightarrow> (js_error + message_meta) \<times> 'g"
  labels_create :: "oauth_credentials \<Rightarrow> jsstring \<Rightarrow> 'g \<Rightarrow> (js_error + jsstring) \<times> 'g"
  messages_modify :: "oauth_credentials \<Rightarrow> jsstring \<Rightarrow> jsstring list \<Rightarrow> 'g \<Rightarrow> (js_error + unit) \<times> 'g"
  refreshAccessToken :: "oauth_credentials \<Rightarrow> 'g \<Rightarrow> (js_error + refreshed_credentials) \<times> 'g"
  randomId :: "'g \<Rightarrow> jsstring \<times> 'g"

text \<open>
  What a run does that is seen from outside the process, in order: the remote calls it
  issues and the writes to the \<open>batchLogs\<close> collection. The trace is bookkeeping of the
  model, kept so that "no call was issued" and "the status was written in this order" can
  be stated; the source keeps no such list, and no function below reads it.
\<close>

datatype event =
    GeminiCall prompt
  | GmailList list_request
  | GmailGet jsstring
  | GmailCreateLabel jsstring
  | GmailModify jsstring "jsstring list"
  | BatchLogInsert batch_log
  | BatchLogUpdate jsstring fields

text \<open>
  The state of a run: the five collections, the client's credentials, the state of the
  outside services and the trace. The driver calls on the \<open>emails\<close>, \<open>labels\<close>,
  \<open>batchLogs\<close> and \<open>users\<close> collections are taken to succeed and to run one at a time.
\<close>

record 'g world =
  emails :: "email list"
  labels :: "label list"
  batchLogs :: "batch_log list"
  rateLimits :: "rate_doc list"
  users :: "user list"
  oauth :: oauth_credentials
  ext :: 'g
  trace :: "event list"

subsection \<open>Collection operations of the driver\<close>

text \<open>\<open>replaceOne(filter, doc, {upsert: true})\<close>: the first match is replaced, else the document is inserted.\<close>

fun replaceOne :: "('a \<Rightarrow> bool) \<Rightarrow> 'a \<Rightarrow> 'a list \<Rightarrow> 'a list" where
  "replaceOne P d [] = [d]"
| "replaceOne P d (x # xs) = (if P x then d # xs else x # replaceOne P d xs)"

text \<open>\<open>updateOne(filter, {$set: ...})\<close>: the first match is updated, and nothing is inserted.\<close>

fun updateOne :: "('a \<Rightarrow> bool) \<Rightarrow> ('a \<Rightarrow> 'a) \<Rightarrow> 'a list \<Rightarrow> 'a list" where
  "updateOne P f [] = []"
| "updateOne P f (x # xs) = (if P x then f x # xs else x # updateOne P f xs)"

text \<open>\<open>cursor.limit(n)\<close>: zero is no limit, and a negative \<open>n\<close> limits to its absolute value.\<close>

definition cursor_limit :: "int \<Rightarrow> 'a list \<Rightarrow> 'a list" where
  "cursor_limit n xs = (if n = 0 then xs else take (nat \<bar>n\<bar>) xs)"

text \<open>\<open>x || d\<close> on an optional number, an optional string and a page token.\<close>

definition num_or :: "int option \<Rightarrow> int \<Rightarrow> int" where
  "num_or x d = (case x of None \<Rightarrow> d | Some n \<Rightarrow> if n = 0 then d else n)"

definition str_or :: "jsstring option \<Rightarrow> jsstring \<Rightarrow> jsstring" where
  "str_or x d = (case x of None \<Rightarrow> d | Some s \<Rightarrow> if s = [] then d else s)"

definition dateNow :: "'g env \<Rightarrow> 'g world \<Rightarrow> int" where
  "dateNow env w = clock env (ext w)"

subsection \<open>database-mongo.js\<close>

definition saveEmail :: "'g env \<Rightarrow> email \<Rightarrow> 'g world \<Rightarrow> 'g world" where
  "saveEmail env emailData w =
     w\<lparr>emails := replaceOne (\<lambda>d. gmailId d = gmailId emailData \<and> e_userId d = e_userId emailData)
                    (emailData\<lparr>e_updatedAt := dateNow env w\<rparr>) (emails w)\<rparr>"

text \<open>
  \<open>getEmails(userId, {processed, limit})\<close>: newest first, \<open>options.limit || 50\<close> of them.
  The order among equal timestamps is the collection's.
\<close>

definition getEmails :: "jsstring \<Rightarrow> bool option \<Rightarrow> int option \<Rightarrow> email list \<Rightarrow> email list" where
  "getEmails userId processedOpt limitOpt coll =
     cursor_limit (num_or limitOpt 50)
       (sort_key (\<lambda>d. - timestamp d)
         (filter (\<lambda>d. e_userId d = userId \<and>
                       (case processedOpt of None \<Rightarrow> True | Some p \<Rightarrow> processed d = p)) coll))"

definition updateEmailAnalysis :: "'g env \<Rightarrow> jsstring \<Rightarrow> analysis \<Rightarrow> 'g world \<Rightarrow> 'g world" where
  "updateEmailAnalysis env gid a w =
     w\<lparr>emails := updateOne (\<lambda>d. gmailId d = gid)
                    (\<lambda>d. d\<lparr>e_analysis := Some a, processed := True, e_updatedAt := dateNow env w\<rparr>)
                    (emails w)\<rparr>"

definition saveLabel :: "'g env \<Rightarrow> label \<Rightarrow> 'g world \<Rightarrow> 'g world" where
  "saveLabel env labelData w =
     w\<lparr>labels := replaceOne (\<lambda>d. l_userId d = l_userId labelData \<and> name d = name labelData)
                    (labelData\<lparr>l_updatedAt := dateNow env w\<rparr>) (labels w)\<rparr>"

definition getLabels :: "jsstring \<Rightarrow> label list \<Rightarrow> label list" where
  "getLabels userId coll = filter (\<lambda>d. l_userId d = userId) coll"

definition getLabelByName :: "jsstring \<Rightarrow> jsstring \<Rightarrow> label list \<Rightarrow> label option" where
  "getLabelByName userId nm coll = find (\<lambda>d. l_userId d = userId \<and> name d = nm) coll"

definition updateUserTokens :: "'g env \<Rightarrow> jsstring \<Rightarrow> jsval \<Rightarrow> jsval \<Rightarrow> int \<Rightarrow> 'g world \<Rightarrow> 'g world" where
  "updateUserTokens env userId accessToken refreshToken tokenExpiry w =
     w\<lparr>users := updateOne (\<lambda>d. u_userId d = userId)
                   (\<lambda>d. d\<lparr>u_accessToken := accessToken, u_refreshToken := refreshToken,
                           u_tokenExpiry := tokenExpiry, u_updatedAt := dateNow env w\<rparr>)
                   (users w)\<rparr>"

text \<open>
  \<open>createBatchLog\<close> inserts \<open>{...batchData, startTime: new Date(), status: 'started'}\<close>:
  the two keys after the spread override those of \<open>batchData\<close>.
\<close>

definition createBatchLog :: "'g env \<Rightarrow> batch_log \<Rightarrow> 'g world \<Rightarrow> 'g world" where
  "createBatchLog env batchData w =
     (let doc = batchData\<lparr>b_fields := b_fields batchData ++
                  [StartTime \<mapsto> JDate (dateNow env w), Status \<mapsto> JStr (js ''started'')]\<rparr>
      in w\<lparr>batchLogs := batchLogs w @ [doc], trace := trace w @ [BatchLogInsert doc]\<rparr>)"

definition updateBatchLog :: "'g env \<Rightarrow> jsstring \<Rightarrow> fields \<Rightarrow> 'g world \<Rightarrow> 'g world" where
  "updateBatchLog env bid updateData w =
     (let upd = updateData ++ [UpdatedAt \<mapsto> JDate (dateNow env w)]
      in w\<lparr>batchLogs := updateOne (\<lambda>d. batchId d = bid)
                            (\<lambda>d. d\<lparr>b_fields := b_fields d ++ upd\<rparr>) (batchLogs w),
            trace := trace w @ [BatchLogUpdate bid upd]\<rparr>)"

definition findBatchLog :: "jsstring \<Rightarrow> 'g world \<Rightarrow> batch_log option" where
  "findBatchLog bid w = find (\<lambda>d. batchId d = bid) (batchLogs w)"

text \<open>\<open>getCategoryBreakdown\<close>: the categories of the user's classified emails with their counts, the most frequent first.\<close>

definition getCategoryBreakdown :: "jsstring \<Rightarrow> email list \<Rightarrow> (jsstring \<times> nat) list" where
  "getCategoryBreakdown userId coll =
     (let cs = List.map_filter
                 (\<lambda>d. if e_userId d = userId then map_option category (e_analysis d) else None) coll
      in sort_key (\<lambda>(c, n). - int n) (map (\<lambda>c. (c, count_list cs c)) (remdups cs)))"

text \<open>The rate-limit check of a run, on the world.\<close>

definition checkRateLimitW :: "'g env \<Rightarrow> jsstring \<Rightarrow> jsstring \<Rightarrow> 'g world \<Rightarrow> bool \<times> 'g world" where
  "checkRateLimitW env userId operation w =
     (let (b, coll) = checkRateLimit (rateStore env (ext w)) (dateNow env w) userId operation (rateLimits w)
      in (b, w\<lparr>rateLimits := coll\<rparr>))"

section \<open>The classification engine (gemini-enhanced.js)\<close>

text \<open>The fields the constructor sets from the process environment.\<close>

record analyzer =
  GEMINI_API_KEY :: jsval
  USE_GEMINI :: bool

definition VALID_CATEGORIES :: "jsstring list" where
  "VALID_CATEGORIES =
     [js ''Finance/Investments'', js ''Finance/Banking'', js ''Finance/E-commerce'',
      js ''Finance/Billing'', js ''Finance/General'', js ''Work'', js ''Shopping'',
      js ''Personal'', js ''Promotions'', js ''Other'']"

definition SENTIMENTS :: "jsstring list" where
  "SENTIMENTS = [js ''positive'', js ''negative'', js ''neutral'']"

text \<open>\<open>list.includes(v)\<close> for a list of strings: only a string can be a member.\<close>

definition list_includes :: "jsstring list \<Rightarrow> jsval \<Rightarrow> bool" where
  "list_includes xs v = (case v of JStr s \<Rightarrow> s \<in> set xs | _ \<Rightarrow> False)"

definition str_of :: "jsval \<Rightarrow> jsstring" where
  "str_of v = (case v of JStr s \<Rightarrow> s | _ \<Rightarrow> [])"

text \<open>\<open>s.replace(/[^a-zA-Z0-9\s\/]/g, '')\<close>: the characters the class excludes are removed.\<close>

definition labelChar :: "16 word \<Rightarrow> bool" where
  "labelChar c \<longleftrightarrow> isAlnum c \<or> isWhiteSpace c \<or> c = 0x2F"

definition removeSpecial :: "jsstring \<Rightarrow> jsstring" where
  "removeSpecial s = filter labelChar s"

text \<open>
  \<open>validateAnalysis\<close>. Calling \<open>replace\<close> on a value that is not a string throws a
  \<open>TypeError\<close>, which is the \<open>Inl\<close> result.
\<close>

definition validateAnalysis :: "jsobject \<Rightarrow> js_error + analysis" where
  "validateAnalysis a =
     (let validated_purpose = js_or (getProp a (js ''purpose'')) (JStr (js ''Unknown purpose''));
          validated_category =
            (if list_includes VALID_CATEGORIES (getProp a (js ''category''))
             then str_of (getProp a (js ''category'')) else js ''Other'');
          validated_summary = js_or (getProp a (js ''summary'')) (JStr (js ''No summary available''));
          validated_sentiment =
            (if list_includes SENTIMENTS (getProp a (js ''sentiment''))
             then str_of (getProp a (js ''sentiment'')) else js ''neutral'');
          validated_label = js_or (getProp a (js ''suggestedLabel'')) (JStr (js ''General''))
      in case validated_label of
           JStr s \<Rightarrow>
             (let cleaned = substring0 30 (trim (removeSpecial s))
              in Inr \<lparr>purpose = validated_purpose, category = validated_category,
                      summary = validated_summary, sentiment = validated_sentiment,
                      suggestedLabel = (if cleaned = [] then js ''General'' else cleaned)\<rparr>)
         | _ \<Rightarrow> Inl (TypeError (js ''validated.suggestedLabel.replace is not a function'')))"

definition financialKeywords :: "jsstring list" where
  "financialKeywords = [js ''invoice'', js ''payment'', js ''bill'', js ''transaction'', js ''amount'',
     js ''due'', js ''statement'', js ''credit card'', js ''bank'', js ''account'']"

definition investmentKeywords :: "jsstring list" where
  "investmentKeywords = [js ''sip'', js ''mutual fund'', js ''stock'', js ''portfolio'',
     js ''investment'', js ''trading'', js ''demat'']"

definition workKeywords :: "jsstring list" where
  "workKeywords = [js ''meeting'', js ''project'', js ''deadline'', js ''report'',
     js ''presentation'', js ''office'', js ''work'']"

definition personalKeywords :: "jsstring list" where
  "personalKeywords = [js ''family'', js ''friend'', js ''personal'', js ''weekend'', js ''trip'',
     js ''vacation'']"

definition shoppingKeywords :: "jsstring list" where
  "shoppingKeywords = [js ''order'', js ''delivery'', js ''purchase'', js ''buy'', js ''shop'',
     js ''cart'', js ''shipment'']"

definition positiveWords :: "jsstring list" where
  "positiveWords = [js ''congratulations'', js ''thank you'', js ''great'', js ''excellent'',
     js ''success'', js ''approved'']"

definition negativeWords :: "jsstring list" where
  "negativeWords = [js ''urgent'', js ''overdue'', js ''failed'', js ''error'', js ''problem'',
     js ''issue'', js ''cancelled'']"

text \<open>
  \<open>fallbackAnalysis\<close>, the rule engine. \<open>lower\<close> is the runtime's \<open>toLowerCase\<close>. The
  three results of the category chain are (category, purpose, suggestedLabel).
\<close>

definition fallbackAnalysis ::
  "(jsstring \<Rightarrow> jsstring) \<Rightarrow> jsstring \<Rightarrow> jsstring \<Rightarrow> jsstring \<Rightarrow> analysis" where
  "fallbackAnalysis lower subj sender snip =
     (let subjectLower = lower subj;
          fromLower = lower sender;
          snippetLower = lower snip;
          (cat, purp, lab) =
            (if list_ex (\<lambda>keyword. str_includes subjectLower keyword \<or> str_includes snippetLower keyword)
                  financialKeywords
             then (if list_ex (\<lambda>keyword. str_includes subjectLower keyword) investmentKeywords
                   then (js ''Finance/Investments'', js ''Investment notification'', js ''Investments'')
                   else (js ''Finance/Banking'', js ''Financial transaction'', js ''Banking''))
             else if list_ex (\<lambda>keyword. str_includes subjectLower keyword) workKeywords
             then (js ''Work'', js ''Work related'', js ''Work'')
             else if list_ex (\<lambda>keyword. str_includes subjectLower keyword) personalKeywords
             then (js ''Personal'', js ''Personal communication'', js ''Personal'')
             else if list_ex (\<lambda>keyword. str_includes subjectLower keyword) shoppingKeywords
             then (js ''Shopping'', js ''Shopping related'', js ''Shopping'')
             else (js ''Other'', js ''General communication'', js ''General''));
          sent =
            (if list_ex (\<lambda>word. str_includes subjectLower word) positiveWords then js ''positive''
             else if list_ex (\<lambda>word. str_includes subjectLower word) negativeWords then js ''negative''
             else js ''neutral'')
      in \<lparr>purpose = JStr purp, category = cat,
          summary = JStr (if length subj > 100 then substring0 97 subj @ js ''...'' else subj),
          sentiment = sent, suggestedLabel = lab\<rparr>)"

text \<open>\<open>callGeminiAPI\<close>: one request to the classification API.\<close>

definition callGeminiAPI ::
  "'g env \<Rightarrow> analyzer \<Rightarrow> prompt \<Rightarrow> 'g world \<Rightarrow> (js_error + jsobject) \<times> 'g world" where
  "callGeminiAPI env an p w =
     (let (r, x) = generateContent env (GEMINI_API_KEY an) p (ext w)
      in (r, w\<lparr>ext := x, trace := trace w @ [GeminiCall p]\<rparr>))"

text \<open>The body of the \<open>try\<close> block of \<open>analyzeEmail\<close>; \<open>Inl\<close> is an exception thrown in it.\<close>

definition analyzeEmail_try ::
  "'g env \<Rightarrow> analyzer \<Rightarrow> jsstring \<Rightarrow> jsstring \<Rightarrow> jsstring \<Rightarrow> jsstring \<Rightarrow> 'g world
     \<Rightarrow> (js_error + analysis) \<times> 'g world" where
  "analyzeEmail_try env an subj sender snip userId w =
     (let (canProceed, w1) = checkRateLimitW env userId (js ''gemini'') w
      in if \<not> canProceed then (Inr (fallbackAnalysis (toLowerCase env) subj sender snip), w1)
         else (let (r, w2) = callGeminiAPI env an (AnalyzePrompt subj sender snip) w1
               in case r of
                    Inl e \<Rightarrow> (Inl e, w2)
                  | Inr a \<Rightarrow> (validateAnalysis a, w2)))"

text \<open>\<open>analyzeEmail\<close>: the \<open>catch\<close> block answers every exception with the rule engine.\<close>

definition analyzeEmail ::
  "'g env \<Rightarrow> analyzer \<Rightarrow> jsstring \<Rightarrow> jsstring \<Rightarrow> jsstring \<Rightarrow> jsstring \<Rightarrow> 'g world
     \<Rightarrow> analysis \<times> 'g world" where
  "analyzeEmail env an subj sender snip userId w =
     (case analyzeEmail_try env an subj sender snip userId w of
        (Inr a, w') \<Rightarrow> (a, w')
      | (Inl e, w') \<Rightarrow> (fallbackAnalysis (toLowerCase env) subj sender snip, w'))"

text \<open>What \<open>batchAnalyzeEmails\<close> of the analyzer returns, without the per-email list.\<close>

record analyze_summary =
  total :: nat
  successful :: nat
  failed :: nat

text \<open>
  The inner loop over one chunk. Classification does not throw and the store update is
  taken to succeed, so every email adds a success and the \<open>catch\<close> block, which would
  add a failure, is never entered.
\<close>

fun analyzeChunk ::
  "'g env \<Rightarrow> analyzer \<Rightarrow> jsstring \<Rightarrow> email list \<Rightarrow> nat \<Rightarrow> 'g world \<Rightarrow> nat \<times> 'g world" where
  "analyzeChunk env an userId [] succ w = (succ, w)"
| "analyzeChunk env an userId (e # es) succ w =
     (let (a, w1) = analyzeEmail env an (subject e) (e_from e) (snippet e) userId w;
          w2 = updateEmailAnalysis env (gmailId e) a w1
      in analyzeChunk env an userId es (Suc succ) w2)"

text \<open>The outer loop: chunks of five, with a pause of 2000 ms between chunks.\<close>

function analyzeChunks ::
  "'g env \<Rightarrow> analyzer \<Rightarrow> jsstring \<Rightarrow> email list \<Rightarrow> nat \<Rightarrow> 'g world \<Rightarrow> nat \<times> 'g world" where
  "analyzeChunks env an userId es succ w =
     (if es = [] then (succ, w)
      else (let (succ1, w1) = analyzeChunk env an userId (take 5 es) succ w;
                w2 = (if 5 < length es then w1\<lparr>ext := setTimeout env 2000 (ext w1)\<rparr> else w1)
            in analyzeChunks env an userId (drop 5 es) succ1 w2))"
  by pat_completeness auto
termination
  by (relation "measure (\<lambda>(env, an, userId, es, succ, w). length es)") auto

declare analyzeChunks.simps [simp del]

definition analyzer_batchAnalyzeEmails ::
  "'g env \<Rightarrow> analyzer \<Rightarrow> email list \<Rightarrow> jsstring \<Rightarrow> 'g world \<Rightarrow> analyze_summary \<times> 'g world" where
  "analyzer_batchAnalyzeEmails env an es userId w =
     (let (succ, w') = analyzeChunks env an userId es 0 w
      in (\<lparr>total = length es, successful = succ, failed = 0\<rparr>, w'))"

text \<open>\<open>validateSuggestions\<close> and \<open>suggestLabelOrganization\<close>; the latter answers every failure with the empty suggestions.\<close>

definition emptySuggestions :: jsval where
  "emptySuggestions =
     JObj [(js ''mergeSuggestions'', JArr []), (js ''hierarchySuggestions'', JArr []),
           (js ''renameSuggestions'', JArr []), (js ''newLabels'', JArr [])]"

definition validateSuggestions :: "jsobject \<Rightarrow> jsval" where
  "validateSuggestions s =
     JObj [(js ''mergeSuggestions'', js_or (getProp s (js ''mergeSuggestions'')) (JArr [])),
           (js ''hierarchySuggestions'', js_or (getProp s (js ''hierarchySuggestions'')) (JArr [])),
           (js ''renameSuggestions'', js_or (getProp s (js ''renameSuggestions'')) (JArr [])),
           (js ''newLabels'', js_or (getProp s (js ''newLabels'')) (JArr []))]"

definition suggestLabelOrganization :: "'g env \<Rightarrow> analyzer \<Rightarrow> jsstring \<Rightarrow> 'g world \<Rightarrow> jsval \<times> 'g world" where
  "suggestLabelOrganization env an userId w =
     (let (r, w') = callGeminiAPI env an
                      (OrganizePrompt (map name (getLabels userId (labels w)))
                                      (getCategoryBreakdown userId (emails w))) w
      in case r of
           Inl e \<Rightarrow> (emptySuggestions, w')
         | Inr s \<Rightarrow> (validateSuggestions s, w'))"

section \<open>The batch processor (src/unnamed/part_000, class BatchProcessor)\<close>

text \<open>A number in a template string, in decimal.\<close>

function decimal :: "nat \<Rightarrow> jsstring" where
  "decimal n = (if n < 10 then [of_nat (48 + n)] else decimal (n div 10) @ [of_nat (48 + n mod 10)])"
  by pat_completeness auto
termination
  by (relation "measure id") auto

declare decimal.simps [simp del]

definition num :: "nat \<Rightarrow> jsval" where
  "num n = JNum (of_nat n)"

subsection \<open>Calls to the mail provider\<close>

definition gmail_list :: "'g env \<Rightarrow> list_request \<Rightarrow> 'g world \<Rightarrow> (js_error + list_response) \<times> 'g world" where
  "gmail_list env req w =
     (let (r, x) = messages_list env (oauth w) req (ext w)
      in (r, w\<lparr>ext := x, trace := trace w @ [GmailList req]\<rparr>))"

definition gmail_get :: "'g env \<Rightarrow> jsstring \<Rightarrow> 'g world \<Rightarrow> (js_error + message_meta) \<times> 'g world" where
  "gmail_get env mid w =
     (let (r, x) = messages_get env (oauth w) mid (ext w)
      in (r, w\<lparr>ext := x, trace := trace w @ [GmailGet mid]\<rparr>))"

definition gmail_createLabel :: "'g env \<Rightarrow> jsstring \<Rightarrow> 'g world \<Rightarrow> (js_error + jsstring) \<times> 'g world" where
  "gmail_createLabel env nm w =
     (let (r, x) = labels_create env (oauth w) nm (ext w)
      in (r, w\<lparr>ext := x, trace := trace w @ [GmailCreateLabel nm]\<rparr>))"

definition gmail_modify :: "'g env \<Rightarrow> jsstring \<Rightarrow> jsstring list \<Rightarrow> 'g world \<Rightarrow> (js_error + unit) \<times> 'g world" where
  "gmail_modify env mid addLabelIds w =
     (let (r, x) = messages_modify env (oauth w) mid addLabelIds (ext w)
      in (r, w\<lparr>ext := x, trace := trace w @ [GmailModify mid addLabelIds]\<rparr>))"

subsection \<open>createBatch\<close>

definition generateBatchId :: "'g env \<Rightarrow> 'g world \<Rightarrow> jsstring \<times> 'g world" where
  "generateBatchId env w = (let (s, x) = randomId env (ext w) in (s, w\<lparr>ext := x\<rparr>))"

definition createBatch :: "'g env \<Rightarrow> jsstring \<Rightarrow> jsstring \<Rightarrow> options \<Rightarrow> 'g world \<Rightarrow> jsstring \<times> 'g world" where
  "createBatch env userId operation opts w =
     (let (bid, w1) = generateBatchId env w;
          batchData = \<lparr>batchId = bid, b_userId = userId, b_options = opts,
                       b_fields = [Operation \<mapsto> JStr operation, Status \<mapsto> JStr (js ''created''),
                                   EmailsProcessed \<mapsto> num 0, EmailsTotal \<mapsto> num 0,
                                   LabelsCreated \<mapsto> num 0, LabelsUsed \<mapsto> num 0,
                                   Errors \<mapsto> JArr []]\<rparr>
      in (bid, createBatchLog env batchData w1))"

subsection \<open>batchFetchEmails\<close>

definition emailData :: "'g env \<Rightarrow> jsstring \<Rightarrow> message_meta \<Rightarrow> 'g world \<Rightarrow> email" where
  "emailData env userId msg w =
     \<lparr>gmailId = m_id msg, e_userId = userId, threadId = m_threadId msg,
      subject = str_or (m_subject msg) (js ''No Subject''),
      e_from = str_or (m_from msg) (js ''Unknown''),
      e_to = str_or (m_to msg) [],
      snippet = str_or (m_snippet msg) [],
      timestamp = (case m_date msg of Some t \<Rightarrow> t | None \<Rightarrow> dateNow env w),
      processed = False, synced = False, e_analysis = None, e_updatedAt = 0\<rparr>"

text \<open>The loop over the messages of one page: a message whose fetch fails is skipped.\<close>

fun fetchMessages :: "'g env \<Rightarrow> jsstring \<Rightarrow> jsstring list \<Rightarrow> nat \<Rightarrow> 'g world \<Rightarrow> nat \<times> 'g world" where
  "fetchMessages env userId [] totalEmails w = (totalEmails, w)"
| "fetchMessages env userId (mid # ms) totalEmails w =
     (let (r, w1) = gmail_get env mid w
      in case r of
           Inl msgError \<Rightarrow> fetchMessages env userId ms totalEmails w1
         | Inr msg \<Rightarrow>
             fetchMessages env userId ms (Suc totalEmails)
               (saveEmail env (emailData env userId msg w1) w1))"

definition tokenTruthy :: "jsstring option \<Rightarrow> bool" where
  "tokenTruthy t = (case t of None \<Rightarrow> False | Some s \<Rightarrow> s \<noteq> [])"

text \<open>
  The \<open>do ... while\<close> loop over the pages. The provider decides how many pages there
  are, so the loop runs on fuel: \<open>None\<close> is a run that has not ended within it.
\<close>

fun fetchPages ::
  "nat \<Rightarrow> 'g env \<Rightarrow> jsstring \<Rightarrow> options \<Rightarrow> int \<Rightarrow> jsstring option \<Rightarrow> nat \<Rightarrow> 'g world
     \<Rightarrow> ((js_error + nat) \<times> 'g world) option" where
  "fetchPages 0 env bid opts bsize tok totalEmails w = None"
| "fetchPages (Suc fuel) env bid opts bsize tok totalEmails w =
     (let (r, w1) = gmail_list env \<lparr>maxResults = min bsize 50, pageToken = tok,
                                    q = str_or (query opts) (js ''in:inbox'')\<rparr> w
      in case r of
           Inl e \<Rightarrow> Some (Inl e, w1)
         | Inr response \<Rightarrow>
             (let msgs = (case messages response of None \<Rightarrow> [] | Some ms \<Rightarrow> ms);
                  (total', w2) = fetchMessages env (o_userId opts) msgs totalEmails w1;
                  tok' = nextPageToken response;
                  w3 = updateBatchLog env bid [EmailsProcessed \<mapsto> num total'] w2
              in if tokenTruthy tok' \<and> int total' < bsize
                 then fetchPages fuel env bid opts bsize tok' total' w3
                 else Some (Inr total', w3)))"

definition batchFetchEmails ::
  "nat \<Rightarrow> 'g env \<Rightarrow> jsstring \<Rightarrow> options \<Rightarrow> 'g world \<Rightarrow> ((js_error + fields) \<times> 'g world) option" where
  "batchFetchEmails fuel env bid opts w =
     (case fetchPages fuel env bid opts (num_or (batchSize opts) 100) None 0 w of
        None \<Rightarrow> None
      | Some (Inl e, w') \<Rightarrow> Some (Inl e, w')
      | Some (Inr totalEmails, w') \<Rightarrow>
          Some (Inr [EmailsProcessed \<mapsto> num totalEmails, EmailsTotal \<mapsto> num totalEmails,
                     Operation \<mapsto> JStr (js ''fetchEmails'')], w'))"

subsection \<open>batchAnalyzeEmails\<close>

definition batchAnalyzeEmails ::
  "'g env \<Rightarrow> analyzer \<Rightarrow> jsstring \<Rightarrow> options \<Rightarrow> 'g world \<Rightarrow> (js_error + fields) \<times> 'g world" where
  "batchAnalyzeEmails env an bid opts w =
     (let userId = o_userId opts;
          lim = num_or (limit opts) 100;
          es = getEmails userId (Some False) (Some lim) (emails w)
      in if es = []
         then (Inr [EmailsProcessed \<mapsto> num 0, EmailsTotal \<mapsto> num 0,
                    Operation \<mapsto> JStr (js ''analyzeEmails'')], w)
         else (let (result, w') = analyzer_batchAnalyzeEmails env an es userId w
               in (Inr [EmailsProcessed \<mapsto> num (successful result),
                        EmailsTotal \<mapsto> num (length es),
                        Operation \<mapsto> JStr (js ''analyzeEmails''),
                        Errors \<mapsto> (if failed result > 0
                                      then JArr [JStr (decimal (failed result) @ js '' emails failed analysis'')]
                                      else JArr [])], w')))"

subsection \<open>batchCreateLabels\<close>

text \<open>The \<open>Set\<close> of suggested labels, in insertion order: each label where it first occurs.\<close>

definition uniqueLabels :: "email list \<Rightarrow> jsstring list" where
  "uniqueLabels es =
     rev (remdups (rev (List.map_filter
       (\<lambda>e. case e_analysis e of
               None \<Rightarrow> None
             | Some a \<Rightarrow> if suggestedLabel a \<noteq> [] then Some (suggestedLabel a) else None) es)))"

text \<open>
  One turn of the loop over the labels, on (labelsCreated, existingLabels, state): the
  label is looked up in the store and created at the provider only when it is absent; a
  failed creation is logged and skipped.
\<close>

definition createLabelStep ::
  "'g env \<Rightarrow> jsstring \<Rightarrow> nat \<times> nat \<times> 'g world \<Rightarrow> jsstring \<Rightarrow> nat \<times> nat \<times> 'g world" where
  "createLabelStep env userId acc labelName =
     (case acc of (labelsCreated, existingLabels, w) \<Rightarrow>
        (case getLabelByName userId labelName (labels w) of
           Some existingLabel \<Rightarrow> (labelsCreated, Suc existingLabels, w)
         | None \<Rightarrow>
             (let (r, w1) = gmail_createLabel env labelName w
              in case r of
                   Inl labelError \<Rightarrow> (labelsCreated, existingLabels, w1)
                 | Inr newId \<Rightarrow>
                     (Suc labelsCreated, existingLabels,
                      saveLabel env \<lparr>l_userId = userId, name = labelName, gmailLabelId = newId,
                                     emailCount = 0, isAuto = True, l_updatedAt = 0\<rparr> w1))))"

definition batchCreateLabels ::
  "'g env \<Rightarrow> jsstring \<Rightarrow> options \<Rightarrow> 'g world \<Rightarrow> (js_error + fields) \<times> 'g world" where
  "batchCreateLabels env bid opts w =
     (let userId = o_userId opts;
          es = getEmails userId (Some True) None (emails w);
          (labelsCreated, existingLabels, w') =
             foldl (createLabelStep env userId) (0, 0, w) (uniqueLabels es)
      in (Inr [LabelsCreated \<mapsto> num labelsCreated,
               LabelsUsed \<mapsto> num (existingLabels + labelsCreated),
               Operation \<mapsto> JStr (js ''createLabels'')], w'))"

subsection \<open>batchAssignLabels\<close>

definition markSynced :: "'g env \<Rightarrow> jsstring \<Rightarrow> 'g world \<Rightarrow> 'g world" where
  "markSynced env gid w =
     w\<lparr>emails := updateOne (\<lambda>d. gmailId d = gid)
                    (\<lambda>d. d\<lparr>synced := True, e_updatedAt := dateNow env w\<rparr>) (emails w)\<rparr>"

text \<open>
  The emails a run of \<open>batchAssignLabels\<close> reads, the processed ones within the limit,
  and those of them it works on, the ones not synced.
\<close>

definition selectedEmails :: "options \<Rightarrow> 'g world \<Rightarrow> email list" where
  "selectedEmails opts w =
     getEmails (o_userId opts) (Some True) (Some (num_or (batchSize opts) 50)) (emails w)"

definition unsyncedEmails :: "options \<Rightarrow> 'g world \<Rightarrow> email list" where
  "unsyncedEmails opts w = filter (\<lambda>e. \<not> synced e) (selectedEmails opts w)"

text \<open>One turn of the loop over the unsynced emails, on (successCount, failCount, state).\<close>

definition assignLabelStep ::
  "'g env \<Rightarrow> jsstring \<Rightarrow> nat \<times> nat \<times> 'g world \<Rightarrow> email \<Rightarrow> nat \<times> nat \<times> 'g world" where
  "assignLabelStep env userId acc e =
     (case acc of (successCount, failCount, w) \<Rightarrow>
        (case e_analysis e of
           None \<Rightarrow> (successCount, failCount, w)
         | Some a \<Rightarrow>
             if suggestedLabel a = [] then (successCount, failCount, w)
             else (case getLabelByName userId (suggestedLabel a) (labels w) of
                     None \<Rightarrow> (successCount, Suc failCount, w)
                   | Some lab \<Rightarrow>
                       (let (r, w1) = gmail_modify env (gmailId e) [gmailLabelId lab] w
                        in case r of
                             Inl assignError \<Rightarrow> (successCount, Suc failCount, w1)
                           | Inr u \<Rightarrow> (Suc successCount, failCount, markSynced env (gmailId e) w1)))))"

definition batchAssignLabels ::
  "'g env \<Rightarrow> jsstring \<Rightarrow> options \<Rightarrow> 'g world \<Rightarrow> (js_error + fields) \<times> 'g world" where
  "batchAssignLabels env bid opts w =
     (let userId = o_userId opts;
          unsynced = unsyncedEmails opts w
      in if unsynced = []
         then (Inr [EmailsProcessed \<mapsto> num 0, EmailsTotal \<mapsto> num 0,
                    Operation \<mapsto> JStr (js ''assignLabels'')], w)
         else (let (successCount, failCount, w') =
                      foldl (assignLabelStep env userId) (0, 0, w) unsynced
               in (Inr [EmailsProcessed \<mapsto> num successCount,
                        EmailsTotal \<mapsto> num (length unsynced),
                        Operation \<mapsto> JStr (js ''assignLabels''),
                        Errors \<mapsto> (if failCount > 0
                                      then JArr [JStr (decimal failCount @ js '' emails failed labeling'')]
                                      else JArr [])], w')))"

subsection \<open>batchOrganizeLabels\<close>

definition batchOrganizeLabels ::
  "'g env \<Rightarrow> analyzer \<Rightarrow> jsstring \<Rightarrow> options \<Rightarrow> 'g world \<Rightarrow> (js_error + fields) \<times> 'g world" where
  "batchOrganizeLabels env an bid opts w =
     (let (suggestions, w') = suggestLabelOrganization env an (o_userId opts) w
      in (Inr [Suggestions \<mapsto> suggestions, Operation \<mapsto> JStr (js ''organizeLabels'')], w'))"

subsection \<open>fullBatchProcess\<close>

text \<open>The four steps in order; the first exception ends the run. The results of the steps are returned apart.\<close>

definition fullBatchProcess_steps ::
  "nat \<Rightarrow> 'g env \<Rightarrow> analyzer \<Rightarrow> jsstring \<Rightarrow> options \<Rightarrow> 'g world
     \<Rightarrow> ((js_error + fields \<times> fields \<times> fields \<times> fields) \<times> 'g world) option" where
  "fullBatchProcess_steps fuel env an bid opts w =
     (let userId = o_userId opts;
          bsize = num_or (batchSize opts) 100
      in case batchFetchEmails fuel env bid
                \<lparr>o_userId = userId, batchSize = Some bsize, limit = None, query = None\<rparr> w of
           None \<Rightarrow> None
         | Some (Inl e, w1) \<Rightarrow> Some (Inl e, w1)
         | Some (Inr fetchResult, w1) \<Rightarrow>
            (case batchAnalyzeEmails env an bid
                    \<lparr>o_userId = userId, batchSize = None, limit = Some bsize, query = None\<rparr> w1 of
               (Inl e, w2) \<Rightarrow> Some (Inl e, w2)
             | (Inr analyzeResult, w2) \<Rightarrow>
                (case batchCreateLabels env bid
                        \<lparr>o_userId = userId, batchSize = None, limit = None, query = None\<rparr> w2 of
                   (Inl e, w3) \<Rightarrow> Some (Inl e, w3)
                 | (Inr createLabelsResult, w3) \<Rightarrow>
                    (case batchAssignLabels env bid
                            \<lparr>o_userId = userId, batchSize = Some bsize, limit = None, query = None\<rparr> w3 of
                       (Inl e, w4) \<Rightarrow> Some (Inl e, w4)
                     | (Inr assignLabelsResult, w4) \<Rightarrow>
                         Some (Inr (fetchResult, analyzeResult, createLabelsResult,
                                    assignLabelsResult), w4)))))"

text \<open>
  \<open>finalResult = {...fetchResult, ...analyzeResult, ...createLabelsResult,
  ...assignLabelsResult, operation: 'fullProcess'}\<close>.
\<close>

definition finalResult :: "fields \<times> fields \<times> fields \<times> fields \<Rightarrow> fields" where
  "finalResult rs =
     (case rs of (fetchResult, analyzeResult, createLabelsResult, assignLabelsResult) \<Rightarrow>
        fetchResult ++ analyzeResult ++ createLabelsResult ++ assignLabelsResult ++
        [Operation \<mapsto> JStr (js ''fullProcess'')])"

definition fullBatchProcess ::
  "nat \<Rightarrow> 'g env \<Rightarrow> analyzer \<Rightarrow> jsstring \<Rightarrow> options \<Rightarrow> 'g world
     \<Rightarrow> ((js_error + fields) \<times> 'g world) option" where
  "fullBatchProcess fuel env an bid opts w =
     (case fullBatchProcess_steps fuel env an bid opts w of
        None \<Rightarrow> None
      | Some (Inl e, w') \<Rightarrow> Some (Inl e, w')
      | Some (Inr rs, w') \<Rightarrow> Some (Inr (finalResult rs), w'))"

subsection \<open>executeBatch\<close>

record user_tokens =
  accessToken :: jsval
  refreshToken :: jsval

text \<open>The \<open>switch\<close> on the operation of the batch log.\<close>

definition dispatch ::
  "nat \<Rightarrow> 'g env \<Rightarrow> analyzer \<Rightarrow> jsstring \<Rightarrow> jsval option \<Rightarrow> options \<Rightarrow> 'g world
     \<Rightarrow> ((js_error + fields) \<times> 'g world) option" where
  "dispatch fuel env an bid operation opts w =
     (if operation = Some (JStr (js ''fetchEmails'')) then batchFetchEmails fuel env bid opts w
      else if operation = Some (JStr (js ''analyzeEmails'')) then Some (batchAnalyzeEmails env an bid opts w)
      else if operation = Some (JStr (js ''createLabels'')) then Some (batchCreateLabels env bid opts w)
      else if operation = Some (JStr (js ''assignLabels'')) then Some (batchAssignLabels env bid opts w)
      else if operation = Some (JStr (js ''organizeLabels'')) then Some (batchOrganizeLabels env an bid opts w)
      else if operation = Some (JStr (js ''fullProcess'')) then fullBatchProcess fuel env an bid opts w
      else Some (Inl (Error (js ''Unknown operation: '' @
                    (case operation of Some (JStr s) \<Rightarrow> s | _ \<Rightarrow> js ''undefined''))), w))"

text \<open>The \<open>catch\<close> block of \<open>executeBatch\<close>: the log is set to failed and the exception thrown again.\<close>

definition executeBatch_catch ::
  "'g env \<Rightarrow> jsstring \<Rightarrow> js_error \<Rightarrow> 'g world \<Rightarrow> (js_error + fields) \<times> 'g world" where
  "executeBatch_catch env bid error w =
     (Inl error,
      updateBatchLog env bid
        [Status \<mapsto> JStr (js ''failed''), EndTime \<mapsto> JDate (dateNow env w),
         Errors \<mapsto> JArr [JStr (err_message error)]] w)"

definition executeBatch ::
  "nat \<Rightarrow> 'g env \<Rightarrow> analyzer \<Rightarrow> jsstring \<Rightarrow> user_tokens \<Rightarrow> 'g world
     \<Rightarrow> ((js_error + fields) \<times> 'g world) option" where
  "executeBatch fuel env an bid userTokens w =
     (let w0 = w\<lparr>oauth := \<lparr>access_token = accessToken userTokens,
                            refresh_token = refreshToken userTokens\<rparr>\<rparr>
      in case findBatchLog bid w0 of
           None \<Rightarrow> Some (executeBatch_catch env bid (Error (js ''Batch not found'')) w0)
         | Some batchLog \<Rightarrow>
             (let w1 = updateBatchLog env bid
                         [Status \<mapsto> JStr (js ''running''), StartTime \<mapsto> JDate (dateNow env w0)] w0
              in case dispatch fuel env an bid (b_fields batchLog Operation) (b_options batchLog) w1 of
                   None \<Rightarrow> None
                 | Some (Inl error, w2) \<Rightarrow> Some (executeBatch_catch env bid error w2)
                 | Some (Inr result, w2) \<Rightarrow>
                     Some (Inr result,
                           updateBatchLog env bid
                             ([Status \<mapsto> JStr (js ''completed''), EndTime \<mapsto> JDate (dateNow env w2)]
                              ++ result) w2)))"

definition getBatchStatus :: "jsstring \<Rightarrow> 'g world \<Rightarrow> batch_log option" where
  "getBatchStatus bid w = findBatchLog bid w"

section \<open>The server (server-mongo.js)\<close>

subsection \<open>POST /api/batch/create\<close>

text \<open>
  What a property read \<open>maxBatchSizes[operation]\<close> answers. The object is a literal with
  four keys, so a read finds the number of one of these keys, or else what the literal
  inherits from \<open>Object.prototype\<close>: for the twelve names below a function (for
  \<open>__proto__\<close> the prototype object), and \<open>undefined\<close> for every other name.
\<close>

datatype table_entry =
    Ceiling int
  | Inherited

definition objectPrototypeNames :: "jsstring list" where
  "objectPrototypeNames =
     [js ''constructor'', js ''__defineGetter__'', js ''__defineSetter__'', js ''hasOwnProperty'',
      js ''__lookupGetter__'', js ''__lookupSetter__'', js ''isPrototypeOf'',
      js ''propertyIsEnumerable'', js ''toString'', js ''valueOf'', js ''__proto__'',
      js ''toLocaleString'']"

definition maxBatchSizes :: "jsstring \<Rightarrow> table_entry option" where
  "maxBatchSizes operation =
     (case map_of [(js ''fetchEmails'', 500), (js ''analyzeEmails'', 200),
                   (js ''assignLabels'', 200), (js ''fullProcess'', 200)] operation of
        Some m \<Rightarrow> Some (Ceiling m)
      | None \<Rightarrow> if operation \<in> set objectPrototypeNames then Some Inherited else None)"

datatype create_response =
    BadRequest jsstring
  | Created jsstring
  | ServerError jsstring

text \<open>
  The handler, on the \<open>operation\<close> and \<open>options\<close> of the request body (\<open>None\<close>: the body
  has no \<open>options\<close>, and reading \<open>options.batchSize\<close> throws) and the user of the session.
  The operation is a string. \<open>options.batchSize && maxBatchSizes[operation]\<close> guards both
  checks: a batch size 0 is falsy, and so is a missing entry. An inherited entry is
  truthy; it converts to \<open>NaN\<close>, so the comparison \<open>options.batchSize > maxBatchSizes[operation]\<close>
  is false for it.
\<close>

definition batchCreateRoute ::
  "'g env \<Rightarrow> jsstring \<Rightarrow> jsstring \<Rightarrow> options option \<Rightarrow> 'g world \<Rightarrow> create_response \<times> 'g world" where
  "batchCreateRoute env userId operation optsOpt w =
     (case optsOpt of
        None \<Rightarrow> (ServerError (js ''Failed to create batch''), w)
      | Some opts \<Rightarrow>
          (let created = (let (bid, w') = createBatch env userId operation (opts\<lparr>o_userId := userId\<rparr>) w
                          in (Created bid, w'))
           in case (batchSize opts, maxBatchSizes operation) of
                (Some b, Some entry) \<Rightarrow>
                  if b \<noteq> 0
                  then (case entry of
                          Ceiling m \<Rightarrow>
                            if b > m
                            then (BadRequest (js ''Batch size too large. Maximum for '' @ operation @
                                              js '' is '' @ decimal (nat m)), w)
                            else if b < 1
                            then (BadRequest (js ''Batch size must be at least 1''), w)
                            else created
                        | Inherited \<Rightarrow>
                            if b < 1
                            then (BadRequest (js ''Batch size must be at least 1''), w)
                            else created)
                  else created
              | _ \<Rightarrow> created))"

subsection \<open>withTokenRefresh\<close>

text \<open>\<open>req.user\<close> of the session.\<close>

record session_user =
  profile_id :: jsstring
  s_accessToken :: jsval
  s_refreshToken :: jsval

text \<open>
  How a call of the wrapper ends: it returns what the operation returned, it answers 401
  with \<open>requiresReauth: true\<close>, or it throws.
\<close>

datatype 'a guarded =
    Returned 'a
  | RequiresReauth
  | Thrown js_error

text \<open>What the wrapper itself does, in order.\<close>

datatype guard_step =
    SetCredentials oauth_credentials
  | CallOperation
  | RefreshToken
  | PersistTokens jsstring jsval jsval
  | UpdateSession jsval

definition isTokenError :: "js_error \<Rightarrow> bool" where
  "isTokenError error \<longleftrightarrow>
     err_code error = JNum 401 \<or> str_includes (err_message error) (js ''invalid_token'')"

text \<open>
  \<open>withTokenRefresh(req, res, operation)\<close>. The operation is any function on the state
  that returns or throws. The result is how the call ends, the steps of the wrapper, the
  user of the session afterwards, and the state.
\<close>

definition withTokenRefresh ::
  "'g env \<Rightarrow> session_user \<Rightarrow> ('g world \<Rightarrow> (js_error + 'a) \<times> 'g world) \<Rightarrow> 'g world
     \<Rightarrow> ('a guarded \<times> guard_step list \<times> session_user) \<times> 'g world" where
  "withTokenRefresh env usr operation w =
     (let c0 = \<lparr>access_token = s_accessToken usr, refresh_token = s_refreshToken usr\<rparr>;
          (r, w1) = operation (w\<lparr>oauth := c0\<rparr>);
          steps1 = [SetCredentials c0, CallOperation]
      in case r of
           Inr v \<Rightarrow> ((Returned v, steps1, usr), w1)
         | Inl error \<Rightarrow>
             if isTokenError error
             then (let (rr, x) = refreshAccessToken env (oauth w1) (ext w1);
                       w2 = w1\<lparr>ext := x\<rparr>
                   in case rr of
                        Inl refreshError \<Rightarrow> ((RequiresReauth, steps1 @ [RefreshToken], usr), w2)
                      | Inr credentials \<Rightarrow>
                          (let newRefresh = js_or (new_refresh_token credentials) (s_refreshToken usr);
                               w3 = updateUserTokens env (profile_id usr) (new_access_token credentials)
                                      newRefresh (expiry_date credentials) w2;
                               usr' = usr\<lparr>s_accessToken := new_access_token credentials\<rparr>;
                               c1 = \<lparr>access_token = new_access_token credentials,
                                     refresh_token = newRefresh\<rparr>;
                               (r2, w4) = operation (w3\<lparr>oauth := c1\<rparr>);
                               steps2 = steps1 @ [RefreshToken,
                                          PersistTokens (profile_id usr) (new_access_token credentials) newRefresh,
                                          UpdateSession (new_access_token credentials),
                                          SetCredentials c1, CallOperation]
                           in case r2 of
                                Inr v \<Rightarrow> ((Returned v, steps2, usr'), w4)
                              | Inl e2 \<Rightarrow> ((RequiresReauth, steps2, usr'), w4)))
             else ((Thrown error, steps1, usr), w1))"

section \<open>Sample environments and states\<close>

text \<open>
  For evaluating the definitions on concrete inputs: a runtime whose \<open>toLowerCase\<close>
  maps A to Z only, a clock that stands at \<open>t\<close>, a reachable store, a classification API
  that always answers \<open>answer\<close>, and a mail provider with an empty mailbox that accepts
  every label creation and label assignment and refuses every token refresh.
\<close>

definition asciiLower :: "jsstring \<Rightarrow> jsstring" where
  "asciiLower s = map (\<lambda>c. if 0x41 \<le> c \<and> c \<le> 0x5A then c + 0x20 else c) s"

definition sampleEnv :: "int \<Rightarrow> (js_error + jsobject) \<Rightarrow> unit env" where
  "sampleEnv t answer =
     \<lparr>clock = (\<lambda>x. t),
      toLowerCase = asciiLower,
      setTimeout = (\<lambda>ms x. x),
      rateStore = (\<lambda>x. Healthy),
      generateContent = (\<lambda>key p x. (answer, x)),
      messages_list = (\<lambda>c req x. (Inr \<lparr>messages = None, nextPageToken = None\<rparr>, x)),
      messages_get = (\<lambda>c mid x. (Inl (Error (js ''Not Found'')), x)),
      labels_create = (\<lambda>c nm x. (Inr (js ''Label_'' @ nm), x)),
      messages_modify = (\<lambda>c mid ids x. (Inr (), x)),
      refreshAccessToken = (\<lambda>c x. (Inl (Error (js ''invalid_grant'')), x)),
      randomId = (\<lambda>x. (js ''batch_1'', x))\<rparr>"

definition timeout :: "js_error + jsobject" where
  "timeout = Inl (Error (js ''Request timeout''))"

definition emptyWorld :: "unit world" where
  "emptyWorld =
     \<lparr>emails = [], labels = [], batchLogs = [], rateLimits = [], users = [],
      oauth = \<lparr>access_token = JUndefined, refresh_token = JUndefined\<rparr>,
      ext = (), trace = []\<rparr>"

definition analyzerOff :: analyzer where
  "analyzerOff = \<lparr>GEMINI_API_KEY = JUndefined, USE_GEMINI = False\<rparr>"

definition analyzerOn :: analyzer where
  "analyzerOn = \<lparr>GEMINI_API_KEY = JStr (js ''key''), USE_GEMINI = True\<rparr>"

text \<open>An answer of the classification API whose suggested label is A, TAB, B.\<close>

definition tabAnswer :: "js_error + jsobject" where
  "tabAnswer = Inr [(js ''category'', JStr (js ''Work'')),
                    (js ''suggestedLabel'', JStr [0x41, 0x09, 0x42])]"

text \<open>
  An answer of the classification API with a category and a sentiment outside the fixed
  sets and a suggested label with special characters.
\<close>

definition garbageAnswer :: "js_error + jsobject" where
  "garbageAnswer = Inr [(js ''category'', JStr (js ''Spam'')),
                        (js ''sentiment'', JStr (js ''angry'')),
                        (js ''suggestedLabel'', JStr (js '' Bills & Co! ''))]"

text \<open>The same environment with a provider that grants every token refresh.\<close>

definition refreshingEnv :: "unit env" where
  "refreshingEnv =
     (sampleEnv 0 timeout)\<lparr>refreshAccessToken :=
        (\<lambda>c x. (Inr \<lparr>new_access_token = JStr (js ''fresh''), new_refresh_token = JUndefined,
                       expiry_date = 3600000\<rparr>, x))\<rparr>"

text \<open>An operation that the provider refuses with 401 unless the fresh access token is installed.\<close>

definition needsFresh :: "unit world \<Rightarrow> (js_error + unit) \<times> unit world" where
  "needsFresh w =
     (if access_token (oauth w) = JStr (js ''fresh'') then (Inr (), w)
      else (Inl \<lparr>err_code = JNum 401, err_message = js ''Invalid Credentials''\<rparr>, w))"

definition sessionUser :: session_user where
  "sessionUser = \<lparr>profile_id = js ''u1'', s_accessToken = JStr (js ''stale''),
                   s_refreshToken = JStr (js ''r1'')\<rparr>"

definition oneUserWorld :: "unit world" where
  "oneUserWorld =
     emptyWorld\<lparr>users := [\<lparr>u_userId = js ''u1'', u_accessToken = JStr (js ''stale''),
                            u_refreshToken = JStr (js ''r1''), u_tokenExpiry = 0, u_updatedAt = 0\<rparr>]\<rparr>"

section \<open>Observations on a run\<close>

text \<open>The status a write of the trace gives to the job \<open>bid\<close>, if it sets one.\<close>

fun statusOf :: "jsstring \<Rightarrow> event \<Rightarrow> jsval option" where
  "statusOf bid (BatchLogInsert d) = (if batchId d = bid then b_fields d Status else None)"
| "statusOf bid (BatchLogUpdate b u) = (if b = bid then u Status else None)"
| "statusOf bid (GeminiCall p) = None"
| "statusOf bid (GmailList req) = None"
| "statusOf bid (GmailGet mid) = None"
| "statusOf bid (GmailCreateLabel nm) = None"
| "statusOf bid (GmailModify mid ids) = None"

text \<open>The statuses written to the job \<open>bid\<close>, in order.\<close>

definition statusWrites :: "jsstring \<Rightarrow> event list \<Rightarrow> jsval list" where
  "statusWrites bid evs = List.map_filter (statusOf bid) evs"

text \<open>A key of the stored job \<open>bid\<close>.\<close>

definition jobField :: "jsstring \<Rightarrow> field \<Rightarrow> 'g world \<Rightarrow> jsval option" where
  "jobField bid f w = (case findBatchLog bid w of None \<Rightarrow> None | Some d \<Rightarrow> b_fields d f)"

text \<open>A step that writes no status to the job \<open>bid\<close> and keeps the jobs of the collection in place.\<close>

definition quietOn :: "jsstring \<Rightarrow> 'g world \<Rightarrow> 'g world \<Rightarrow> bool" where
  "quietOn bid w w' \<longleftrightarrow>
     statusWrites bid (trace w') = statusWrites bid (trace w) \<and>
     map batchId (batchLogs w') = map batchId (batchLogs w)"

text \<open>The remote calls of a trace.\<close>

fun isRemoteCall :: "event \<Rightarrow> bool" where
  "isRemoteCall (BatchLogInsert d) = False"
| "isRemoteCall (BatchLogUpdate b u) = False"
| "isRemoteCall (GeminiCall p) = True"
| "isRemoteCall (GmailList req) = True"
| "isRemoteCall (GmailGet mid) = True"
| "isRemoteCall (GmailCreateLabel nm) = True"
| "isRemoteCall (GmailModify mid ids) = True"


text \<open>The keys a result object of an operation can hold.\<close>

definition resultKeys :: "field set" where
  "resultKeys = {EmailsProcessed, EmailsTotal, LabelsCreated, LabelsUsed, Errors, Operation, Suggestions}"



text \<open>
  A job for createLabels created on the empty state, then executed once, then executed
  again.
\<close>

definition plainOptions :: options where
  "plainOptions = \<lparr>o_userId = js ''u1'', batchSize = None, limit = None, query = None\<rparr>"

definition staleTokens :: user_tokens where
  "staleTokens = \<lparr>accessToken = JStr (js ''stale''), refreshToken = JStr (js ''r1'')\<rparr>"

definition createdWorld :: "unit world" where
  "createdWorld =
     snd (createBatch (sampleEnv 0 timeout) (js ''u1'') (js ''createLabels'') plainOptions emptyWorld)"

definition worldAfter :: "((js_error + fields) \<times> 'g world) option \<Rightarrow> 'g world \<Rightarrow> 'g world" where
  "worldAfter res w = (case res of None \<Rightarrow> w | Some (r, w') \<Rightarrow> w')"

definition ranOnce :: "unit world" where
  "ranOnce =
     worldAfter (executeBatch 0 (sampleEnv 0 timeout) analyzerOff (js ''batch_1'') staleTokens createdWorld)
       createdWorld"


text \<open>
  A provider whose listing fails, with "Rate Limit Exceeded" on the first call and with
  "Backend Error" on every later one; its state counts the listing calls. A job for
  fetchEmails created against it, executed once, and executed again.
\<close>

definition flakyEnv :: "nat env" where
  "flakyEnv =
     \<lparr>clock = (\<lambda>n. int n),
      toLowerCase = asciiLower,
      setTimeout = (\<lambda>ms n. n),
      rateStore = (\<lambda>n. Healthy),
      generateContent = (\<lambda>key p n. (timeout, n)),
      messages_list = (\<lambda>c req n. (Inl (Error (if n = 0 then js ''Rate Limit Exceeded''
                                                  else js ''Backend Error'')), Suc n)),
      messages_get = (\<lambda>c mid n. (Inl (Error (js ''Not Found'')), n)),
      labels_create = (\<lambda>c nm n. (Inr (js ''Label_'' @ nm), n)),
      messages_modify = (\<lambda>c mid ids n. (Inr (), n)),
      refreshAccessToken = (\<lambda>c n. (Inl (Error (js ''invalid_grant'')), n)),
      randomId = (\<lambda>n. (js ''batch_1'', n))\<rparr>"

definition fetchJobWorld :: "nat world" where
  "fetchJobWorld =
     snd (createBatch flakyEnv (js ''u1'') (js ''fetchEmails'') plainOptions
            \<lparr>emails = [], labels = [], batchLogs = [], rateLimits = [], users = [],
             oauth = \<lparr>access_token = JUndefined, refresh_token = JUndefined\<rparr>,
             ext = 0, trace = []\<rparr>)"

definition failedOnce :: "nat world" where
  "failedOnce =
     worldAfter (executeBatch 1 flakyEnv analyzerOff (js ''batch_1'') staleTokens fetchJobWorld)
       fetchJobWorld"

definition failedTwice :: "nat world" where
  "failedTwice =
     worldAfter (executeBatch 1 flakyEnv analyzerOff (js ''batch_1'') staleTokens failedOnce)
       failedOnce"

text \<open>The metadata of a message with a subject and a date.\<close>

definition sampleMessage :: "jsstring \<Rightarrow> jsstring \<Rightarrow> int \<Rightarrow> message_meta" where
  "sampleMessage mid subj t =
     \<lparr>m_id = mid, m_threadId = JStr (js ''t1''), m_subject = Some subj,
      m_from = Some (js ''a@b.c''), m_to = None, m_date = Some t, m_snippet = None\<rparr>"







text \<open>
  A provider whose first listing holds the message m1 and names a further page, and whose
  every later listing fails with "Backend Error". A job for fetchEmails against it, and
  the state after its run.
\<close>

definition partialEnv :: "nat env" where
  "partialEnv =
     flakyEnv\<lparr>
        messages_list := (\<lambda>c req n. (if n = 0
                                       then Inr \<lparr>messages = Some [js ''m1''],
                                                 nextPageToken = Some (js ''next'')\<rparr>
                                       else Inl (Error (js ''Backend Error'')), Suc n)),
        messages_get := (\<lambda>c mid n. (Inr (sampleMessage mid (js ''Hello'') 1), n))\<rparr>"

definition partialJobWorld :: "nat world" where
  "partialJobWorld =
     snd (createBatch partialEnv (js ''u1'') (js ''fetchEmails'') plainOptions
            \<lparr>emails = [], labels = [], batchLogs = [], rateLimits = [], users = [],
             oauth = \<lparr>access_token = JUndefined, refresh_token = JUndefined\<rparr>,
             ext = 0, trace = []\<rparr>)"

definition partlyFetched :: "nat world" where
  "partlyFetched =
     worldAfter (executeBatch 2 partialEnv analyzerOff (js ''batch_1'') staleTokens partialJobWorld)
       partialJobWorld"

text \<open>A job for fullProcess on the empty state, and the state after its run.\<close>

definition fullJobWorld :: "unit world" where
  "fullJobWorld =
     snd (createBatch (sampleEnv 0 timeout) (js ''u1'') (js ''fullProcess'') plainOptions emptyWorld)"

definition fullRan :: "unit world" where
  "fullRan =
     worldAfter (executeBatch 1 (sampleEnv 0 timeout) analyzerOff (js ''batch_1'') staleTokens fullJobWorld)
       fullJobWorld"

text \<open>The value of a key in each of the four step results of a full run that returned.\<close>

definition stepValues ::
  "field \<Rightarrow> ((js_error + fields \<times> fields \<times> fields \<times> fields) \<times> 'g world) option \<Rightarrow> jsval option list" where
  "stepValues k res =
     (case res of
        Some (Inr (fetchResult, analyzeResult, createLabelsResult, assignLabelsResult), w) \<Rightarrow>
          [fetchResult k, analyzeResult k, createLabelsResult k, assignLabelsResult k]
      | _ \<Rightarrow> [])"

text \<open>The last of the step results that holds the key \<open>k\<close>, as the spread leaves it.\<close>

definition lastOf :: "fields \<times> fields \<times> fields \<times> fields \<Rightarrow> field \<Rightarrow> jsval option" where
  "lastOf rs k =
     (case rs of (fetchResult, analyzeResult, createLabelsResult, assignLabelsResult) \<Rightarrow>
        (case assignLabelsResult k of
           Some v \<Rightarrow> Some v
         | None \<Rightarrow>
            (case createLabelsResult k of
               Some v \<Rightarrow> Some v
             | None \<Rightarrow>
                (case analyzeResult k of
                   Some v \<Rightarrow> Some v
                 | None \<Rightarrow> fetchResult k))))"

text \<open>The key of the unique index of the \<open>labels\<close> collection.\<close>

definition labelKey :: "label \<Rightarrow> jsstring \<times> jsstring" where
  "labelKey d = (l_userId d, name d)"

text \<open>
  The fields of an email that the selection of \<open>getEmails\<close> reads: two email collections
  agree on them, document by document.
\<close>

definition sameSelection :: "email \<Rightarrow> email \<Rightarrow> bool" where
  "sameSelection a b \<longleftrightarrow>
     gmailId b = gmailId a \<and> e_userId b = e_userId a \<and> processed b = processed a \<and>
     timestamp b = timestamp a"

text \<open>
  A state with one classified email of user u1 that suggests the label Work, and the
  label Work in the store; and the state after one run of \<open>batchAssignLabels\<close> on it.
\<close>

definition workEmail :: email where
  "workEmail =
     \<lparr>gmailId = js ''m1'', e_userId = js ''u1'', threadId = JStr (js ''t1''),
      subject = js ''Project deadline'', e_from = js ''a@b.c'', e_to = [], snippet = [],
      timestamp = 5, processed = True, synced = False,
      e_analysis = Some \<lparr>purpose = JStr (js ''Work related''), category = js ''Work'',
                          summary = JStr (js ''Project deadline''), sentiment = js ''neutral'',
                          suggestedLabel = js ''Work''\<rparr>,
      e_updatedAt = 0\<rparr>"

definition workLabel :: label where
  "workLabel =
     \<lparr>l_userId = js ''u1'', name = js ''Work'', gmailLabelId = js ''Label_1'', emailCount = 0,
      isAuto = True, l_updatedAt = 0\<rparr>"

definition inboxWorld :: "unit world" where
  "inboxWorld = emptyWorld\<lparr>emails := [workEmail], labels := [workLabel]\<rparr>"

definition labelledWorld :: "unit world" where
  "labelledWorld = snd (batchAssignLabels (sampleEnv 0 timeout) (js ''batch_1'') plainOptions inboxWorld)"

text \<open>The result object of a run of \<open>batchAssignLabels\<close> that found nothing to label.\<close>

definition nothingToLabel :: fields where
  "nothingToLabel =
     [EmailsProcessed \<mapsto> num 0, EmailsTotal \<mapsto> num 0, Operation \<mapsto> JStr (js ''assignLabels'')]"

text \<open>One turn of the label loop for the label Work of user u1 on the empty state.\<close>

definition workCreated :: "nat \<times> nat \<times> unit world" where
  "workCreated = createLabelStep (sampleEnv 0 timeout) (js ''u1'') (0, 0, emptyWorld) (js ''Work'')"

text \<open>
  A second classified email, which suggests the label Banking, and a state with both emails
  and only the label Work in the store.
\<close>

definition bankEmail :: email where
  "bankEmail =
     \<lparr>gmailId = js ''m9'', e_userId = js ''u1'', threadId = JStr (js ''t9''),
      subject = js ''Your statement'', e_from = js ''a@b.c'', e_to = [], snippet = [],
      timestamp = 4, processed = True, synced = False,
      e_analysis = Some \<lparr>purpose = JStr (js ''Financial transaction''),
                          category = js ''Finance/Banking'',
                          summary = JStr (js ''Your statement''), sentiment = js ''neutral'',
                          suggestedLabel = js ''Banking''\<rparr>,
      e_updatedAt = 0\<rparr>"

definition twoLabelWorld :: "unit world" where
  "twoLabelWorld = emptyWorld\<lparr>emails := [workEmail, bankEmail], labels := [workLabel]\<rparr>"

text \<open>A job for createLabels created on that state.\<close>

definition labelJobWorld :: "unit world" where
  "labelJobWorld =
     snd (createBatch (sampleEnv 0 timeout) (js ''u1'') (js ''createLabels'') plainOptions twoLabelWorld)"

text \<open>
  A mailbox of three messages on one page: m2 with the subject Meeting, m3 with the subject
  Invoice, and m4, whose fetch fails. The classification API suggests the label Banking
  for the subject Invoice and the label Work for every other, and the provider refuses to
  label m2 and m3. A job for fullProcess created on the state with one classified email and
  the label Work, and the state after its run.
\<close>

definition labelAnswer :: "jsstring \<Rightarrow> js_error + jsobject" where
  "labelAnswer lab = Inr [(js ''category'', JStr (js ''Work'')), (js ''suggestedLabel'', JStr lab)]"

definition mailEnv :: "unit env" where
  "mailEnv =
     (sampleEnv 0 timeout)\<lparr>
        generateContent :=
          (\<lambda>key p x. (case p of
                          AnalyzePrompt subj sender snip \<Rightarrow>
                            if subj = js ''Invoice'' then labelAnswer (js ''Banking'')
                            else labelAnswer (js ''Work'')
                        | OrganizePrompt ls cs \<Rightarrow> timeout, x)),
        messages_list :=
          (\<lambda>c req x. (Inr \<lparr>messages = Some [js ''m2'', js ''m3'', js ''m4''],
                              nextPageToken = None\<rparr>, x)),
        messages_get :=
          (\<lambda>c mid x. (if mid = js ''m2'' then Inr (sampleMessage mid (js ''Meeting'') 7)
                         else if mid = js ''m3'' then Inr (sampleMessage mid (js ''Invoice'') 6)
                         else Inl (Error (js ''Not Found'')), x)),
        messages_modify :=
          (\<lambda>c mid ids x. (if mid = js ''m2'' \<or> mid = js ''m3''
                             then Inl (Error (js ''Forbidden'')) else Inr (), x))\<rparr>"

definition fullMailWorld :: "unit world" where
  "fullMailWorld = snd (createBatch mailEnv (js ''u1'') (js ''fullProcess'') plainOptions inboxWorld)"

definition fullMailRan :: "unit world" where
  "fullMailRan =
     worldAfter (executeBatch 1 mailEnv analyzerOn (js ''batch_1'') staleTokens fullMailWorld)
       fullMailWorld"

section \<open>String literals\<close>

text \<open>Distinct literals of the source are distinct strings: \<open>js\<close> is injective.\<close>

lemma unat_of_char: "unat (of_char c :: 16 word) = of_char c"
proof -
  have "(of_char c :: 16 word) = word_of_nat (of_char c)" by (simp add: of_nat_of_char)
  then have "unat (of_char c :: 16 word) = of_char c mod 2 ^ 16"
    by (simp add: unat_of_nat)
  moreover have "(of_char c :: nat) < 2 ^ 16"
    by (rule less_trans[OF nat_of_char_less_256]) simp
  ultimately show ?thesis by simp
qed

lemma of_char_16_inj: "(of_char x :: 16 word) = of_char y \<longleftrightarrow> x = y"
proof
  assume "(of_char x :: 16 word) = of_char y"
  then have "unat (of_char x :: 16 word) = unat (of_char y :: 16 word)" by simp
  then have "(of_char x :: nat) = of_char y" by (simp only: unat_of_char)
  then show "x = y" by simp
qed simp

lemma js_eq_iff: "js a = js b \<longleftrightarrow> a = b"
  unfolding js_def
  by (rule inj_map_eq_map) (simp add: inj_on_def of_char_16_inj)

lemma js_empty_iff: "js a = [] \<longleftrightarrow> a = []"
  by (simp add: js_def)

section \<open>The rate limiter\<close>

lemma checkRateLimit_healthy:
  "checkRateLimit Healthy now u op coll =
     (if inWindowCount (rateKey u op) now coll \<ge> 10 then (False, coll)
      else (True, coll @ [\<lparr>rl_key = rateKey u op, rl_timestamp = now, rl_expiresAt = now + 60000\<rparr>]))"
  by (simp add: checkRateLimit_def countDocuments_def insertOne_def inWindowCount_def Let_def)







section \<open>The classification engine\<close>

lemma set_trim: "set (trim s) \<subseteq> set s"
proof -
  have "set (dropWhile isWhiteSpace (rev (dropWhile isWhiteSpace s))) \<subseteq> set (rev (dropWhile isWhiteSpace s))"
    by (meson set_dropWhileD subsetI)
  also have "\<dots> \<subseteq> set s"
    using set_dropWhileD by fastforce
  finally show ?thesis by (simp add: trim_def)
qed

lemma labelChar_General: "\<forall>c \<in> set (js ''General''). labelChar c"
  by (simp add: js_def labelChar_def isAlnum_def)

lemma cleaned_chars: "\<forall>c \<in> set (substring0 30 (trim (removeSpecial s))). labelChar c"
proof
  fix c assume "c \<in> set (substring0 30 (trim (removeSpecial s)))"
  then have "c \<in> set (trim (removeSpecial s))"
    unfolding substring0_def by (rule in_set_takeD)
  then have "c \<in> set (removeSpecial s)" using set_trim by blast
  then show "labelChar c" by (simp add: removeSpecial_def)
qed

lemma validateAnalysis_valid:
  assumes "validateAnalysis a = Inr v"
  shows "category v \<in> set VALID_CATEGORIES \<and> sentiment v \<in> set SENTIMENTS \<and>
         (\<forall>c \<in> set (suggestedLabel v). labelChar c) \<and> length (suggestedLabel v) \<le> 30"
proof -
  obtain s where s: "js_or (getProp a (js ''suggestedLabel'')) (JStr (js ''General'')) = JStr s"
    using assms by (auto simp: validateAnalysis_def Let_def split: jsval.splits)
  let ?cleaned = "substring0 30 (trim (removeSpecial s))"
  have v: "category v = (if list_includes VALID_CATEGORIES (getProp a (js ''category''))
             then str_of (getProp a (js ''category'')) else js ''Other'')"
      "sentiment v = (if list_includes SENTIMENTS (getProp a (js ''sentiment''))
             then str_of (getProp a (js ''sentiment'')) else js ''neutral'')"
      "suggestedLabel v = (if ?cleaned = [] then js ''General'' else ?cleaned)"
    using assms s by (auto simp: validateAnalysis_def Let_def)
  have c: "category v \<in> set VALID_CATEGORIES"
    unfolding v by (auto simp: list_includes_def str_of_def VALID_CATEGORIES_def split: jsval.splits)
  have t: "sentiment v \<in> set SENTIMENTS"
    unfolding v by (auto simp: list_includes_def str_of_def SENTIMENTS_def split: jsval.splits)
  have l: "\<forall>c \<in> set (suggestedLabel v). labelChar c"
    unfolding v using cleaned_chars[of s] labelChar_General by simp
  have n: "length (suggestedLabel v) \<le> 30"
    unfolding v by (simp add: substring0_def js_def)
  show ?thesis using c t l n by blast
qed

lemma fallbackAnalysis_valid:
  "category (fallbackAnalysis lower subj sender snip) \<in> set VALID_CATEGORIES \<and>
   sentiment (fallbackAnalysis lower subj sender snip) \<in> set SENTIMENTS \<and>
   suggestedLabel (fallbackAnalysis lower subj sender snip) \<in>
     {js ''Investments'', js ''Banking'', js ''Work'', js ''Personal'', js ''Shopping'', js ''General''}"
  by (simp add: fallbackAnalysis_def Let_def VALID_CATEGORIES_def SENTIMENTS_def)

lemma fallback_label_chars:
  "(\<forall>c \<in> set (suggestedLabel (fallbackAnalysis lower subj sender snip)). labelChar c) \<and>
   length (suggestedLabel (fallbackAnalysis lower subj sender snip)) \<le> 30"
proof -
  have "\<forall>l \<in> {js ''Investments'', js ''Banking'', js ''Work'', js ''Personal'', js ''Shopping'',
                 js ''General''}. (\<forall>c \<in> set l. labelChar c) \<and> length l \<le> 30"
    by (simp add: js_def labelChar_def isAlnum_def)
  then show ?thesis using fallbackAnalysis_valid[of lower subj sender snip] by blast
qed

lemma analyzeEmail_cases:
  "fst (analyzeEmail env an subj sender snip userId w) = fallbackAnalysis (toLowerCase env) subj sender snip
   \<or> (\<exists>a. validateAnalysis a = Inr (fst (analyzeEmail env an subj sender snip userId w)))"
  by (auto simp: analyzeEmail_def analyzeEmail_try_def Let_def split_beta
           split: sum.splits prod.splits if_splits)

text \<open>What \<open>validateAnalysis\<close> makes of the answer, field by field.\<close>

lemma validateAnalysis_fields:
  assumes "validateAnalysis a = Inr v"
  shows "category v = (case getProp a (js ''category'') of
                         JStr c \<Rightarrow> if c \<in> set VALID_CATEGORIES then c else js ''Other''
                       | _ \<Rightarrow> js ''Other'')
       \<and> sentiment v = (case getProp a (js ''sentiment'') of
                          JStr t \<Rightarrow> if t \<in> set SENTIMENTS then t else js ''neutral''
                        | _ \<Rightarrow> js ''neutral'')
       \<and> (\<exists>s. js_or (getProp a (js ''suggestedLabel'')) (JStr (js ''General'')) = JStr s
              \<and> suggestedLabel v =
                  (if substring0 30 (trim (filter labelChar s)) = [] then js ''General''
                   else substring0 30 (trim (filter labelChar s))))"
proof -
  obtain s where s: "js_or (getProp a (js ''suggestedLabel'')) (JStr (js ''General'')) = JStr s"
    using assms by (auto simp: validateAnalysis_def Let_def split: jsval.splits)
  have c: "category v = (case getProp a (js ''category'') of
                         JStr c \<Rightarrow> if c \<in> set VALID_CATEGORIES then c else js ''Other''
                       | _ \<Rightarrow> js ''Other'')"
    using assms s
    by (auto simp: validateAnalysis_def Let_def list_includes_def str_of_def split: jsval.splits)
  have t: "sentiment v = (case getProp a (js ''sentiment'') of
                          JStr t \<Rightarrow> if t \<in> set SENTIMENTS then t else js ''neutral''
                        | _ \<Rightarrow> js ''neutral'')"
    using assms s
    by (auto simp: validateAnalysis_def Let_def list_includes_def str_of_def split: jsval.splits)
  have l: "suggestedLabel v =
             (if substring0 30 (trim (filter labelChar s)) = [] then js ''General''
              else substring0 30 (trim (filter labelChar s)))"
    using assms s by (auto simp: validateAnalysis_def Let_def removeSpecial_def)
  show ?thesis using c t s l by blast
qed

lemma analyzeEmail_api:
  assumes "fst (checkRateLimitW env userId (js ''gemini'') w)"
    and "fst (callGeminiAPI env an (AnalyzePrompt subj sender snip)
               (snd (checkRateLimitW env userId (js ''gemini'') w))) = Inr a"
    and "validateAnalysis a = Inr v"
  shows "fst (analyzeEmail env an subj sender snip userId w) = v"
  using assms by (simp add: analyzeEmail_def analyzeEmail_try_def Let_def split_beta)

lemma analyzeEmail_limited:
  assumes "\<not> fst (checkRateLimitW env userId (js ''gemini'') w)"
  shows "fst (analyzeEmail env an subj sender snip userId w) =
           fallbackAnalysis (toLowerCase env) subj sender snip"
  using assms by (simp add: analyzeEmail_def analyzeEmail_try_def Let_def split_beta)

text \<open>
  Claim C2, as the code has it. For every subject, sender, snippet and user, every
  environment and every state, \<open>analyzeEmail\<close> returns a classification: an exception
  in the body of its \<open>try\<close> block (a rejected API call, a \<open>TypeError\<close> in the
  validation) is answered with the result of the rule engine, and so is a reached rate
  limit. On both paths the category is one of \<open>VALID_CATEGORIES\<close>, the sentiment is one
  of positive, negative and neutral, and the suggested label is at most 30 code units long
  and holds only ASCII letters and digits, the slash, and the white space characters that
  the class \<open>\s\<close> matches (the space, and also TAB, line breaks and the Unicode spaces).
  When the API answers and the validation does not throw, the result is the validated
  answer: its category is the category of the answer when that is one of the fixed set
  and Other for every other value, its sentiment that of the answer when it is one of the
  three and neutral for every other value, and its label the label of the answer (General
  when there is none) without the excluded characters, trimmed, cut to 30, and General
  when nothing is left.
\<close>

theorem analyzeEmail_valid:
  "category (fst (analyzeEmail env an subj sender snip userId w)) \<in> set VALID_CATEGORIES \<and>
   sentiment (fst (analyzeEmail env an subj sender snip userId w)) \<in> set SENTIMENTS \<and>
   (\<forall>c \<in> set (suggestedLabel (fst (analyzeEmail env an subj sender snip userId w))). labelChar c) \<and>
   length (suggestedLabel (fst (analyzeEmail env an subj sender snip userId w))) \<le> 30 \<and>
   (\<forall>e. fst (analyzeEmail_try env an subj sender snip userId w) = Inl e \<longrightarrow>
        fst (analyzeEmail env an subj sender snip userId w) =
          fallbackAnalysis (toLowerCase env) subj sender snip) \<and>
   (\<not> fst (checkRateLimitW env userId (js ''gemini'') w) \<longrightarrow>
        fst (analyzeEmail env an subj sender snip userId w) =
          fallbackAnalysis (toLowerCase env) subj sender snip) \<and>
   (\<forall>a v. fst (checkRateLimitW env userId (js ''gemini'') w) \<and>
          fst (callGeminiAPI env an (AnalyzePrompt subj sender snip)
                (snd (checkRateLimitW env userId (js ''gemini'') w))) = Inr a \<and>
          validateAnalysis a = Inr v \<longrightarrow>
        fst (analyzeEmail env an subj sender snip userId w) = v) \<and>
   (\<forall>a v. validateAnalysis a = Inr v \<longrightarrow>
        category v = (case getProp a (js ''category'') of
                        JStr c \<Rightarrow> if c \<in> set VALID_CATEGORIES then c else js ''Other''
                      | _ \<Rightarrow> js ''Other'')
      \<and> sentiment v = (case getProp a (js ''sentiment'') of
                         JStr t \<Rightarrow> if t \<in> set SENTIMENTS then t else js ''neutral''
                       | _ \<Rightarrow> js ''neutral'')
      \<and> (\<exists>s. js_or (getProp a (js ''suggestedLabel'')) (JStr (js ''General'')) = JStr s
             \<and> suggestedLabel v =
                 (if substring0 30 (trim (filter labelChar s)) = [] then js ''General''
                  else substring0 30 (trim (filter labelChar s)))))"
proof -
  let ?r = "fst (analyzeEmail env an subj sender snip userId w)"
  have main: "category ?r \<in> set VALID_CATEGORIES \<and> sentiment ?r \<in> set SENTIMENTS \<and>
      (\<forall>c \<in> set (suggestedLabel ?r). labelChar c) \<and> length (suggestedLabel ?r) \<le> 30"
    using analyzeEmail_cases[of env an subj sender snip userId w]
  proof
    assume "?r = fallbackAnalysis (toLowerCase env) subj sender snip"
    then show ?thesis
      using fallbackAnalysis_valid[of "toLowerCase env" subj sender snip]
            fallback_label_chars[of "toLowerCase env" subj sender snip] by simp
  next
    assume "\<exists>a. validateAnalysis a = Inr ?r"
    then show ?thesis using validateAnalysis_valid by blast
  qed
  have catch: "\<forall>e. fst (analyzeEmail_try env an subj sender snip userId w) = Inl e \<longrightarrow>
        ?r = fallbackAnalysis (toLowerCase env) subj sender snip"
    by (auto simp: analyzeEmail_def split: prod.splits sum.splits)
  have limited: "\<not> fst (checkRateLimitW env userId (js ''gemini'') w) \<longrightarrow>
        ?r = fallbackAnalysis (toLowerCase env) subj sender snip"
    using analyzeEmail_limited by blast
  have api: "\<forall>a v. fst (checkRateLimitW env userId (js ''gemini'') w) \<and>
          fst (callGeminiAPI env an (AnalyzePrompt subj sender snip)
                (snd (checkRateLimitW env userId (js ''gemini'') w))) = Inr a \<and>
          validateAnalysis a = Inr v \<longrightarrow> ?r = v"
    using analyzeEmail_api by blast
  have fields: "\<forall>a v. validateAnalysis a = Inr v \<longrightarrow>
        category v = (case getProp a (js ''category'') of
                        JStr c \<Rightarrow> if c \<in> set VALID_CATEGORIES then c else js ''Other''
                      | _ \<Rightarrow> js ''Other'')
      \<and> sentiment v = (case getProp a (js ''sentiment'') of
                         JStr t \<Rightarrow> if t \<in> set SENTIMENTS then t else js ''neutral''
                       | _ \<Rightarrow> js ''neutral'')
      \<and> (\<exists>s. js_or (getProp a (js ''suggestedLabel'')) (JStr (js ''General'')) = JStr s
             \<and> suggestedLabel v =
                 (if substring0 30 (trim (filter labelChar s)) = [] then js ''General''
                  else substring0 30 (trim (filter labelChar s))))"
    using validateAnalysis_fields by blast
  show ?thesis using main catch limited api fields by blast
qed

lemma tab_run:
  "fst (analyzeEmail (sampleEnv 0 tabAnswer) analyzerOn (js ''Hi'') (js ''a@b.c'') [] (js ''u1'') emptyWorld) =
     \<lparr>purpose = JStr (js ''Unknown purpose''), category = js ''Work'',
      summary = JStr (js ''No summary available''), sentiment = js ''neutral'',
      suggestedLabel = [0x41, 0x09, 0x42]\<rparr>"
  by (simp add: analyzeEmail_def analyzeEmail_try_def checkRateLimitW_def checkRateLimit_def
        countDocuments_def insertOne_def callGeminiAPI_def sampleEnv_def emptyWorld_def dateNow_def
        tabAnswer_def validateAnalysis_def getProp_def js_or_def list_includes_def str_of_def
        VALID_CATEGORIES_def SENTIMENTS_def removeSpecial_def labelChar_def isAlnum_def
        isWhiteSpace_def trim_def substring0_def js_def Let_def analyzerOn_def)

text \<open>
  The claim as stated allows only alphanumerics, spaces and the slash. When the API
  answers with the suggested label A, TAB, B, the TAB is kept: the character class of
  \<open>validateAnalysis\<close> lets all of \<open>\s\<close> through and \<open>trim\<close> only strips the ends.
\<close>

theorem analyzeEmail_label_tab_counterexample:
  "suggestedLabel (fst (analyzeEmail (sampleEnv 0 tabAnswer) analyzerOn (js ''Hi'') (js ''a@b.c'') []
      (js ''u1'') emptyWorld)) = [0x41, 0x09, 0x42]
   \<and> \<not> isAlnum 0x09 \<and> (0x09 :: 16 word) \<noteq> 0x20 \<and> (0x09 :: 16 word) \<noteq> 0x2F"
  by (simp add: tab_run isAlnum_def)

lemma garbage_facts:
  "fst (checkRateLimitW (sampleEnv 0 garbageAnswer) (js ''u1'') (js ''gemini'') emptyWorld)"
  "fst (callGeminiAPI (sampleEnv 0 garbageAnswer) analyzerOn (AnalyzePrompt (js ''Hi'') (js ''a@b.c'') [])
         (snd (checkRateLimitW (sampleEnv 0 garbageAnswer) (js ''u1'') (js ''gemini'') emptyWorld))) =
     garbageAnswer"
  by (simp_all add: checkRateLimitW_def checkRateLimit_def countDocuments_def insertOne_def
        callGeminiAPI_def sampleEnv_def emptyWorld_def dateNow_def Let_def split_beta)

lemma garbage_validated:
  "validateAnalysis [(js ''category'', JStr (js ''Spam'')), (js ''sentiment'', JStr (js ''angry'')),
                     (js ''suggestedLabel'', JStr (js '' Bills & Co! ''))] =
     Inr \<lparr>purpose = JStr (js ''Unknown purpose''), category = js ''Other'',
          summary = JStr (js ''No summary available''), sentiment = js ''neutral'',
          suggestedLabel = js ''Bills  Co''\<rparr>"
  by (simp add: validateAnalysis_def getProp_def js_or_def list_includes_def str_of_def
        VALID_CATEGORIES_def SENTIMENTS_def removeSpecial_def labelChar_def isAlnum_def
        isWhiteSpace_def trim_def substring0_def js_def Let_def)

text \<open>
  A timed-out API call on the subject "Project deadline": the rule engine answers. An API
  answer with the category Spam, the sentiment angry and the label " Bills & Co! ": the
  result has the category Other, the sentiment neutral and the label "Bills  Co".
\<close>

theorem analyzeEmail_valid_witness:
  "category (fst (analyzeEmail (sampleEnv 0 timeout) analyzerOn (js ''Project deadline'') (js ''a@b.c'') []
      (js ''u1'') emptyWorld)) \<in> set VALID_CATEGORIES
   \<and> length (suggestedLabel (fst (analyzeEmail (sampleEnv 0 timeout) analyzerOn (js ''Project deadline'')
      (js ''a@b.c'') [] (js ''u1'') emptyWorld))) \<le> 30
   \<and> fst (analyzeEmail_try (sampleEnv 0 timeout) analyzerOn (js ''Project deadline'') (js ''a@b.c'') []
      (js ''u1'') emptyWorld) = Inl (Error (js ''Request timeout''))
   \<and> fst (analyzeEmail (sampleEnv 0 timeout) analyzerOn (js ''Project deadline'') (js ''a@b.c'') []
      (js ''u1'') emptyWorld) =
      fallbackAnalysis asciiLower (js ''Project deadline'') (js ''a@b.c'') []
   \<and> fst (analyzeEmail (sampleEnv 0 garbageAnswer) analyzerOn (js ''Hi'') (js ''a@b.c'') []
      (js ''u1'') emptyWorld) =
      \<lparr>purpose = JStr (js ''Unknown purpose''), category = js ''Other'',
       summary = JStr (js ''No summary available''), sentiment = js ''neutral'',
       suggestedLabel = js ''Bills  Co''\<rparr>
   \<and> js ''Spam'' \<notin> set VALID_CATEGORIES"
proof -
  have t: "fst (analyzeEmail_try (sampleEnv 0 timeout) analyzerOn (js ''Project deadline'') (js ''a@b.c'') []
      (js ''u1'') emptyWorld) = Inl (Error (js ''Request timeout''))"
    by (simp add: analyzeEmail_try_def checkRateLimitW_def checkRateLimit_def
        countDocuments_def insertOne_def callGeminiAPI_def sampleEnv_def emptyWorld_def dateNow_def
        timeout_def Let_def)
  have l: "toLowerCase (sampleEnv 0 timeout) = asciiLower" by (simp add: sampleEnv_def)
  note th = analyzeEmail_valid[of "sampleEnv 0 timeout" analyzerOn "js ''Project deadline''" "js ''a@b.c''" "[]"
        "js ''u1''" emptyWorld]
  have c1: "category (fst (analyzeEmail (sampleEnv 0 timeout) analyzerOn (js ''Project deadline'') (js ''a@b.c'') []
      (js ''u1'') emptyWorld)) \<in> set VALID_CATEGORIES"
    using th by blast
  have c2: "length (suggestedLabel (fst (analyzeEmail (sampleEnv 0 timeout) analyzerOn (js ''Project deadline'')
      (js ''a@b.c'') [] (js ''u1'') emptyWorld))) \<le> 30"
    using th by blast
  have "fst (analyzeEmail (sampleEnv 0 timeout) analyzerOn (js ''Project deadline'') (js ''a@b.c'') []
      (js ''u1'') emptyWorld) =
      fallbackAnalysis (toLowerCase (sampleEnv 0 timeout)) (js ''Project deadline'') (js ''a@b.c'') []"
    using th t by blast
  then have c4: "fst (analyzeEmail (sampleEnv 0 timeout) analyzerOn (js ''Project deadline'') (js ''a@b.c'') []
      (js ''u1'') emptyWorld) =
      fallbackAnalysis asciiLower (js ''Project deadline'') (js ''a@b.c'') []"
    by (simp only: l)
  let ?a = "[(js ''category'', JStr (js ''Spam'')), (js ''sentiment'', JStr (js ''angry'')),
             (js ''suggestedLabel'', JStr (js '' Bills & Co! ''))]"
  let ?v = "\<lparr>purpose = JStr (js ''Unknown purpose''), category = js ''Other'',
             summary = JStr (js ''No summary available''), sentiment = js ''neutral'',
             suggestedLabel = js ''Bills  Co''\<rparr>"
  note tg = analyzeEmail_valid[of "sampleEnv 0 garbageAnswer" analyzerOn "js ''Hi''" "js ''a@b.c''" "[]"
        "js ''u1''" emptyWorld]
  have g: "garbageAnswer = Inr ?a" by (simp add: garbageAnswer_def)
  have "fst (checkRateLimitW (sampleEnv 0 garbageAnswer) (js ''u1'') (js ''gemini'') emptyWorld) \<and>
        fst (callGeminiAPI (sampleEnv 0 garbageAnswer) analyzerOn (AnalyzePrompt (js ''Hi'') (js ''a@b.c'') [])
              (snd (checkRateLimitW (sampleEnv 0 garbageAnswer) (js ''u1'') (js ''gemini'') emptyWorld))) = Inr ?a \<and>
        validateAnalysis ?a = Inr ?v"
    using garbage_facts garbage_validated g by simp
  then have c5: "fst (analyzeEmail (sampleEnv 0 garbageAnswer) analyzerOn (js ''Hi'') (js ''a@b.c'') []
      (js ''u1'') emptyWorld) = ?v"
    using tg by blast
  have c6: "js ''Spam'' \<notin> set VALID_CATEGORIES"
    by (simp add: VALID_CATEGORIES_def js_eq_iff)
  show ?thesis using c1 c2 t c4 c5 c6 by blast
qed

lemma fallback_example:
  "fallbackAnalysis asciiLower (js ''Project deadline'') (js ''a@b.c'') [] =
     \<lparr>purpose = JStr (js ''Work related''), category = js ''Work'',
      summary = JStr (js ''Project deadline''), sentiment = js ''neutral'',
      suggestedLabel = js ''Work''\<rparr>"
  by (simp add: fallbackAnalysis_def asciiLower_def js_def Let_def financialKeywords_def
       investmentKeywords_def workKeywords_def personalKeywords_def shoppingKeywords_def
       positiveWords_def negativeWords_def substring0_def)

section \<open>The configuration flag\<close>

text \<open>
  Claim C6 asks that a switched-off \<open>USE_GEMINI\<close> sends classification straight to the
  rule engine, with no rate-limit entry and no API request. \<open>analyzeEmail\<close> never reads
  the flag: with the flag off, a reachable store and fewer than ten entries in the window,
  it records a rate-limit entry and issues the API request.
\<close>

theorem analyzeEmail_flag_unchecked:
  assumes "rateStore env (ext w) = Healthy"
    and "inWindowCount (rateKey userId (js ''gemini'')) (dateNow env w) (rateLimits w) < 10"
  shows "trace (snd (analyzeEmail env (an\<lparr>USE_GEMINI := False\<rparr>) subj sender snip userId w)) =
           trace w @ [GeminiCall (AnalyzePrompt subj sender snip)]
         \<and> rateLimits (snd (analyzeEmail env (an\<lparr>USE_GEMINI := False\<rparr>) subj sender snip userId w)) =
           rateLimits w @ [\<lparr>rl_key = rateKey userId (js ''gemini''), rl_timestamp = dateNow env w,
                            rl_expiresAt = dateNow env w + 60000\<rparr>]"
  using assms
  by (auto simp: analyzeEmail_def analyzeEmail_try_def checkRateLimitW_def checkRateLimit_healthy
        callGeminiAPI_def Let_def split_beta split: sum.splits prod.splits)

text \<open>With the flag off, on an empty state: one entry recorded, one request issued.\<close>

theorem analyzeEmail_flag_unchecked_witness:
  "USE_GEMINI analyzerOff = False
   \<and> trace (snd (analyzeEmail (sampleEnv 0 timeout) analyzerOff (js ''Hi'') (js ''a@b.c'') [] (js ''u1'') emptyWorld)) =
       [GeminiCall (AnalyzePrompt (js ''Hi'') (js ''a@b.c'') [])]
   \<and> rateLimits (snd (analyzeEmail (sampleEnv 0 timeout) analyzerOff (js ''Hi'') (js ''a@b.c'') [] (js ''u1'') emptyWorld)) =
       [\<lparr>rl_key = rateKey (js ''u1'') (js ''gemini''), rl_timestamp = 0, rl_expiresAt = 60000\<rparr>]"
proof -
  have h1: "rateStore (sampleEnv 0 timeout) (ext emptyWorld) = Healthy"
    by (simp add: sampleEnv_def)
  have h2: "inWindowCount (rateKey (js ''u1'') (js ''gemini'')) (dateNow (sampleEnv 0 timeout) emptyWorld)
              (rateLimits emptyWorld) < 10"
    by (simp add: inWindowCount_def emptyWorld_def)
  have off: "analyzerOff\<lparr>USE_GEMINI := False\<rparr> = analyzerOff"
    by (simp add: analyzerOff_def)
  have t: "dateNow (sampleEnv 0 timeout) emptyWorld = 0"
    by (simp add: dateNow_def sampleEnv_def)
  have e: "trace emptyWorld = []" "rateLimits emptyWorld = []"
    by (simp_all add: emptyWorld_def)
  show ?thesis
    using analyzeEmail_flag_unchecked[OF h1 h2, of analyzerOff "js ''Hi''" "js ''a@b.c''" "[]"]
    by (simp add: off t e analyzerOff_def)
qed

section \<open>The credential guard\<close>

text \<open>
  Claim C3. Let the first call of the operation, under the credentials of the session,
  end with \<open>r\<close>, and let a token refresh at that point end with \<open>rr\<close>. One call of
  \<open>withTokenRefresh\<close> refreshes at most once and calls the operation at most twice. If the
  first call returns, its value is returned with no refresh. If it throws an error that
  is not an authorization error (code 401 or "invalid_token" in the message), that error
  is thrown on with no refresh. If it throws an authorization error and the refresh fails,
  the answer is \<open>requiresReauth\<close> and the operation is not called again. If the refresh
  succeeds, the new tokens are written to the user document, the session and the client,
  in that order, the operation is called once more on that state, and its value is
  returned, or, when it throws again, the answer is \<open>requiresReauth\<close>.
\<close>

theorem withTokenRefresh_contract:
  assumes first: "operation (w\<lparr>oauth := \<lparr>access_token = s_accessToken usr,
                                          refresh_token = s_refreshToken usr\<rparr>\<rparr>) = (r, w1)"
    and refresh: "refreshAccessToken env (oauth w1) (ext w1) = (rr, x)"
  shows
   "length (filter (\<lambda>s. s = RefreshToken) (fst (snd (fst (withTokenRefresh env usr operation w))))) \<le> 1
    \<and> length (filter (\<lambda>s. s = CallOperation) (fst (snd (fst (withTokenRefresh env usr operation w))))) \<le> 2
    \<and> (\<forall>v. r = Inr v \<longrightarrow>
          withTokenRefresh env usr operation w =
            ((Returned v,
              [SetCredentials \<lparr>access_token = s_accessToken usr, refresh_token = s_refreshToken usr\<rparr>,
               CallOperation], usr), w1))
    \<and> (\<forall>e. r = Inl e \<and> \<not> isTokenError e \<longrightarrow>
          withTokenRefresh env usr operation w =
            ((Thrown e,
              [SetCredentials \<lparr>access_token = s_accessToken usr, refresh_token = s_refreshToken usr\<rparr>,
               CallOperation], usr), w1))
    \<and> (\<forall>e e'. r = Inl e \<and> isTokenError e \<and> rr = Inl e' \<longrightarrow>
          withTokenRefresh env usr operation w =
            ((RequiresReauth,
              [SetCredentials \<lparr>access_token = s_accessToken usr, refresh_token = s_refreshToken usr\<rparr>,
               CallOperation, RefreshToken], usr), w1\<lparr>ext := x\<rparr>))
    \<and> (\<forall>e c. r = Inl e \<and> isTokenError e \<and> rr = Inr c \<longrightarrow>
          (let newRefresh = js_or (new_refresh_token c) (s_refreshToken usr);
               c1 = \<lparr>access_token = new_access_token c, refresh_token = newRefresh\<rparr>;
               w3 = updateUserTokens env (profile_id usr) (new_access_token c) newRefresh
                      (expiry_date c) (w1\<lparr>ext := x\<rparr>);
               steps = [SetCredentials \<lparr>access_token = s_accessToken usr,
                                        refresh_token = s_refreshToken usr\<rparr>,
                        CallOperation, RefreshToken,
                        PersistTokens (profile_id usr) (new_access_token c) newRefresh,
                        UpdateSession (new_access_token c), SetCredentials c1, CallOperation]
           in withTokenRefresh env usr operation w =
                ((case fst (operation (w3\<lparr>oauth := c1\<rparr>)) of
                    Inr v \<Rightarrow> Returned v | Inl e2 \<Rightarrow> RequiresReauth,
                  steps, usr\<lparr>s_accessToken := new_access_token c\<rparr>),
                 snd (operation (w3\<lparr>oauth := c1\<rparr>)))))"
proof -
  have a: "length (filter (\<lambda>s. s = RefreshToken) (fst (snd (fst (withTokenRefresh env usr operation w))))) \<le> 1"
    using first refresh
    by (simp add: withTokenRefresh_def Let_def split_beta split: sum.splits)
  have b: "length (filter (\<lambda>s. s = CallOperation) (fst (snd (fst (withTokenRefresh env usr operation w))))) \<le> 2"
    using first refresh
    by (simp add: withTokenRefresh_def Let_def split_beta split: sum.splits)
  have c: "\<forall>v. r = Inr v \<longrightarrow>
          withTokenRefresh env usr operation w =
            ((Returned v,
              [SetCredentials \<lparr>access_token = s_accessToken usr, refresh_token = s_refreshToken usr\<rparr>,
               CallOperation], usr), w1)"
    using first by (simp add: withTokenRefresh_def Let_def)
  have d: "\<forall>e. r = Inl e \<and> \<not> isTokenError e \<longrightarrow>
          withTokenRefresh env usr operation w =
            ((Thrown e,
              [SetCredentials \<lparr>access_token = s_accessToken usr, refresh_token = s_refreshToken usr\<rparr>,
               CallOperation], usr), w1)"
    using first by (simp add: withTokenRefresh_def Let_def)
  have e: "\<forall>e e'. r = Inl e \<and> isTokenError e \<and> rr = Inl e' \<longrightarrow>
          withTokenRefresh env usr operation w =
            ((RequiresReauth,
              [SetCredentials \<lparr>access_token = s_accessToken usr, refresh_token = s_refreshToken usr\<rparr>,
               CallOperation, RefreshToken], usr), w1\<lparr>ext := x\<rparr>)"
    using first refresh by (simp add: withTokenRefresh_def Let_def)
  have f: "\<forall>e c. r = Inl e \<and> isTokenError e \<and> rr = Inr c \<longrightarrow>
          (let newRefresh = js_or (new_refresh_token c) (s_refreshToken usr);
               c1 = \<lparr>access_token = new_access_token c, refresh_token = newRefresh\<rparr>;
               w3 = updateUserTokens env (profile_id usr) (new_access_token c) newRefresh
                      (expiry_date c) (w1\<lparr>ext := x\<rparr>);
               steps = [SetCredentials \<lparr>access_token = s_accessToken usr,
                                        refresh_token = s_refreshToken usr\<rparr>,
                        CallOperation, RefreshToken,
                        PersistTokens (profile_id usr) (new_access_token c) newRefresh,
                        UpdateSession (new_access_token c), SetCredentials c1, CallOperation]
           in withTokenRefresh env usr operation w =
                ((case fst (operation (w3\<lparr>oauth := c1\<rparr>)) of
                    Inr v \<Rightarrow> Returned v | Inl e2 \<Rightarrow> RequiresReauth,
                  steps, usr\<lparr>s_accessToken := new_access_token c\<rparr>),
                 snd (operation (w3\<lparr>oauth := c1\<rparr>))))"
    using first refresh
    by (auto simp: withTokenRefresh_def Let_def split_beta split: sum.splits)
  show ?thesis using a b c d e f by blast
qed

text \<open>
  An operation refused with 401 under the stale token: with a provider that refreshes, it
  is retried once and returns, and the user document holds the fresh token; with a provider
  that refuses the refresh, the answer is \<open>requiresReauth\<close> after one call.
\<close>

theorem withTokenRefresh_contract_witness:
  "withTokenRefresh refreshingEnv sessionUser needsFresh oneUserWorld =
     ((Returned (),
       [SetCredentials \<lparr>access_token = JStr (js ''stale''), refresh_token = JStr (js ''r1'')\<rparr>,
        CallOperation, RefreshToken,
        PersistTokens (js ''u1'') (JStr (js ''fresh'')) (JStr (js ''r1'')),
        UpdateSession (JStr (js ''fresh'')),
        SetCredentials \<lparr>access_token = JStr (js ''fresh''), refresh_token = JStr (js ''r1'')\<rparr>,
        CallOperation],
       sessionUser\<lparr>s_accessToken := JStr (js ''fresh'')\<rparr>),
      oneUserWorld\<lparr>users := [\<lparr>u_userId = js ''u1'', u_accessToken = JStr (js ''fresh''),
                                u_refreshToken = JStr (js ''r1''), u_tokenExpiry = 3600000,
                                u_updatedAt = 0\<rparr>],
                    oauth := \<lparr>access_token = JStr (js ''fresh''), refresh_token = JStr (js ''r1'')\<rparr>\<rparr>)
   \<and> withTokenRefresh (sampleEnv 0 timeout) sessionUser needsFresh oneUserWorld =
     ((RequiresReauth,
       [SetCredentials \<lparr>access_token = JStr (js ''stale''), refresh_token = JStr (js ''r1'')\<rparr>,
        CallOperation, RefreshToken], sessionUser),
      oneUserWorld\<lparr>oauth := \<lparr>access_token = JStr (js ''stale''), refresh_token = JStr (js ''r1'')\<rparr>\<rparr>)"
proof -
  let ?stale = "\<lparr>access_token = JStr (js ''stale''), refresh_token = JStr (js ''r1'')\<rparr>"
  let ?e = "\<lparr>err_code = JNum 401, err_message = js ''Invalid Credentials''\<rparr>"
  let ?wa = "oneUserWorld\<lparr>oauth := ?stale\<rparr>"
  let ?cred = "\<lparr>new_access_token = JStr (js ''fresh''), new_refresh_token = JUndefined,
             expiry_date = 3600000\<rparr>"
  have su: "s_accessToken sessionUser = JStr (js ''stale'')" "s_refreshToken sessionUser = JStr (js ''r1'')"
      "profile_id sessionUser = js ''u1''"
    by (simp_all add: sessionUser_def)
  have first: "needsFresh (oneUserWorld\<lparr>oauth := \<lparr>access_token = s_accessToken sessionUser,
                 refresh_token = s_refreshToken sessionUser\<rparr>\<rparr>) = (Inl ?e, ?wa)"
    by (simp add: needsFresh_def su js_def)
  have tok: "isTokenError ?e" by (simp add: isTokenError_def)
  have r1: "refreshAccessToken refreshingEnv (oauth ?wa) (ext ?wa) = (Inr ?cred, ())"
    by (simp add: refreshingEnv_def)
  have r2: "refreshAccessToken (sampleEnv 0 timeout) (oauth ?wa) (ext ?wa) =
              (Inl (Error (js ''invalid_grant'')), ())"
    by (simp add: sampleEnv_def)
  have x: "?wa\<lparr>ext := ()\<rparr> = ?wa" by simp
  have "let newRefresh = js_or (new_refresh_token ?cred) (s_refreshToken sessionUser);
            c1 = \<lparr>access_token = new_access_token ?cred, refresh_token = newRefresh\<rparr>;
            w3 = updateUserTokens refreshingEnv (profile_id sessionUser) (new_access_token ?cred) newRefresh
                   (expiry_date ?cred) (?wa\<lparr>ext := ()\<rparr>);
            steps = [SetCredentials \<lparr>access_token = s_accessToken sessionUser,
                                     refresh_token = s_refreshToken sessionUser\<rparr>,
                     CallOperation, RefreshToken,
                     PersistTokens (profile_id sessionUser) (new_access_token ?cred) newRefresh,
                     UpdateSession (new_access_token ?cred), SetCredentials c1, CallOperation]
        in withTokenRefresh refreshingEnv sessionUser needsFresh oneUserWorld =
             ((case fst (needsFresh (w3\<lparr>oauth := c1\<rparr>)) of
                 Inr v \<Rightarrow> Returned v | Inl e2 \<Rightarrow> RequiresReauth,
               steps, sessionUser\<lparr>s_accessToken := new_access_token ?cred\<rparr>),
              snd (needsFresh (w3\<lparr>oauth := c1\<rparr>)))"
    using withTokenRefresh_contract[where operation=needsFresh and w=oneUserWorld and usr=sessionUser and env=refreshingEnv, OF first r1] tok by blast
  then have p1: "withTokenRefresh refreshingEnv sessionUser needsFresh oneUserWorld =
     ((Returned (),
       [SetCredentials ?stale, CallOperation, RefreshToken,
        PersistTokens (js ''u1'') (JStr (js ''fresh'')) (JStr (js ''r1'')),
        UpdateSession (JStr (js ''fresh'')),
        SetCredentials \<lparr>access_token = JStr (js ''fresh''), refresh_token = JStr (js ''r1'')\<rparr>,
        CallOperation],
       sessionUser\<lparr>s_accessToken := JStr (js ''fresh'')\<rparr>),
      oneUserWorld\<lparr>users := [\<lparr>u_userId = js ''u1'', u_accessToken = JStr (js ''fresh''),
                                u_refreshToken = JStr (js ''r1''), u_tokenExpiry = 3600000,
                                u_updatedAt = 0\<rparr>],
                    oauth := \<lparr>access_token = JStr (js ''fresh''), refresh_token = JStr (js ''r1'')\<rparr>\<rparr>)"
    by (simp add: Let_def su js_or_def needsFresh_def updateUserTokens_def oneUserWorld_def
          emptyWorld_def dateNow_def refreshingEnv_def sampleEnv_def)
  have "withTokenRefresh (sampleEnv 0 timeout) sessionUser needsFresh oneUserWorld =
            ((RequiresReauth,
              [SetCredentials \<lparr>access_token = s_accessToken sessionUser,
                               refresh_token = s_refreshToken sessionUser\<rparr>,
               CallOperation, RefreshToken], sessionUser), ?wa\<lparr>ext := ()\<rparr>)"
    using withTokenRefresh_contract[where operation=needsFresh and w=oneUserWorld and usr=sessionUser and env="sampleEnv 0 timeout", OF first r2] tok by blast
  then have p2: "withTokenRefresh (sampleEnv 0 timeout) sessionUser needsFresh oneUserWorld =
     ((RequiresReauth, [SetCredentials ?stale, CallOperation, RefreshToken], sessionUser), ?wa)"
    by (simp add: su)
  show ?thesis using p1 p2 by blast
qed

section \<open>Steps that leave the status of a job alone\<close>

subsection \<open>Collections\<close>

lemma map_updateOne:
  assumes "\<And>x. k (f x) = k x"
  shows "map k (updateOne P f xs) = map k xs"
  using assms by (induction xs) auto

lemma find_updateOne:
  assumes "\<And>x. P x \<Longrightarrow> P (f x)"
  shows "find P (updateOne P f xs) = map_option f (find P xs)"
  using assms by (induction xs) auto

lemma length_updateOne: "length (updateOne P f xs) = length xs"
  by (induction xs) auto

subsection \<open>Status writes\<close>

lemma statusWrites_append: "statusWrites bid (xs @ ys) = statusWrites bid xs @ statusWrites bid ys"
  by (simp add: statusWrites_def map_filter_def)

lemma statusWrites_single: "statusWrites bid [ev] = (case statusOf bid ev of None \<Rightarrow> [] | Some s \<Rightarrow> [s])"
  by (simp add: statusWrites_def map_filter_def split: option.splits)

lemma quietOn_refl: "quietOn bid w w"
  by (simp add: quietOn_def)

lemma quietOn_trans: "quietOn bid w w1 \<Longrightarrow> quietOn bid w1 w2 \<Longrightarrow> quietOn bid w w2"
  by (simp add: quietOn_def)

lemma quietOn_same: "trace w' = trace w \<Longrightarrow> batchLogs w' = batchLogs w \<Longrightarrow> quietOn bid w w'"
  by (simp add: quietOn_def)

lemma quietOn_call:
  "trace w' = trace w @ [ev] \<Longrightarrow> statusOf bid ev = None \<Longrightarrow> batchLogs w' = batchLogs w \<Longrightarrow> quietOn bid w w'"
  by (simp add: quietOn_def statusWrites_append statusWrites_single)

lemma quietOn_gmail_get: "quietOn bid w (snd (gmail_get env mid w))"
  by (rule quietOn_call[where ev="GmailGet mid"]) (simp_all add: gmail_get_def split_beta)

lemma quietOn_gmail_list: "quietOn bid w (snd (gmail_list env req w))"
  by (rule quietOn_call[where ev="GmailList req"]) (simp_all add: gmail_list_def split_beta)

lemma quietOn_gmail_createLabel: "quietOn bid w (snd (gmail_createLabel env nm w))"
  by (rule quietOn_call[where ev="GmailCreateLabel nm"]) (simp_all add: gmail_createLabel_def split_beta)

lemma quietOn_gmail_modify: "quietOn bid w (snd (gmail_modify env mid ids w))"
  by (rule quietOn_call[where ev="GmailModify mid ids"]) (simp_all add: gmail_modify_def split_beta)

lemma quietOn_callGeminiAPI: "quietOn bid w (snd (callGeminiAPI env an p w))"
  by (rule quietOn_call[where ev="GeminiCall p"]) (simp_all add: callGeminiAPI_def split_beta)

lemma quietOn_saveEmail: "quietOn bid w (saveEmail env e w)"
  by (rule quietOn_same) (simp_all add: saveEmail_def)

lemma quietOn_updateEmailAnalysis: "quietOn bid w (updateEmailAnalysis env gid a w)"
  by (rule quietOn_same) (simp_all add: updateEmailAnalysis_def)

lemma quietOn_saveLabel: "quietOn bid w (saveLabel env l w)"
  by (rule quietOn_same) (simp_all add: saveLabel_def)

lemma quietOn_markSynced: "quietOn bid w (markSynced env gid w)"
  by (rule quietOn_same) (simp_all add: markSynced_def)

lemma quietOn_checkRateLimitW: "quietOn bid w (snd (checkRateLimitW env u op w))"
  by (rule quietOn_same) (simp_all add: checkRateLimitW_def split_beta)

lemma quietOn_updateBatchLog:
  "u Status = None \<Longrightarrow> quietOn bid w (updateBatchLog env b u w)"
  by (simp add: quietOn_def updateBatchLog_def Let_def statusWrites_append statusWrites_single
        map_updateOne map_add_def)

lemma quietOn_analyzeEmail: "quietOn bid w (snd (analyzeEmail env an subj sender snip u w))"
proof -
  have "quietOn bid w (snd (analyzeEmail_try env an subj sender snip u w))"
    unfolding analyzeEmail_try_def Let_def split_beta
    using quietOn_checkRateLimitW quietOn_callGeminiAPI quietOn_trans
    by (auto split: sum.splits) blast+
  then show ?thesis
    by (auto simp: analyzeEmail_def split: prod.splits sum.splits)
qed

lemma quietOn_analyzeChunk: "quietOn bid w (snd (analyzeChunk env an u es n w))"
proof (induction es arbitrary: n w)
  case Nil
  then show ?case by (simp add: quietOn_refl)
next
  case (Cons e es)
  let ?w1 = "snd (analyzeEmail env an (subject e) (e_from e) (snippet e) u w)"
  let ?a = "fst (analyzeEmail env an (subject e) (e_from e) (snippet e) u w)"
  let ?w2 = "updateEmailAnalysis env (gmailId e) ?a ?w1"
  have "quietOn bid w ?w2"
    by (rule quietOn_trans[OF quietOn_analyzeEmail quietOn_updateEmailAnalysis])
  moreover have "quietOn bid ?w2 (snd (analyzeChunk env an u es (Suc n) ?w2))"
    by (rule Cons.IH)
  ultimately have "quietOn bid w (snd (analyzeChunk env an u es (Suc n) ?w2))"
    by (rule quietOn_trans)
  then show ?case by (simp add: split_beta Let_def)
qed

lemma quietOn_ext: "quietOn bid w (w\<lparr>ext := x\<rparr>)"
  by (rule quietOn_same) simp_all

lemma quietOn_analyzeChunks: "quietOn bid w (snd (analyzeChunks env an u es n w))"
proof (induction env an u es n w rule: analyzeChunks.induct)
  case (1 env an u es n w)
  show ?case
  proof (cases "es = []")
    case True
    then show ?thesis by (subst analyzeChunks.simps) (simp add: quietOn_refl)
  next
    case False
    let ?r = "analyzeChunk env an u (take 5 es) n w"
    let ?w2 = "if 5 < length es then (snd ?r)\<lparr>ext := setTimeout env 2000 (ext (snd ?r))\<rparr> else snd ?r"
    have a1: "quietOn bid w (snd ?r)" by (rule quietOn_analyzeChunk)
    have a2: "quietOn bid (snd ?r) ?w2" by (simp add: quietOn_ext quietOn_refl)
    have a: "quietOn bid w ?w2" by (rule quietOn_trans[OF a1 a2])
    have b: "quietOn bid ?w2 (snd (analyzeChunks env an u (drop 5 es) (fst ?r) ?w2))"
      by (rule "1.IH"[OF False, where x="?r"]) (simp_all add: prod_eq_iff)
    have "analyzeChunks env an u es n w = analyzeChunks env an u (drop 5 es) (fst ?r) ?w2"
      using False by (subst analyzeChunks.simps) (simp add: split_beta Let_def)
    then show ?thesis using quietOn_trans[OF a b] by simp
  qed
qed

lemma quietOn_batchAnalyzeEmails: "quietOn bid w (snd (batchAnalyzeEmails env an b opts w))"
  by (simp add: batchAnalyzeEmails_def analyzer_batchAnalyzeEmails_def Let_def split_beta
        quietOn_refl quietOn_analyzeChunks)

lemma quietOn_fetchMessages: "quietOn bid w (snd (fetchMessages env u ms n w))"
proof (induction ms arbitrary: n w)
  case Nil
  then show ?case by (simp add: quietOn_refl)
next
  case (Cons m ms)
  let ?w1 = "snd (gmail_get env m w)"
  have g: "quietOn bid w ?w1" by (rule quietOn_gmail_get)
  show ?case
  proof (cases "fst (gmail_get env m w)")
    case (Inl e)
    have "quietOn bid w (snd (fetchMessages env u ms n ?w1))"
      by (rule quietOn_trans[OF g Cons.IH])
    then show ?thesis using Inl by (simp add: split_beta)
  next
    case (Inr msg)
    let ?w2 = "saveEmail env (emailData env u msg ?w1) ?w1"
    have "quietOn bid w ?w2" by (rule quietOn_trans[OF g quietOn_saveEmail])
    then have "quietOn bid w (snd (fetchMessages env u ms (Suc n) ?w2))"
      by (rule quietOn_trans[OF _ Cons.IH])
    then show ?thesis using Inr by (simp add: split_beta)
  qed
qed

lemma quietOn_progress: "quietOn bid w (updateBatchLog env b [EmailsProcessed \<mapsto> v] w)"
  by (rule quietOn_updateBatchLog) simp

lemma quietOn_fetchPages:
  "fetchPages fuel env b opts bsize tok n w = Some (r, w') \<Longrightarrow> quietOn bid w w'"
proof (induction fuel arbitrary: tok n w)
  case 0
  then show ?case by simp
next
  case (Suc fuel)
  let ?req = "\<lparr>maxResults = min bsize 50, pageToken = tok, q = str_or (query opts) (js ''in:inbox'')\<rparr>"
  let ?w1 = "snd (gmail_list env ?req w)"
  have g: "quietOn bid w ?w1" by (rule quietOn_gmail_list)
  show ?case
  proof (cases "fst (gmail_list env ?req w)")
    case (Inl e)
    then have "w' = ?w1" using Suc.prems by (simp add: split_beta)
    then show ?thesis using g by simp
  next
    case (Inr response)
    let ?msgs = "case messages response of None \<Rightarrow> [] | Some ms \<Rightarrow> ms"
    let ?fm = "fetchMessages env (o_userId opts) ?msgs n ?w1"
    let ?w3 = "updateBatchLog env b [EmailsProcessed \<mapsto> num (fst ?fm)] (snd ?fm)"
    have q2: "quietOn bid w (snd ?fm)" by (rule quietOn_trans[OF g quietOn_fetchMessages])
    have q3: "quietOn bid w ?w3" by (rule quietOn_trans[OF q2 quietOn_progress])
    show ?thesis
    proof (cases "tokenTruthy (nextPageToken response) \<and> int (fst ?fm) < bsize")
      case True
      then have "fetchPages fuel env b opts bsize (nextPageToken response) (fst ?fm) ?w3 = Some (r, w')"
        using Suc.prems Inr by (simp add: split_beta Let_def)
      then have "quietOn bid ?w3 w'" by (rule Suc.IH)
      then show ?thesis by (rule quietOn_trans[OF q3])
    next
      case False
      then have "w' = ?w3" using Suc.prems Inr by (auto simp add: split_beta Let_def)
      then show ?thesis using q3 by simp
    qed
  qed
qed

lemma quietOn_batchFetchEmails:
  "batchFetchEmails fuel env b opts w = Some (r, w') \<Longrightarrow> quietOn bid w w'"
  by (auto simp: batchFetchEmails_def split: option.splits prod.splits sum.splits
           dest: quietOn_fetchPages)

lemma quietOn_createLabelStep:
  "quietOn bid w (snd (snd (createLabelStep env u (c, x, w) nm)))"
proof (cases "getLabelByName u nm (labels w)")
  case (Some l)
  then show ?thesis by (simp add: createLabelStep_def quietOn_refl)
next
  case None
  let ?w1 = "snd (gmail_createLabel env nm w)"
  have g: "quietOn bid w ?w1" by (rule quietOn_gmail_createLabel)
  show ?thesis
  proof (cases "fst (gmail_createLabel env nm w)")
    case (Inl e)
    then show ?thesis using None g by (simp add: createLabelStep_def split_beta)
  next
    case (Inr newId)
    then show ?thesis
      using None quietOn_trans[OF g quietOn_saveLabel] by (simp add: createLabelStep_def split_beta)
  qed
qed

lemma quietOn_createLabels_loop:
  "quietOn bid (snd (snd acc)) (snd (snd (foldl (createLabelStep env u) acc nms)))"
proof (induction nms arbitrary: acc)
  case Nil
  then show ?case by (simp add: quietOn_refl)
next
  case (Cons nm nms)
  obtain c x w where acc: "acc = (c, x, w)" by (cases acc)
  have a: "quietOn bid (snd (snd acc)) (snd (snd (createLabelStep env u acc nm)))"
    using quietOn_createLabelStep[of bid w env u c x nm] by (simp add: acc)
  show ?case using quietOn_trans[OF a Cons.IH] by simp
qed

lemma quietOn_batchCreateLabels: "quietOn bid w (snd (batchCreateLabels env b opts w))"
  using quietOn_createLabels_loop[of bid "(0, 0, w)" env "o_userId opts"]
  by (simp add: batchCreateLabels_def Let_def split_beta)

lemma quietOn_assignLabelStep:
  "quietOn bid w (snd (snd (assignLabelStep env u (c, x, w) e)))"
proof (cases "e_analysis e")
  case None
  then show ?thesis by (simp add: assignLabelStep_def quietOn_refl)
next
  case (Some a)
  show ?thesis
  proof (cases "suggestedLabel a = []")
    case True
    then show ?thesis using Some by (simp add: assignLabelStep_def quietOn_refl)
  next
    case False
    show ?thesis
    proof (cases "getLabelByName u (suggestedLabel a) (labels w)")
      case None
      then show ?thesis using Some False by (simp add: assignLabelStep_def quietOn_refl)
    next
      case (Some lab)
      let ?g = "gmail_modify env (gmailId e) [gmailLabelId lab] w"
      have g: "quietOn bid w (snd ?g)" by (rule quietOn_gmail_modify)
      show ?thesis
      proof (cases "fst ?g")
        case (Inl err)
        then show ?thesis
          using \<open>e_analysis e = Some a\<close> False Some g by (simp add: assignLabelStep_def split_beta)
      next
        case (Inr ok)
        then show ?thesis
          using \<open>e_analysis e = Some a\<close> False Some quietOn_trans[OF g quietOn_markSynced]
          by (simp add: assignLabelStep_def split_beta)
      qed
    qed
  qed
qed

lemma quietOn_assignLabels_loop:
  "quietOn bid (snd (snd acc)) (snd (snd (foldl (assignLabelStep env u) acc es)))"
proof (induction es arbitrary: acc)
  case Nil
  then show ?case by (simp add: quietOn_refl)
next
  case (Cons e es)
  obtain c x w where acc: "acc = (c, x, w)" by (cases acc)
  have a: "quietOn bid (snd (snd acc)) (snd (snd (assignLabelStep env u acc e)))"
    using quietOn_assignLabelStep[of bid w env u c x e] by (simp add: acc)
  show ?case using quietOn_trans[OF a Cons.IH] by simp
qed

lemma quietOn_batchAssignLabels: "quietOn bid w (snd (batchAssignLabels env b opts w))"
  using quietOn_assignLabels_loop[of bid "(0, 0, w)" env "o_userId opts"]
  by (simp add: batchAssignLabels_def Let_def split_beta quietOn_refl)

lemma quietOn_batchOrganizeLabels: "quietOn bid w (snd (batchOrganizeLabels env an b opts w))"
  using quietOn_callGeminiAPI[of bid w env an]
  by (simp add: batchOrganizeLabels_def suggestLabelOrganization_def Let_def split_beta
           split: sum.splits)

lemma quietOn_fullBatchProcess_steps:
  assumes "fullBatchProcess_steps fuel env an b opts w = Some (r, w')"
  shows "quietOn bid w w'"
proof -
  let ?u = "o_userId opts" and ?n = "num_or (batchSize opts) 100"
  let ?o1 = "\<lparr>o_userId = ?u, batchSize = Some ?n, limit = None, query = None\<rparr>"
  let ?o2 = "\<lparr>o_userId = ?u, batchSize = None, limit = Some ?n, query = None\<rparr>"
  let ?o3 = "\<lparr>o_userId = ?u, batchSize = None, limit = None, query = None\<rparr>"
  obtain r1 w1 where f: "batchFetchEmails fuel env b ?o1 w = Some (r1, w1)"
    using assms by (auto simp: fullBatchProcess_steps_def Let_def split: option.splits)
  have q1: "quietOn bid w w1" by (rule quietOn_batchFetchEmails[OF f])
  show ?thesis
  proof (cases r1)
    case (Inl e)
    then have "w' = w1" using assms f by (simp add: fullBatchProcess_steps_def Let_def)
    then show ?thesis using q1 by simp
  next
    case (Inr fetchResult)
    let ?a = "batchAnalyzeEmails env an b ?o2 w1"
    let ?c = "batchCreateLabels env b ?o3 (snd ?a)"
    let ?l = "batchAssignLabels env b ?o1 (snd ?c)"
    have q2: "quietOn bid w (snd ?a)" by (rule quietOn_trans[OF q1 quietOn_batchAnalyzeEmails])
    have q3: "quietOn bid w (snd ?c)" by (rule quietOn_trans[OF q2 quietOn_batchCreateLabels])
    have q4: "quietOn bid w (snd ?l)" by (rule quietOn_trans[OF q3 quietOn_batchAssignLabels])
    have "w' = snd ?a \<or> w' = snd ?c \<or> w' = snd ?l"
      using assms f Inr
      by (auto simp: fullBatchProcess_steps_def Let_def split: prod.splits sum.splits)
    then show ?thesis using q2 q3 q4 by auto
  qed
qed

lemma quietOn_fullBatchProcess:
  "fullBatchProcess fuel env an b opts w = Some (r, w') \<Longrightarrow> quietOn bid w w'"
  by (auto simp: fullBatchProcess_def split: option.splits prod.splits sum.splits
           dest: quietOn_fullBatchProcess_steps)

lemma quietOn_dispatch:
  assumes "dispatch fuel env an b operation opts w = Some (r, w')"
  shows "quietOn bid w w'"
proof -
  consider (fetch) "batchFetchEmails fuel env b opts w = Some (r, w')"
    | (analyze) "w' = snd (batchAnalyzeEmails env an b opts w)"
    | (create) "w' = snd (batchCreateLabels env b opts w)"
    | (assign) "w' = snd (batchAssignLabels env b opts w)"
    | (organize) "w' = snd (batchOrganizeLabels env an b opts w)"
    | (full) "fullBatchProcess fuel env an b opts w = Some (r, w')"
    | (unknown) "w' = w"
    using assms by (auto simp: dispatch_def split: if_splits)
  then show ?thesis
  proof cases
    case fetch
    then show ?thesis by (rule quietOn_batchFetchEmails)
  next
    case analyze
    then show ?thesis by (simp add: quietOn_batchAnalyzeEmails)
  next
    case create
    then show ?thesis by (simp add: quietOn_batchCreateLabels)
  next
    case assign
    then show ?thesis by (simp add: quietOn_batchAssignLabels)
  next
    case organize
    then show ?thesis by (simp add: quietOn_batchOrganizeLabels)
  next
    case full
    then show ?thesis by (rule quietOn_fullBatchProcess)
  next
    case unknown
    then show ?thesis by (simp add: quietOn_refl)
  qed
qed

subsection \<open>The keys of a result\<close>

lemma dom_batchFetchEmails:
  "batchFetchEmails fuel env b opts w = Some (Inr res, w') \<Longrightarrow> dom res \<subseteq> resultKeys"
  by (auto simp: batchFetchEmails_def resultKeys_def split: option.splits prod.splits sum.splits if_splits)

lemma dom_batchAnalyzeEmails:
  "batchAnalyzeEmails env an b opts w = (Inr res, w') \<Longrightarrow> dom res \<subseteq> resultKeys"
  by (auto simp: batchAnalyzeEmails_def resultKeys_def Let_def split_beta split: if_splits)

lemma dom_batchCreateLabels:
  "batchCreateLabels env b opts w = (Inr res, w') \<Longrightarrow> dom res \<subseteq> resultKeys"
  by (auto simp: batchCreateLabels_def resultKeys_def Let_def split_beta split: if_splits)

lemma dom_batchAssignLabels:
  "batchAssignLabels env b opts w = (Inr res, w') \<Longrightarrow> dom res \<subseteq> resultKeys"
  by (auto simp: batchAssignLabels_def resultKeys_def Let_def split_beta split: if_splits)

lemma dom_batchOrganizeLabels:
  "batchOrganizeLabels env an b opts w = (Inr res, w') \<Longrightarrow> dom res \<subseteq> resultKeys"
  by (auto simp: batchOrganizeLabels_def resultKeys_def Let_def split_beta split: if_splits)

lemma findBatchLog_None_iff: "findBatchLog bid w = None \<longleftrightarrow> bid \<notin> set (map batchId (batchLogs w))"
  by (auto simp: findBatchLog_def find_None_iff)

lemma quietOn_find:
  "quietOn bid w w' \<Longrightarrow> findBatchLog b w \<noteq> None \<Longrightarrow> findBatchLog b w' \<noteq> None"
  by (simp add: findBatchLog_None_iff quietOn_def)

lemma findBatchLog_oauth: "findBatchLog bid (w\<lparr>oauth := c\<rparr>) = findBatchLog bid w"
  by (simp add: findBatchLog_def)

lemma findBatchLog_updateBatchLog:
  "findBatchLog bid (updateBatchLog env bid u w) =
     map_option (\<lambda>d. d\<lparr>b_fields := b_fields d ++ (u ++ [UpdatedAt \<mapsto> JDate (dateNow env w)])\<rparr>)
       (findBatchLog bid w)"
  by (simp add: findBatchLog_def updateBatchLog_def Let_def find_updateOne)

lemma jobField_updateBatchLog:
  assumes "findBatchLog bid w \<noteq> None"
  shows "jobField bid k (updateBatchLog env bid u w) =
           (if k = UpdatedAt then Some (JDate (dateNow env w))
            else case u k of Some v \<Rightarrow> Some v | None \<Rightarrow> jobField bid k w)"
  using assms
  by (auto simp: jobField_def findBatchLog_updateBatchLog map_add_def split: option.splits)



lemma dom_fullBatchProcess:
  assumes "fullBatchProcess fuel env an b opts w = Some (Inr res, w')"
  shows "dom res \<subseteq> resultKeys"
proof -
  obtain rf ra rc rl where s: "fullBatchProcess_steps fuel env an b opts w = Some (Inr (rf, ra, rc, rl), w')"
    and res: "res = finalResult (rf, ra, rc, rl)"
    using assms by (auto simp: fullBatchProcess_def split: option.splits prod.splits sum.splits)
  let ?u = "o_userId opts" and ?n = "num_or (batchSize opts) 100"
  let ?o1 = "\<lparr>o_userId = ?u, batchSize = Some ?n, limit = None, query = None\<rparr>"
  let ?o2 = "\<lparr>o_userId = ?u, batchSize = None, limit = Some ?n, query = None\<rparr>"
  let ?o3 = "\<lparr>o_userId = ?u, batchSize = None, limit = None, query = None\<rparr>"
  obtain w1 w2 w3 where
    f: "batchFetchEmails fuel env b ?o1 w = Some (Inr rf, w1)" and
    a: "batchAnalyzeEmails env an b ?o2 w1 = (Inr ra, w2)" and
    c: "batchCreateLabels env b ?o3 w2 = (Inr rc, w3)" and
    l: "batchAssignLabels env b ?o1 w3 = (Inr rl, w')"
    using s by (auto simp: fullBatchProcess_steps_def Let_def split: option.splits prod.splits sum.splits)
  have "dom rf \<subseteq> resultKeys" "dom ra \<subseteq> resultKeys" "dom rc \<subseteq> resultKeys" "dom rl \<subseteq> resultKeys"
    using dom_batchFetchEmails[OF f] dom_batchAnalyzeEmails[OF a] dom_batchCreateLabels[OF c]
          dom_batchAssignLabels[OF l] by auto
  moreover have "Operation \<in> resultKeys" by (simp add: resultKeys_def)
  ultimately show ?thesis by (auto simp: res finalResult_def)
qed

lemma dom_dispatch:
  assumes "dispatch fuel env an b operation opts w = Some (Inr res, w')"
  shows "dom res \<subseteq> resultKeys"
proof -
  consider (fetch) "batchFetchEmails fuel env b opts w = Some (Inr res, w')"
    | (analyze) "batchAnalyzeEmails env an b opts w = (Inr res, w')"
    | (create) "batchCreateLabels env b opts w = (Inr res, w')"
    | (assign) "batchAssignLabels env b opts w = (Inr res, w')"
    | (organize) "batchOrganizeLabels env an b opts w = (Inr res, w')"
    | (full) "fullBatchProcess fuel env an b opts w = Some (Inr res, w')"
    using assms by (auto simp: dispatch_def split: if_splits)
  then show ?thesis
    using dom_batchFetchEmails dom_batchAnalyzeEmails dom_batchCreateLabels dom_batchAssignLabels
          dom_batchOrganizeLabels dom_fullBatchProcess
    by cases blast+
qed


lemma executeBatch_unfold:
  assumes job: "findBatchLog bid w = Some job"
  shows "executeBatch fuel env an bid toks w =
     (let w0 = w\<lparr>oauth := \<lparr>access_token = accessToken toks, refresh_token = refreshToken toks\<rparr>\<rparr>;
          w1 = updateBatchLog env bid
                 [Status \<mapsto> JStr (js ''running''), StartTime \<mapsto> JDate (dateNow env w0)] w0
      in case dispatch fuel env an bid (b_fields job Operation) (b_options job) w1 of
           None \<Rightarrow> None
         | Some (Inl error, w2) \<Rightarrow> Some (executeBatch_catch env bid error w2)
         | Some (Inr result, w2) \<Rightarrow>
             Some (Inr result,
                   updateBatchLog env bid
                     ([Status \<mapsto> JStr (js ''completed''), EndTime \<mapsto> JDate (dateNow env w2)]
                      ++ result) w2))"
  using job by (simp add: executeBatch_def findBatchLog_oauth Let_def)




















lemma createBatch_effect:
  "\<exists>d. trace (snd (createBatch env userId operation opts w)) = trace w @ [BatchLogInsert d]
     \<and> batchLogs (snd (createBatch env userId operation opts w)) = batchLogs w @ [d]
     \<and> batchId d = fst (createBatch env userId operation opts w)
     \<and> b_fields d Operation = Some (JStr operation)
     \<and> emails (snd (createBatch env userId operation opts w)) = emails w
     \<and> labels (snd (createBatch env userId operation opts w)) = labels w"
  by (simp add: createBatch_def createBatchLog_def generateBatchId_def Let_def split_beta map_add_def)

section \<open>The lifecycle of a job\<close>

lemma createdWorld_facts:
  "trace createdWorld = [BatchLogInsert (hd (batchLogs createdWorld))]"
  "map batchId (batchLogs createdWorld) = [js ''batch_1'']"
  "map (\<lambda>d. b_fields d Operation) (batchLogs createdWorld) = [Some (JStr (js ''createLabels''))]"
  "map (\<lambda>d. b_fields d Status) (batchLogs createdWorld) = [Some (JStr (js ''started''))]"
  "map b_options (batchLogs createdWorld) = [plainOptions]"
  "emails createdWorld = []" "labels createdWorld = []"
  by (simp_all add: createdWorld_def createBatch_def createBatchLog_def generateBatchId_def
        sampleEnv_def emptyWorld_def Let_def split_beta map_add_def)

lemma ranOnce_status:
  "statusWrites (js ''batch_1'') (trace ranOnce) =
     [JStr (js ''started''), JStr (js ''running''), JStr (js ''completed'')]"
  by (simp add: ranOnce_def worldAfter_def executeBatch_def executeBatch_catch_def dispatch_def
        batchCreateLabels_def getEmails_def uniqueLabels_def cursor_limit_def num_or_def
        updateBatchLog_def findBatchLog_def createdWorld_def createBatch_def createBatchLog_def
        generateBatchId_def sampleEnv_def emptyWorld_def plainOptions_def staleTokens_def
        statusWrites_def map_filter_def dateNow_def num_def
        Let_def split_beta map_add_def js_def)










text \<open>
  The status of a new job. \<open>createBatch\<close> builds the job with status created, and
  \<open>createBatchLog\<close> stores it with status started.
\<close>

lemma createBatch_status_started:
  "\<exists>d. batchLogs (snd (createBatch env userId operation opts w)) = batchLogs w @ [d]
     \<and> b_fields d Status = Some (JStr (js ''started''))"
  by (simp add: createBatch_def createBatchLog_def generateBatchId_def Let_def split_beta map_add_def)







section \<open>A run that fails\<close>

text \<open>
  Claim C8, as the code has it. When a run of \<open>executeBatch\<close> on a stored job throws,
  the error it throws is the one the operation threw, on the state in which the job had
  been set to running; and the state after the run is the state the operation left, with
  one update of the job: status failed, the end time, and the errors key set to the list
  of that one message, whatever the key held before. So every other key of the job, and
  the emails, labels and rate-limit entries, are as the operation left them.
\<close>

theorem executeBatch_failure:
  assumes job: "findBatchLog bid w = Some job"
    and run: "executeBatch fuel env an bid toks w = Some (Inl error, w')"
  shows "\<exists>w2.
           dispatch fuel env an bid (b_fields job Operation) (b_options job)
             (updateBatchLog env bid
                [Status \<mapsto> JStr (js ''running''),
                 StartTime \<mapsto> JDate (dateNow env
                    (w\<lparr>oauth := \<lparr>access_token = accessToken toks, refresh_token = refreshToken toks\<rparr>\<rparr>))]
                (w\<lparr>oauth := \<lparr>access_token = accessToken toks, refresh_token = refreshToken toks\<rparr>\<rparr>)) =
             Some (Inl error, w2)
         \<and> w' = updateBatchLog env bid
                  [Status \<mapsto> JStr (js ''failed''), EndTime \<mapsto> JDate (dateNow env w2),
                   Errors \<mapsto> JArr [JStr (err_message error)]] w2
         \<and> jobField bid Status w' = Some (JStr (js ''failed''))
         \<and> jobField bid EndTime w' = Some (JDate (dateNow env w2))
         \<and> jobField bid Errors w' = Some (JArr [JStr (err_message error)])
         \<and> (\<forall>k. k \<notin> {Status, EndTime, Errors, UpdatedAt} \<longrightarrow> jobField bid k w' = jobField bid k w2)
         \<and> emails w' = emails w2 \<and> labels w' = labels w2 \<and> rateLimits w' = rateLimits w2"
proof -
  let ?w0 = "w\<lparr>oauth := \<lparr>access_token = accessToken toks, refresh_token = refreshToken toks\<rparr>\<rparr>"
  let ?wr = "updateBatchLog env bid
               [Status \<mapsto> JStr (js ''running''), StartTime \<mapsto> JDate (dateNow env ?w0)] ?w0"
  have f1: "findBatchLog bid ?wr \<noteq> None"
    using job by (simp add: findBatchLog_updateBatchLog findBatchLog_oauth)
  obtain rr w2 where d: "dispatch fuel env an bid (b_fields job Operation) (b_options job) ?wr = Some (rr, w2)"
    using run unfolding executeBatch_unfold[OF job] Let_def by (auto split: option.splits)
  have f2: "findBatchLog bid w2 \<noteq> None"
    by (rule quietOn_find[OF quietOn_dispatch[OF d] f1])
  have rr: "rr = Inl error"
    and w': "w' = updateBatchLog env bid
          [Status \<mapsto> JStr (js ''failed''), EndTime \<mapsto> JDate (dateNow env w2),
           Errors \<mapsto> JArr [JStr (err_message error)]] w2"
    using run d unfolding executeBatch_unfold[OF job] Let_def
    by (cases rr; simp add: executeBatch_catch_def)+
  have fields: "jobField bid Status w' = Some (JStr (js ''failed''))"
      "jobField bid EndTime w' = Some (JDate (dateNow env w2))"
      "jobField bid Errors w' = Some (JArr [JStr (err_message error)])"
      "\<forall>k. k \<notin> {Status, EndTime, Errors, UpdatedAt} \<longrightarrow> jobField bid k w' = jobField bid k w2"
    unfolding w' using f2 by (simp_all add: jobField_updateBatchLog)
  have rest: "emails w' = emails w2" "labels w' = labels w2" "rateLimits w' = rateLimits w2"
    unfolding w' by (simp_all add: updateBatchLog_def Let_def)
  show ?thesis
    by (rule exI[of _ w2]) (use d[unfolded rr] w' fields rest in blast)
qed

lemmas flaky_defs =
  worldAfter_def executeBatch_def executeBatch_catch_def dispatch_def
  batchFetchEmails_def gmail_list_def str_or_def num_or_def
  updateBatchLog_def findBatchLog_def fetchJobWorld_def createBatch_def createBatchLog_def
  generateBatchId_def flakyEnv_def plainOptions_def staleTokens_def
  dateNow_def num_def jobField_def Error_def
  Let_def split_beta map_add_def js_def

lemma failedOnce_errors:
  "jobField (js ''batch_1'') Errors failedOnce = Some (JArr [JStr (js ''Rate Limit Exceeded'')])"
  by (simp add: failedOnce_def flaky_defs)

lemma failedTwice_errors:
  "jobField (js ''batch_1'') Errors failedTwice = Some (JArr [JStr (js ''Backend Error'')])"
  by (simp add: failedTwice_def failedOnce_def flaky_defs)

text \<open>
  The claim as stated has the message appended to the errors of the job. A job whose first
  run failed with "Rate Limit Exceeded" and whose second run failed with "Backend Error"
  holds only the second message: \<open>$set\<close> replaces the list.
\<close>

theorem executeBatch_errors_replaced_counterexample:
  "jobField (js ''batch_1'') Errors failedOnce = Some (JArr [JStr (js ''Rate Limit Exceeded'')])
   \<and> jobField (js ''batch_1'') Errors failedTwice = Some (JArr [JStr (js ''Backend Error'')])"
  using failedOnce_errors failedTwice_errors by blast

lemmas partial_defs =
  worldAfter_def executeBatch_def executeBatch_catch_def dispatch_def
  batchFetchEmails_def gmail_list_def gmail_get_def saveEmail_def emailData_def sampleMessage_def
  str_or_def num_or_def tokenTruthy_def
  updateBatchLog_def findBatchLog_def partialJobWorld_def createBatch_def createBatchLog_def
  generateBatchId_def partialEnv_def flakyEnv_def plainOptions_def staleTokens_def
  dateNow_def num_def jobField_def Error_def
  Let_def split_beta map_add_def js_eq_iff js_empty_iff

lemma partial_job:
  "\<exists>job. findBatchLog (js ''batch_1'') partialJobWorld = Some job
     \<and> b_fields job Operation = Some (JStr (js ''fetchEmails'')) \<and> b_options job = plainOptions"
  by (simp add: partial_defs)

lemma partial_run:
  "map_option fst (executeBatch 2 partialEnv analyzerOff (js ''batch_1'') staleTokens partialJobWorld) =
     Some (Inl (Error (js ''Backend Error'')))"
  by (simp add: partial_defs numeral_2_eq_2)

lemma partial_progress:
  "map_option (\<lambda>(r, w2). (jobField (js ''batch_1'') EmailsProcessed w2, map gmailId (emails w2)))
     (dispatch 2 partialEnv analyzerOff (js ''batch_1'') (Some (JStr (js ''fetchEmails''))) plainOptions
        (updateBatchLog partialEnv (js ''batch_1'')
           [Status \<mapsto> JStr (js ''running''),
            StartTime \<mapsto> JDate (dateNow partialEnv
               (partialJobWorld\<lparr>oauth := \<lparr>access_token = accessToken staleTokens,
                                          refresh_token = refreshToken staleTokens\<rparr>\<rparr>))]
           (partialJobWorld\<lparr>oauth := \<lparr>access_token = accessToken staleTokens,
                                      refresh_token = refreshToken staleTokens\<rparr>\<rparr>))) =
     Some (Some (num 1), [js ''m1''])"
  by (simp add: partial_defs numeral_2_eq_2)

text \<open>
  A run of the fetchEmails job that fails on the second page: the first page has stored
  the message m1 and written the progress count 1 to the job, and both are kept when the
  job is set to failed.
\<close>

theorem executeBatch_failure_witness:
  "findBatchLog (js ''batch_1'') partialJobWorld \<noteq> None
   \<and> executeBatch 2 partialEnv analyzerOff (js ''batch_1'') staleTokens partialJobWorld =
       Some (Inl (Error (js ''Backend Error'')), partlyFetched)
   \<and> jobField (js ''batch_1'') Status partlyFetched = Some (JStr (js ''failed''))
   \<and> jobField (js ''batch_1'') Errors partlyFetched = Some (JArr [JStr (js ''Backend Error'')])
   \<and> jobField (js ''batch_1'') EmailsProcessed partlyFetched = Some (num 1)
   \<and> map gmailId (emails partlyFetched) = [js ''m1'']"
proof -
  let ?bid = "js ''batch_1''" and ?e = "Error (js ''Backend Error'')"
  obtain job where job: "findBatchLog ?bid partialJobWorld = Some job"
    and op: "b_fields job Operation = Some (JStr (js ''fetchEmails''))"
    and opts: "b_options job = plainOptions"
    using partial_job by blast
  obtain w' where run: "executeBatch 2 partialEnv analyzerOff ?bid staleTokens partialJobWorld = Some (Inl ?e, w')"
    using partial_run by auto
  have w': "partlyFetched = w'" unfolding partlyFetched_def worldAfter_def run by simp
  have msg: "err_message ?e = js ''Backend Error''" by (simp add: Error_def)
  obtain w2 where
    d: "dispatch 2 partialEnv analyzerOff ?bid (b_fields job Operation) (b_options job)
             (updateBatchLog partialEnv ?bid
                [Status \<mapsto> JStr (js ''running''),
                 StartTime \<mapsto> JDate (dateNow partialEnv
                    (partialJobWorld\<lparr>oauth := \<lparr>access_token = accessToken staleTokens,
                                               refresh_token = refreshToken staleTokens\<rparr>\<rparr>))]
                (partialJobWorld\<lparr>oauth := \<lparr>access_token = accessToken staleTokens,
                                           refresh_token = refreshToken staleTokens\<rparr>\<rparr>)) =
             Some (Inl ?e, w2)"
    and st: "jobField ?bid Status w' = Some (JStr (js ''failed''))"
    and er: "jobField ?bid Errors w' = Some (JArr [JStr (err_message ?e)])"
    and keep: "\<forall>k. k \<notin> {Status, EndTime, Errors, UpdatedAt} \<longrightarrow> jobField ?bid k w' = jobField ?bid k w2"
    and em: "emails w' = emails w2"
    using executeBatch_failure[OF job run] by blast
  have "jobField ?bid EmailsProcessed w2 = Some (num 1) \<and> map gmailId (emails w2) = [js ''m1'']"
    using partial_progress d unfolding op opts by simp
  moreover have "jobField ?bid EmailsProcessed w' = jobField ?bid EmailsProcessed w2"
    using keep by simp
  ultimately have pr: "jobField ?bid EmailsProcessed w' = Some (num 1)"
    and ms: "map gmailId (emails w') = [js ''m1'']"
    using em by simp_all
  show ?thesis using job run st er pr ms unfolding w' msg by simp
qed

section \<open>The result of a full run\<close>

lemma finalResult_lastOf:
  "finalResult rs k = (if k = Operation then Some (JStr (js ''fullProcess'')) else lastOf rs k)"
  by (cases rs) (auto simp: finalResult_def lastOf_def map_add_def split: option.splits)

lemma assign_result_keys:
  assumes "batchAssignLabels env b opts w = (Inr rl, w')"
  shows "rl EmailsProcessed \<noteq> None \<and> rl EmailsTotal \<noteq> None \<and>
         rl Operation = Some (JStr (js ''assignLabels''))"
  using assms
  by (auto simp: batchAssignLabels_def Let_def split_beta split: if_splits)

lemma fullBatchProcess_steps_assign:
  assumes "fullBatchProcess_steps fuel env an b opts w = Some (Inr (rf, ra, rc, rl), w')"
  shows "\<exists>o1 w3. batchAssignLabels env b o1 w3 = (Inr rl, w')"
  using assms
  by (auto simp: fullBatchProcess_steps_def Let_def split: option.splits prod.splits sum.splits)

lemma dispatch_fullProcess:
  "dispatch fuel env an b (Some (JStr (js ''fullProcess''))) opts w = fullBatchProcess fuel env an b opts w"
  by (simp add: dispatch_def js_def)

text \<open>
  Claim C10, as the code has it. The result of a full run that returned is the spread of
  the four step results in order, followed by \<open>operation: 'fullProcess'\<close>; the steps
  run on the state in which the job had been set to running. So for every key but
  \<open>operation\<close> the result, and with it the completed job, holds the value of the last
  step that produced the key; the assignLabels step always produces emailsProcessed and
  emailsTotal, so these two are its values; and \<open>operation\<close> is 'fullProcess', not the
  'assignLabels' of the last step.
\<close>

theorem fullProcess_result:
  assumes job: "findBatchLog bid w = Some job"
    and op: "b_fields job Operation = Some (JStr (js ''fullProcess''))"
    and run: "executeBatch fuel env an bid toks w = Some (Inr res, w')"
  shows "\<exists>rf ra rc rl w2.
           fullBatchProcess_steps fuel env an bid (b_options job)
             (updateBatchLog env bid
                [Status \<mapsto> JStr (js ''running''),
                 StartTime \<mapsto> JDate (dateNow env
                    (w\<lparr>oauth := \<lparr>access_token = accessToken toks, refresh_token = refreshToken toks\<rparr>\<rparr>))]
                (w\<lparr>oauth := \<lparr>access_token = accessToken toks, refresh_token = refreshToken toks\<rparr>\<rparr>)) =
             Some (Inr (rf, ra, rc, rl), w2)
         \<and> res = rf ++ ra ++ rc ++ rl ++ [Operation \<mapsto> JStr (js ''fullProcess'')]
         \<and> (\<forall>k. k \<noteq> Operation \<longrightarrow> res k = lastOf (rf, ra, rc, rl) k)
         \<and> res Operation = Some (JStr (js ''fullProcess''))
         \<and> rl Operation = Some (JStr (js ''assignLabels''))
         \<and> rl EmailsProcessed \<noteq> None \<and> rl EmailsTotal \<noteq> None
         \<and> jobField bid EmailsProcessed w' = rl EmailsProcessed
         \<and> jobField bid EmailsTotal w' = rl EmailsTotal
         \<and> (\<forall>k \<in> dom res. jobField bid k w' = res k)"
proof -
  let ?w0 = "w\<lparr>oauth := \<lparr>access_token = accessToken toks, refresh_token = refreshToken toks\<rparr>\<rparr>"
  let ?wr = "updateBatchLog env bid
               [Status \<mapsto> JStr (js ''running''), StartTime \<mapsto> JDate (dateNow env ?w0)] ?w0"
  have f1: "findBatchLog bid ?wr \<noteq> None"
    using job by (simp add: findBatchLog_updateBatchLog findBatchLog_oauth)
  obtain rr w2 where d: "dispatch fuel env an bid (b_fields job Operation) (b_options job) ?wr = Some (rr, w2)"
    using run unfolding executeBatch_unfold[OF job] Let_def by (auto split: option.splits)
  have f2: "findBatchLog bid w2 \<noteq> None"
    by (rule quietOn_find[OF quietOn_dispatch[OF d] f1])
  have rr: "rr = Inr res"
    and w': "w' = updateBatchLog env bid
          ([Status \<mapsto> JStr (js ''completed''), EndTime \<mapsto> JDate (dateNow env w2)] ++ res) w2"
    using run d unfolding executeBatch_unfold[OF job] Let_def
    by (cases rr; simp add: executeBatch_catch_def)+
  have full: "fullBatchProcess fuel env an bid (b_options job) ?wr = Some (Inr res, w2)"
    using d rr by (simp add: op dispatch_fullProcess)
  then obtain rs where steps: "fullBatchProcess_steps fuel env an bid (b_options job) ?wr = Some (Inr rs, w2)"
    and res: "res = finalResult rs"
    by (auto simp: fullBatchProcess_def split: option.splits prod.splits sum.splits)
  obtain rf ra rc rl where rs: "rs = (rf, ra, rc, rl)" by (cases rs)
  have spread: "res = rf ++ ra ++ rc ++ rl ++ [Operation \<mapsto> JStr (js ''fullProcess'')]"
    by (simp add: res rs finalResult_def)
  have last: "\<forall>k. k \<noteq> Operation \<longrightarrow> res k = lastOf (rf, ra, rc, rl) k"
    by (simp add: res rs finalResult_lastOf)
  have opr: "res Operation = Some (JStr (js ''fullProcess''))"
    by (simp add: res finalResult_lastOf)
  have rl: "rl EmailsProcessed \<noteq> None \<and> rl EmailsTotal \<noteq> None \<and>
            rl Operation = Some (JStr (js ''assignLabels''))"
    using fullBatchProcess_steps_assign[OF steps[unfolded rs]] assign_result_keys by blast
  have keys: "dom res \<subseteq> resultKeys" by (rule dom_dispatch[OF d[unfolded rr]])
  have stored: "\<forall>k \<in> dom res. jobField bid k w' = res k"
  proof
    fix k assume k: "k \<in> dom res"
    then have "k \<noteq> UpdatedAt" using keys by (auto simp: resultKeys_def)
    moreover obtain v where "res k = Some v" using k by auto
    ultimately show "jobField bid k w' = res k"
      unfolding w' using f2 by (simp add: jobField_updateBatchLog map_add_def)
  qed
  have ep: "res EmailsProcessed = rl EmailsProcessed" "res EmailsTotal = rl EmailsTotal"
    using rl last by (auto simp: lastOf_def split: option.splits)
  have st: "jobField bid EmailsProcessed w' = rl EmailsProcessed"
       "jobField bid EmailsTotal w' = rl EmailsTotal"
    using stored ep rl by (metis domIff)+
  show ?thesis
    by (rule exI[of _ rf], rule exI[of _ ra], rule exI[of _ rc], rule exI[of _ rl],
        rule exI[of _ w2])
       (use steps[unfolded rs] spread last opr rl st stored in blast)
qed

lemmas full_defs =
  worldAfter_def executeBatch_def executeBatch_catch_def dispatch_def
  fullBatchProcess_def fullBatchProcess_steps_def finalResult_def stepValues_def
  batchFetchEmails_def gmail_list_def str_or_def num_or_def tokenTruthy_def
  batchAnalyzeEmails_def batchAssignLabels_def unsyncedEmails_def selectedEmails_def
  batchCreateLabels_def getEmails_def uniqueLabels_def cursor_limit_def
  updateBatchLog_def findBatchLog_def fullJobWorld_def createBatch_def createBatchLog_def
  generateBatchId_def sampleEnv_def emptyWorld_def plainOptions_def staleTokens_def
  map_filter_def dateNow_def num_def jobField_def
  Let_def split_beta map_add_def js_def

lemma fullRan_operation:
  "jobField (js ''batch_1'') Operation fullRan = Some (JStr (js ''fullProcess''))"
  by (simp add: fullRan_def full_defs)

lemma full_step_operations:
  "stepValues Operation
     (fullBatchProcess_steps 1 (sampleEnv 0 timeout) analyzerOff (js ''batch_1'') plainOptions fullJobWorld) =
     [Some (JStr (js ''fetchEmails'')), Some (JStr (js ''analyzeEmails'')),
      Some (JStr (js ''createLabels'')), Some (JStr (js ''assignLabels''))]"
  by (simp add: full_defs)

text \<open>
  The claim as stated counts \<open>operation\<close> among the keys that keep the value of the last
  step. On the sample run the four steps give fetchEmails, analyzeEmails, createLabels
  and assignLabels, and the completed job holds fullProcess.
\<close>

theorem fullProcess_operation_counterexample:
  "stepValues Operation
     (fullBatchProcess_steps 1 (sampleEnv 0 timeout) analyzerOff (js ''batch_1'') plainOptions fullJobWorld) =
     [Some (JStr (js ''fetchEmails'')), Some (JStr (js ''analyzeEmails'')),
      Some (JStr (js ''createLabels'')), Some (JStr (js ''assignLabels''))]
   \<and> jobField (js ''batch_1'') Operation fullRan = Some (JStr (js ''fullProcess''))
   \<and> JStr (js ''fullProcess'') \<noteq> JStr (js ''assignLabels'')"
  using full_step_operations fullRan_operation by (simp add: js_def)

text \<open>
  What the four steps report on the sample mailbox: fetchEmails stores two of the three
  messages, analyzeEmails classifies these two, createLabels finds the label Work and
  creates the label Banking, and assignLabels labels one of the three classified emails
  and fails on two.
\<close>

lemma mail_values:
  "map (\<lambda>k. stepValues k
     (fullBatchProcess_steps 1 mailEnv analyzerOn (js ''batch_1'') plainOptions
        (updateBatchLog mailEnv (js ''batch_1'')
           [Status \<mapsto> JStr (js ''running''),
            StartTime \<mapsto> JDate (dateNow mailEnv
               (fullMailWorld\<lparr>oauth := \<lparr>access_token = accessToken staleTokens,
                                        refresh_token = refreshToken staleTokens\<rparr>\<rparr>))]
           (fullMailWorld\<lparr>oauth := \<lparr>access_token = accessToken staleTokens,
                                    refresh_token = refreshToken staleTokens\<rparr>\<rparr>))))
     [EmailsProcessed, EmailsTotal, Errors, LabelsCreated, LabelsUsed, Operation] =
   [[Some (num 2), Some (num 2), None, Some (num 1)],
    [Some (num 2), Some (num 2), None, Some (num 3)],
    [None, Some (JArr []), None, Some (JArr [JStr (js ''2 emails failed labeling'')])],
    [None, None, Some (num 1), None],
    [None, None, Some (num 2), None],
    [Some (JStr (js ''fetchEmails'')), Some (JStr (js ''analyzeEmails'')),
     Some (JStr (js ''createLabels'')), Some (JStr (js ''assignLabels''))]]"
  by code_simp

lemma mail_job:
  "\<exists>job. findBatchLog (js ''batch_1'') fullMailWorld = Some job
     \<and> b_fields job Operation = Some (JStr (js ''fullProcess'')) \<and> b_options job = plainOptions"
  by (simp add: fullMailWorld_def createBatch_def createBatchLog_def generateBatchId_def
        findBatchLog_def mailEnv_def sampleEnv_def inboxWorld_def emptyWorld_def Let_def split_beta)

lemma mail_run:
  "map_option (isl \<circ> fst)
     (executeBatch 1 mailEnv analyzerOn (js ''batch_1'') staleTokens fullMailWorld) = Some False"
  by code_simp

text \<open>
  The full run on the sample mailbox. The steps report emailsProcessed 2, 2 and 1 and
  emailsTotal 2, 2 and 3; the completed job holds 1 and 3, the values of assignLabels, the
  errors of assignLabels in place of the empty list of analyzeEmails, and the labelsCreated
  of createLabels, the only step that reports it.
\<close>

theorem fullProcess_result_witness:
  "findBatchLog (js ''batch_1'') fullMailWorld \<noteq> None
   \<and> executeBatch 1 mailEnv analyzerOn (js ''batch_1'') staleTokens fullMailWorld \<noteq> None
   \<and> jobField (js ''batch_1'') EmailsProcessed fullMailRan = Some (num 1)
   \<and> jobField (js ''batch_1'') EmailsTotal fullMailRan = Some (num 3)
   \<and> jobField (js ''batch_1'') Errors fullMailRan = Some (JArr [JStr (js ''2 emails failed labeling'')])
   \<and> jobField (js ''batch_1'') LabelsCreated fullMailRan = Some (num 1)
   \<and> jobField (js ''batch_1'') LabelsUsed fullMailRan = Some (num 2)
   \<and> jobField (js ''batch_1'') Operation fullMailRan = Some (JStr (js ''fullProcess''))"
proof -
  let ?bid = "js ''batch_1''"
  obtain job where job: "findBatchLog ?bid fullMailWorld = Some job"
    and op: "b_fields job Operation = Some (JStr (js ''fullProcess''))"
    and opts: "b_options job = plainOptions"
    using mail_job by blast
  obtain r w' where r: "executeBatch 1 mailEnv analyzerOn ?bid staleTokens fullMailWorld = Some (r, w')"
    and nl: "\<not> isl r"
    using mail_run by auto
  obtain res where "r = Inr res" using nl by (cases r) auto
  then have run: "executeBatch 1 mailEnv analyzerOn ?bid staleTokens fullMailWorld = Some (Inr res, w')"
    using r by simp
  have w': "fullMailRan = w'" unfolding fullMailRan_def worldAfter_def run by simp
  have "jobField ?bid EmailsProcessed w' = Some (num 1)
      \<and> jobField ?bid EmailsTotal w' = Some (num 3)
      \<and> jobField ?bid Errors w' = Some (JArr [JStr (js ''2 emails failed labeling'')])
      \<and> jobField ?bid LabelsCreated w' = Some (num 1)
      \<and> jobField ?bid LabelsUsed w' = Some (num 2)
      \<and> jobField ?bid Operation w' = Some (JStr (js ''fullProcess''))"
    using fullProcess_result[OF job op run]
  proof (elim exE conjE)
    fix rf ra rc rl :: fields and w2 :: "unit world"
    assume steps: "fullBatchProcess_steps 1 mailEnv analyzerOn ?bid (b_options job)
             (updateBatchLog mailEnv ?bid
                [Status \<mapsto> JStr (js ''running''),
                 StartTime \<mapsto> JDate (dateNow mailEnv
                    (fullMailWorld\<lparr>oauth := \<lparr>access_token = accessToken staleTokens,
                                             refresh_token = refreshToken staleTokens\<rparr>\<rparr>))]
                (fullMailWorld\<lparr>oauth := \<lparr>access_token = accessToken staleTokens,
                                         refresh_token = refreshToken staleTokens\<rparr>\<rparr>)) =
             Some (Inr (rf, ra, rc, rl), w2)"
      and last: "\<forall>k. k \<noteq> Operation \<longrightarrow> res k = lastOf (rf, ra, rc, rl) k"
      and a: "res Operation = Some (JStr (js ''fullProcess''))"
      and d: "\<forall>k \<in> dom res. jobField ?bid k w' = res k"
    have vals: "[rf EmailsProcessed, ra EmailsProcessed, rc EmailsProcessed, rl EmailsProcessed] =
                  [Some (num 2), Some (num 2), None, Some (num 1)]"
        "[rf EmailsTotal, ra EmailsTotal, rc EmailsTotal, rl EmailsTotal] =
                  [Some (num 2), Some (num 2), None, Some (num 3)]"
        "[rf Errors, ra Errors, rc Errors, rl Errors] =
                  [None, Some (JArr []), None, Some (JArr [JStr (js ''2 emails failed labeling'')])]"
        "[rf LabelsCreated, ra LabelsCreated, rc LabelsCreated, rl LabelsCreated] =
                  [None, None, Some (num 1), None]"
        "[rf LabelsUsed, ra LabelsUsed, rc LabelsUsed, rl LabelsUsed] =
                  [None, None, Some (num 2), None]"
      using mail_values unfolding steps[unfolded opts] by (simp_all add: stepValues_def)
    have r1: "res EmailsProcessed = Some (num 1)" "res EmailsTotal = Some (num 3)"
        "res Errors = Some (JArr [JStr (js ''2 emails failed labeling'')])"
        "res LabelsCreated = Some (num 1)" "res LabelsUsed = Some (num 2)"
      using last vals by (simp_all add: lastOf_def)
    have "\<And>k v. res k = Some v \<Longrightarrow> jobField ?bid k w' = Some v"
      using d by (metis domI)
    then show ?thesis using r1 a by blast
  qed
  then show ?thesis using job run w' by simp
qed

section \<open>Assigning labels twice\<close>

lemma sameSelection_refl: "sameSelection a a"
  by (simp add: sameSelection_def)

lemma sameSelection_trans: "sameSelection a b \<Longrightarrow> sameSelection b c \<Longrightarrow> sameSelection a c"
  by (simp add: sameSelection_def)

lemma list_all2_sameSelection_refl: "list_all2 sameSelection xs xs"
  by (simp add: list_all2_refl sameSelection_refl)

lemma list_all2_sameSelection_trans:
  "list_all2 sameSelection xs ys \<Longrightarrow> list_all2 sameSelection ys zs \<Longrightarrow> list_all2 sameSelection xs zs"
  using list_all2_trans[of sameSelection sameSelection sameSelection xs ys zs] sameSelection_trans
  by blast

lemma list_all2_updateOne:
  assumes "\<And>x. sameSelection x (f x)"
  shows "list_all2 sameSelection xs (updateOne P f xs)"
  using assms by (induction xs) (auto simp: list_all2_sameSelection_refl sameSelection_refl)

lemma list_all2_filter_same:
  assumes "list_all2 R xs ys" and "\<And>a b. R a b \<Longrightarrow> P a = P b"
  shows "list_all2 R (filter P xs) (filter P ys)"
  using assms by (induction rule: list_all2_induct) auto

lemma list_all2_insort_key:
  assumes "list_all2 R xs ys" and "R x y" and "\<And>a b. R a b \<Longrightarrow> f a = f b"
  shows "list_all2 R (insort_key f x xs) (insort_key f y ys)"
  using assms
proof (induction rule: list_all2_induct)
  case Nil
  then show ?case by simp
next
  case (Cons a xs b ys)
  have "f a = f b" "f x = f y" using Cons by auto
  then show ?case using Cons by auto
qed

lemma list_all2_sort_key:
  assumes "list_all2 R xs ys" and "\<And>a b. R a b \<Longrightarrow> f a = f b"
  shows "list_all2 R (sort_key f xs) (sort_key f ys)"
  using assms
proof (induction rule: list_all2_induct)
  case Nil
  then show ?case by simp
next
  case (Cons a xs b ys)
  then show ?case by (simp add: list_all2_insort_key)
qed

lemma list_all2_getEmails:
  assumes "list_all2 sameSelection xs ys"
  shows "list_all2 sameSelection (getEmails u p l xs) (getEmails u p l ys)"
proof -
  let ?P = "\<lambda>d. e_userId d = u \<and> (case p of None \<Rightarrow> True | Some pv \<Rightarrow> processed d = pv)"
  have f: "list_all2 sameSelection (filter ?P xs) (filter ?P ys)"
    by (rule list_all2_filter_same[OF assms]) (auto simp: sameSelection_def split: option.splits)
  have s: "list_all2 sameSelection (sort_key (\<lambda>d. - timestamp d) (filter ?P xs))
             (sort_key (\<lambda>d. - timestamp d) (filter ?P ys))"
    by (rule list_all2_sort_key[OF f]) (simp add: sameSelection_def)
  show ?thesis
    unfolding getEmails_def cursor_limit_def using s by (simp add: list_all2_takeI)
qed

lemma emails_gmail_modify: "emails (snd (gmail_modify env mid ids w)) = emails w"
  by (simp add: gmail_modify_def split_beta)

lemma emails_assignLabelStep:
  "list_all2 sameSelection (emails w) (emails (snd (snd (assignLabelStep env u (c, x, w) e))))"
proof -
  have m: "\<And>w' gid. list_all2 sameSelection (emails w') (emails (markSynced env gid w'))"
    by (simp add: markSynced_def list_all2_updateOne sameSelection_def)
  show ?thesis
    using m[of "snd (gmail_modify env (gmailId e) ids w)" for ids]
    by (auto simp: assignLabelStep_def split_beta Let_def list_all2_sameSelection_refl
          emails_gmail_modify split: option.splits sum.splits)
qed

lemma emails_assignLabels_loop:
  "list_all2 sameSelection (emails (snd (snd acc)))
     (emails (snd (snd (foldl (assignLabelStep env u) acc es))))"
proof (induction es arbitrary: acc)
  case Nil
  then show ?case by (simp add: list_all2_sameSelection_refl)
next
  case (Cons e es)
  obtain c x w where acc: "acc = (c, x, w)" by (cases acc)
  have a: "list_all2 sameSelection (emails (snd (snd acc)))
             (emails (snd (snd (assignLabelStep env u acc e))))"
    using emails_assignLabelStep[of w env u c x e] by (simp add: acc)
  show ?case using list_all2_sameSelection_trans[OF a Cons.IH] by simp
qed

lemma emails_batchAssignLabels:
  "list_all2 sameSelection (emails w) (emails (snd (batchAssignLabels env bid opts w)))"
  using emails_assignLabels_loop[of "(0, 0, w)" env "o_userId opts"]
  by (simp add: batchAssignLabels_def Let_def split_beta list_all2_sameSelection_refl)

lemma selection_stable:
  "map gmailId (selectedEmails opts (snd (batchAssignLabels env bid opts w))) =
   map gmailId (selectedEmails opts w)"
proof -
  have "list_all2 sameSelection (selectedEmails opts w)
          (selectedEmails opts (snd (batchAssignLabels env bid opts w)))"
    unfolding selectedEmails_def by (rule list_all2_getEmails[OF emails_batchAssignLabels])
  then have "list_all2 (\<lambda>a b. gmailId b = gmailId a) (selectedEmails opts w)
          (selectedEmails opts (snd (batchAssignLabels env bid opts w)))"
    by (rule list_all2_mono) (simp add: sameSelection_def)
  then show ?thesis
    by (induction rule: list_all2_induct) auto
qed

lemma assignLabels_nothing:
  assumes "\<forall>e \<in> set (selectedEmails opts w). synced e"
  shows "unsyncedEmails opts w = [] \<and> batchAssignLabels env bid opts w = (Inr nothingToLabel, w)"
proof -
  have "unsyncedEmails opts w = []"
    using assms by (simp add: unsyncedEmails_def filter_empty_conv)
  then show ?thesis by (simp add: batchAssignLabels_def nothingToLabel_def Let_def)
qed

text \<open>
  Claim C9. Let a run of \<open>batchAssignLabels\<close> end in a state where every email it
  selects (processed, newest first, within the limit) is synced. The emails selected in
  that state are those of the first run, one by one; none of them is unsynced; and a
  second run, under any environment, returns emailsProcessed 0 and emailsTotal 0 and
  leaves the state as it is: no call to the provider, no email changed.
\<close>

theorem assignLabels_second_run:
  assumes first: "batchAssignLabels env bid opts w0 = (r1, w1)"
    and marked: "\<forall>e \<in> set (selectedEmails opts w1). synced e"
  shows "map gmailId (selectedEmails opts w1) = map gmailId (selectedEmails opts w0)
         \<and> unsyncedEmails opts w1 = []
         \<and> batchAssignLabels env' bid' opts w1 = (Inr nothingToLabel, w1)
         \<and> nothingToLabel EmailsProcessed = Some (num 0)
         \<and> filter isRemoteCall (trace (snd (batchAssignLabels env' bid' opts w1))) =
             filter isRemoteCall (trace w1)
         \<and> emails (snd (batchAssignLabels env' bid' opts w1)) = emails w1"
proof -
  have s: "map gmailId (selectedEmails opts w1) = map gmailId (selectedEmails opts w0)"
    using selection_stable[of opts env bid w0] first by simp
  have n: "unsyncedEmails opts w1 = [] \<and> batchAssignLabels env' bid' opts w1 = (Inr nothingToLabel, w1)"
    by (rule assignLabels_nothing[OF marked])
  have z: "nothingToLabel EmailsProcessed = Some (num 0)"
    by (simp add: nothingToLabel_def)
  show ?thesis using s n z by simp
qed

lemmas assign_defs =
  batchAssignLabels_def unsyncedEmails_def selectedEmails_def getEmails_def cursor_limit_def
  num_or_def assignLabelStep_def getLabelByName_def gmail_modify_def markSynced_def
  inboxWorld_def workEmail_def workLabel_def emptyWorld_def sampleEnv_def plainOptions_def
  dateNow_def Let_def split_beta js_def

lemma labelledWorld_emails:
  "emails labelledWorld = [workEmail\<lparr>synced := True\<rparr>]"
  by (simp add: labelledWorld_def assign_defs)

lemma labelledWorld_trace:
  "trace labelledWorld = [GmailModify (js ''m1'') [js ''Label_1'']]"
  by (simp add: labelledWorld_def assign_defs)

text \<open>
  One classified email with its label in the store: the first run applies the label and
  marks the email synced, the second run does nothing.
\<close>

theorem assignLabels_second_run_witness:
  "trace labelledWorld = [GmailModify (js ''m1'') [js ''Label_1'']]
   \<and> map synced (emails labelledWorld) = [True]
   \<and> map gmailId (selectedEmails plainOptions labelledWorld) = [js ''m1'']
   \<and> batchAssignLabels (sampleEnv 0 timeout) (js ''batch_2'') plainOptions labelledWorld =
       (Inr nothingToLabel, labelledWorld)"
proof -
  let ?env = "sampleEnv 0 timeout"
  have first: "batchAssignLabels ?env (js ''batch_1'') plainOptions inboxWorld =
                 (fst (batchAssignLabels ?env (js ''batch_1'') plainOptions inboxWorld), labelledWorld)"
    by (simp add: labelledWorld_def)
  have sel: "selectedEmails plainOptions labelledWorld = [workEmail\<lparr>synced := True\<rparr>]"
    by (simp add: selectedEmails_def labelledWorld_emails getEmails_def cursor_limit_def num_or_def
          plainOptions_def workEmail_def js_def)
  have marked: "\<forall>e \<in> set (selectedEmails plainOptions labelledWorld). synced e"
    by (simp add: sel)
  have sel0: "map gmailId (selectedEmails plainOptions inboxWorld) = [js ''m1'']"
    by (simp add: assign_defs)
  note th = assignLabels_second_run[OF first marked, of ?env "js ''batch_2''"]
  have a: "map gmailId (selectedEmails plainOptions labelledWorld) = [js ''m1'']"
    using th sel0 by simp
  have b: "batchAssignLabels ?env (js ''batch_2'') plainOptions labelledWorld =
             (Inr nothingToLabel, labelledWorld)"
    using th by blast
  have c: "map synced (emails labelledWorld) = [True]"
    by (simp add: labelledWorld_emails)
  show ?thesis using labelledWorld_trace a b c by blast
qed

section \<open>Resolving labels\<close>

lemma set_replaceOne: "set (map k (replaceOne P d xs)) \<subseteq> insert (k d) (set (map k xs))"
  by (induction xs) auto

lemma distinct_replaceOne:
  assumes "distinct (map k xs)" and "\<And>x. P x \<longleftrightarrow> k x = k d"
  shows "distinct (map k (replaceOne P d xs))"
  using assms
proof (induction xs)
  case Nil
  then show ?case by simp
next
  case (Cons x xs)
  show ?case
  proof (cases "P x")
    case True
    then have "k x = k d" using Cons.prems(2) by simp
    then show ?thesis using True Cons.prems(1) by simp
  next
    case False
    then have ne: "k x \<noteq> k d" using Cons.prems(2) by simp
    have nin: "k x \<notin> set (map k (replaceOne P d xs))"
      using set_replaceOne[of k P d xs] ne Cons.prems(1) by auto
    have ih: "distinct (map k (replaceOne P d xs))"
      by (rule Cons.IH) (use Cons.prems in auto)
    show ?thesis using False nin ih by simp
  qed
qed

lemma find_replaceOne: "P d \<Longrightarrow> find P (replaceOne P d xs) = Some d"
  by (induction xs) auto

lemma distinct_saveLabel:
  assumes "distinct (map labelKey (labels w))"
  shows "distinct (map labelKey (labels (saveLabel env l w)))"
proof -
  have "distinct (map labelKey
          (replaceOne (\<lambda>d. l_userId d = l_userId l \<and> name d = name l)
             (l\<lparr>l_updatedAt := dateNow env w\<rparr>) (labels w)))"
    by (rule distinct_replaceOne[OF assms]) (auto simp: labelKey_def)
  then show ?thesis by (simp add: saveLabel_def)
qed

lemma getLabelByName_saveLabel:
  "getLabelByName (l_userId l) (name l) (labels (saveLabel env l w)) = Some (l\<lparr>l_updatedAt := dateNow env w\<rparr>)"
  by (simp add: getLabelByName_def saveLabel_def find_replaceOne)

lemma labels_gmail_createLabel: "labels (snd (gmail_createLabel env nm w)) = labels w"
  by (simp add: gmail_createLabel_def split_beta)

lemma distinct_createLabelStep:
  assumes "distinct (map labelKey (labels w))"
  shows "distinct (map labelKey (labels (snd (snd (createLabelStep env u (c, x, w) nm)))))"
proof (cases "getLabelByName u nm (labels w)")
  case (Some l)
  then show ?thesis using assms by (simp add: createLabelStep_def)
next
  case None
  let ?w1 = "snd (gmail_createLabel env nm w)"
  have d1: "distinct (map labelKey (labels ?w1))"
    using assms by (simp add: labels_gmail_createLabel)
  show ?thesis
  proof (cases "fst (gmail_createLabel env nm w)")
    case (Inl e)
    then show ?thesis using None d1 by (simp add: createLabelStep_def split_beta)
  next
    case (Inr newId)
    then show ?thesis
      using None distinct_saveLabel[OF d1] by (simp add: createLabelStep_def split_beta)
  qed
qed

lemma distinct_createLabels_loop:
  assumes "distinct (map labelKey (labels (snd (snd acc))))"
  shows "distinct (map labelKey (labels (snd (snd (foldl (createLabelStep env u) acc nms)))))"
  using assms
proof (induction nms arbitrary: acc)
  case Nil
  then show ?case by simp
next
  case (Cons nm nms)
  obtain c x w where acc: "acc = (c, x, w)" by (cases acc)
  have "distinct (map labelKey (labels (snd (snd (createLabelStep env u acc nm)))))"
    using distinct_createLabelStep[of w env u c x nm] Cons.prems by (simp add: acc)
  then show ?case using Cons.IH by simp
qed

lemma distinct_batchCreateLabels:
  assumes "distinct (map labelKey (labels w))"
  shows "distinct (map labelKey (labels (snd (batchCreateLabels env bid opts w))))"
  using distinct_createLabels_loop[of "(0, 0, w)" env "o_userId opts"] assms
  by (simp add: batchCreateLabels_def Let_def split_beta)

lemma createLabelStep_existing:
  "getLabelByName u nm (labels w) = Some lab \<Longrightarrow> createLabelStep env u (c, x, w) nm = (c, Suc x, w)"
  by (simp add: createLabelStep_def)

lemma createLabelStep_created:
  assumes "getLabelByName u nm (labels w) = None"
    and "gmail_createLabel env nm w = (Inr newId, w1)"
  shows "\<exists>lab w2. createLabelStep env u (c, x, w) nm = (Suc c, x, w2)
           \<and> getLabelByName u nm (labels w2) = Some lab \<and> gmailLabelId lab = newId
           \<and> trace w2 = trace w @ [GmailCreateLabel nm]
           \<and> createLabelStep env' u (Suc c, x, w2) nm = (Suc c, Suc x, w2)"
proof -
  let ?l = "\<lparr>l_userId = u, name = nm, gmailLabelId = newId, emailCount = 0, isAuto = True,
             l_updatedAt = 0\<rparr>"
  let ?w2 = "saveLabel env ?l w1"
  have step: "createLabelStep env u (c, x, w) nm = (Suc c, x, ?w2)"
    using assms by (simp add: createLabelStep_def)
  have g: "getLabelByName u nm (labels ?w2) = Some (?l\<lparr>l_updatedAt := dateNow env w1\<rparr>)"
    using getLabelByName_saveLabel[of ?l env w1] by simp
  have t: "trace ?w2 = trace w @ [GmailCreateLabel nm]"
    using assms(2) by (auto simp: saveLabel_def gmail_createLabel_def split_beta)
  have again: "createLabelStep env' u (Suc c, x, ?w2) nm = (Suc c, Suc x, ?w2)"
    by (rule createLabelStep_existing[OF g])
  show ?thesis
    by (rule exI[of _ "?l\<lparr>l_updatedAt := dateNow env w1\<rparr>"], rule exI[of _ ?w2])
       (use step g t again in simp)
qed

lemma find_replaceOne_other:
  assumes "\<not> Q d" and "\<And>x. P x \<Longrightarrow> \<not> Q x"
  shows "find Q (replaceOne P d xs) = find Q xs"
  using assms by (induction xs) auto

lemma getLabelByName_saveLabel_other:
  assumes "(l_userId l, name l) \<noteq> (u, nm)"
  shows "getLabelByName u nm (labels (saveLabel env l w)) = getLabelByName u nm (labels w)"
proof -
  have "find (\<lambda>d. l_userId d = u \<and> name d = nm)
          (replaceOne (\<lambda>d. l_userId d = l_userId l \<and> name d = name l)
             (l\<lparr>l_updatedAt := dateNow env w\<rparr>) (labels w)) =
        find (\<lambda>d. l_userId d = u \<and> name d = nm) (labels w)"
    by (rule find_replaceOne_other) (use assms in auto)
  then show ?thesis by (simp add: getLabelByName_def saveLabel_def)
qed

lemma trace_gmail_createLabel: "trace (snd (gmail_createLabel env nm w)) = trace w @ [GmailCreateLabel nm]"
  by (simp add: gmail_createLabel_def split_beta)

lemma emails_gmail_createLabel: "emails (snd (gmail_createLabel env nm w)) = emails w"
  by (simp add: gmail_createLabel_def split_beta)

lemma getLabelByName_createLabelStep_other:
  assumes "(u', nm') \<noteq> (u, nm)"
  shows "getLabelByName u nm (labels (snd (snd (createLabelStep env u' (c, x, w) nm')))) =
         getLabelByName u nm (labels w)"
proof (cases "getLabelByName u' nm' (labels w)")
  case (Some l)
  then show ?thesis by (simp add: createLabelStep_def)
next
  case None
  show ?thesis
  proof (cases "fst (gmail_createLabel env nm' w)")
    case (Inl e)
    then show ?thesis using None by (simp add: createLabelStep_def split_beta labels_gmail_createLabel)
  next
    case (Inr newId)
    then show ?thesis
      using None assms
      by (simp add: createLabelStep_def split_beta getLabelByName_saveLabel_other labels_gmail_createLabel)
  qed
qed

lemma createLabelStep_keeps:
  assumes "getLabelByName u nm (labels w) = Some lab"
  shows "getLabelByName u nm (labels (snd (snd (createLabelStep env u' (c, x, w) nm')))) = Some lab"
proof (cases "(u', nm') = (u, nm)")
  case True
  then show ?thesis using assms by (simp add: createLabelStep_def)
next
  case False
  then show ?thesis using assms getLabelByName_createLabelStep_other by metis
qed

lemma createLabels_loop_keeps:
  assumes "getLabelByName u nm (labels (snd (snd acc))) = Some lab"
  shows "getLabelByName u nm (labels (snd (snd (foldl (createLabelStep env u') acc nms)))) = Some lab"
  using assms
proof (induction nms arbitrary: acc)
  case Nil
  then show ?case by simp
next
  case (Cons n nms)
  obtain c x w where acc: "acc = (c, x, w)" by (cases acc)
  have "getLabelByName u nm (labels (snd (snd (createLabelStep env u' acc n)))) = Some lab"
    using createLabelStep_keeps[of u nm w lab env u' c x n] Cons.prems by (simp add: acc)
  then show ?case using Cons.IH by simp
qed

lemma batchCreateLabels_keeps:
  assumes "getLabelByName u nm (labels w) = Some lab"
  shows "getLabelByName u nm (labels (snd (batchCreateLabels env bid opts w))) = Some lab"
  using createLabels_loop_keeps[of u nm "(0, 0, w)" lab env "o_userId opts"] assms
  by (simp add: batchCreateLabels_def Let_def split_beta)

lemma trace_createLabelStep:
  "trace (snd (snd (createLabelStep env u (c, x, w) nm))) =
     trace w @ (if getLabelByName u nm (labels w) = None then [GmailCreateLabel nm] else [])"
  by (auto simp: createLabelStep_def split_beta saveLabel_def trace_gmail_createLabel
           split: option.splits sum.splits)

lemma trace_createLabels_loop:
  assumes "distinct nms"
  shows "trace (snd (snd (foldl (createLabelStep env u) (c, x, w) nms))) =
           trace w @ map GmailCreateLabel (filter (\<lambda>n. getLabelByName u n (labels w) = None) nms)"
  using assms
proof (induction nms arbitrary: c x w)
  case Nil
  then show ?case by simp
next
  case (Cons n nms)
  obtain c1 x1 w1 where st: "createLabelStep env u (c, x, w) n = (c1, x1, w1)"
    by (cases "createLabelStep env u (c, x, w) n") auto
  have w1: "w1 = snd (snd (createLabelStep env u (c, x, w) n))" by (simp add: st)
  have same: "\<And>m. m \<in> set nms \<Longrightarrow> getLabelByName u m (labels w1) = getLabelByName u m (labels w)"
  proof -
    fix m assume "m \<in> set nms"
    then have "(u, n) \<noteq> (u, m)" using Cons.prems by auto
    then show "getLabelByName u m (labels w1) = getLabelByName u m (labels w)"
      unfolding w1 by (rule getLabelByName_createLabelStep_other)
  qed
  have f: "filter (\<lambda>m. getLabelByName u m (labels w1) = None) nms =
           filter (\<lambda>m. getLabelByName u m (labels w) = None) nms"
    by (rule filter_cong) (simp_all add: same)
  have ih: "trace (snd (snd (foldl (createLabelStep env u) (c1, x1, w1) nms))) =
              trace w1 @ map GmailCreateLabel (filter (\<lambda>m. getLabelByName u m (labels w1) = None) nms)"
    using Cons.IH Cons.prems by simp
  have t1: "trace w1 = trace w @ (if getLabelByName u n (labels w) = None then [GmailCreateLabel n] else [])"
    unfolding w1 by (rule trace_createLabelStep)
  show ?case
    using ih by (simp add: st f t1)
qed

lemma distinct_uniqueLabels: "distinct (uniqueLabels es)"
  by (simp add: uniqueLabels_def)

lemma trace_batchCreateLabels:
  "trace (snd (batchCreateLabels env bid opts w)) =
     trace w @ map GmailCreateLabel
       (filter (\<lambda>n. getLabelByName (o_userId opts) n (labels w) = None)
          (uniqueLabels (getEmails (o_userId opts) (Some True) None (emails w))))"
  using trace_createLabels_loop[OF distinct_uniqueLabels, of env "o_userId opts" 0 0 w]
  by (simp add: batchCreateLabels_def Let_def split_beta)

lemma emails_createLabelStep: "emails (snd (snd (createLabelStep env u (c, x, w) nm))) = emails w"
  by (auto simp: createLabelStep_def split_beta saveLabel_def emails_gmail_createLabel
           split: option.splits sum.splits)

lemma emails_createLabels_loop:
  "emails (snd (snd (foldl (createLabelStep env u) acc nms))) = emails (snd (snd acc))"
proof (induction nms arbitrary: acc)
  case Nil
  then show ?case by simp
next
  case (Cons n nms)
  obtain c x w where acc: "acc = (c, x, w)" by (cases acc)
  show ?case using Cons.IH emails_createLabelStep[of env u c x w n] by (simp add: acc)
qed

lemma emails_batchCreateLabels: "emails (snd (batchCreateLabels env bid opts w)) = emails w"
  using emails_createLabels_loop[of env "o_userId opts" "(0, 0, w)"]
  by (simp add: batchCreateLabels_def Let_def split_beta)

lemma createLabelStep_stores:
  assumes "\<forall>c n x. \<not> isl (fst (labels_create env c n x))"
  shows "getLabelByName u nm (labels (snd (snd (createLabelStep env u (c, x, w) nm)))) \<noteq> None"
proof (cases "getLabelByName u nm (labels w)")
  case (Some l)
  then show ?thesis by (simp add: createLabelStep_def)
next
  case None
  have "\<not> isl (fst (gmail_createLabel env nm w))"
    using assms by (simp add: gmail_createLabel_def split_beta)
  then obtain newId where "fst (gmail_createLabel env nm w) = Inr newId"
    by (cases "fst (gmail_createLabel env nm w)") auto
  then show ?thesis
    using None
      getLabelByName_saveLabel[of "\<lparr>l_userId = u, name = nm, gmailLabelId = newId, emailCount = 0,
          isAuto = True, l_updatedAt = 0\<rparr>" env "snd (gmail_createLabel env nm w)"]
    by (simp add: createLabelStep_def split_beta)
qed

lemma createLabels_loop_stores:
  assumes "\<forall>c n x. \<not> isl (fst (labels_create env c n x))" and "nm \<in> set nms"
  shows "getLabelByName u nm (labels (snd (snd (foldl (createLabelStep env u) acc nms)))) \<noteq> None"
  using assms(2)
proof (induction nms arbitrary: acc)
  case Nil
  then show ?case by simp
next
  case (Cons n nms)
  obtain c x w where acc: "acc = (c, x, w)" by (cases acc)
  show ?case
  proof (cases "nm = n")
    case True
    obtain lab where "getLabelByName u nm (labels (snd (snd (createLabelStep env u acc n)))) = Some lab"
      using createLabelStep_stores[OF assms(1), of u nm c x w] True by (auto simp: acc)
    then show ?thesis
      using createLabels_loop_keeps[of u nm "createLabelStep env u acc n" lab env u nms] by simp
  next
    case False
    then have "nm \<in> set nms" using Cons.prems by simp
    then show ?thesis using Cons.IH by simp
  qed
qed

lemma createLabels_loop_stored:
  assumes "\<forall>n \<in> set nms. getLabelByName u n (labels w) \<noteq> None"
  shows "foldl (createLabelStep env u) (c, x, w) nms = (c, x + length nms, w)"
  using assms
proof (induction nms arbitrary: x)
  case Nil
  then show ?case by simp
next
  case (Cons n nms)
  obtain lab where "getLabelByName u n (labels w) = Some lab" using Cons.prems by auto
  then have "createLabelStep env u (c, x, w) n = (c, Suc x, w)"
    by (rule createLabelStep_existing)
  then show ?case using Cons.IH[of "Suc x"] Cons.prems by simp
qed

lemma batchCreateLabels_again:
  assumes "\<forall>c n x. \<not> isl (fst (labels_create env c n x))"
  shows "(\<forall>n \<in> set (uniqueLabels (getEmails (o_userId opts) (Some True) None (emails w))).
            getLabelByName (o_userId opts) n (labels (snd (batchCreateLabels env bid opts w))) \<noteq> None)
       \<and> batchCreateLabels env' bid opts (snd (batchCreateLabels env bid opts w)) =
           (Inr [LabelsCreated \<mapsto> num 0,
                 LabelsUsed \<mapsto> num (length (uniqueLabels (getEmails (o_userId opts) (Some True) None (emails w)))),
                 Operation \<mapsto> JStr (js ''createLabels'')],
            snd (batchCreateLabels env bid opts w))"
proof -
  define nms where "nms = uniqueLabels (getEmails (o_userId opts) (Some True) None (emails w))"
  define wp where "wp = snd (batchCreateLabels env bid opts w)"
  have wp: "wp = snd (snd (foldl (createLabelStep env (o_userId opts)) (0, 0, w) nms))"
    by (simp add: wp_def nms_def batchCreateLabels_def Let_def split_beta)
  have stored: "\<forall>n \<in> set nms. getLabelByName (o_userId opts) n (labels wp) \<noteq> None"
    unfolding wp using createLabels_loop_stores[OF assms] by blast
  have em: "emails wp = emails w" unfolding wp_def by (rule emails_batchCreateLabels)
  have "foldl (createLabelStep env' (o_userId opts)) (0, 0, wp) nms = (0, 0 + length nms, wp)"
    by (rule createLabels_loop_stored[OF stored])
  then have "batchCreateLabels env' bid opts wp =
           (Inr [LabelsCreated \<mapsto> num 0, LabelsUsed \<mapsto> num (length nms),
                 Operation \<mapsto> JStr (js ''createLabels'')], wp)"
    by (simp add: batchCreateLabels_def Let_def em nms_def)
  then show ?thesis using stored unfolding wp_def nms_def by blast
qed

lemma createLabelStep_failed:
  assumes "getLabelByName u nm (labels w) = None"
    and "gmail_createLabel env nm w = (Inl e, w1)"
  shows "createLabelStep env u (c, x, w) nm = (c, x, w1) \<and> labels w1 = labels w"
  using assms labels_gmail_createLabel[of env nm w] by (simp add: createLabelStep_def)

text \<open>
  No other step of a run writes to the \<open>labels\<close> collection, so a stored label is as it
  was after every run of \<open>executeBatch\<close>.
\<close>

lemma labels_gmail_list: "labels (snd (gmail_list env req w)) = labels w"
  by (simp add: gmail_list_def split_beta)

lemma labels_gmail_get: "labels (snd (gmail_get env mid w)) = labels w"
  by (simp add: gmail_get_def split_beta)

lemma labels_gmail_modify: "labels (snd (gmail_modify env mid ids w)) = labels w"
  by (simp add: gmail_modify_def split_beta)

lemma labels_callGeminiAPI: "labels (snd (callGeminiAPI env an p w)) = labels w"
  by (simp add: callGeminiAPI_def split_beta)

lemma labels_checkRateLimitW: "labels (snd (checkRateLimitW env u op w)) = labels w"
  by (simp add: checkRateLimitW_def split_beta)

lemma labels_updateBatchLog: "labels (updateBatchLog env b upd w) = labels w"
  by (simp add: updateBatchLog_def Let_def)

lemma labels_analyzeEmail: "labels (snd (analyzeEmail env an subj sender snip u w)) = labels w"
proof -
  let ?w1 = "snd (checkRateLimitW env u (js ''gemini'') w)"
  have "labels (snd (analyzeEmail_try env an subj sender snip u w)) = labels w"
    using labels_checkRateLimitW[of env u "js ''gemini''" w]
          labels_callGeminiAPI[of env an "AnalyzePrompt subj sender snip" ?w1]
    by (auto simp: analyzeEmail_try_def Let_def split_beta split: sum.splits)
  then show ?thesis
    by (auto simp: analyzeEmail_def split: prod.splits sum.splits)
qed

lemma labels_analyzeChunk: "labels (snd (analyzeChunk env an u es n w)) = labels w"
proof (induction es arbitrary: n w)
  case Nil
  then show ?case by simp
next
  case (Cons e es)
  let ?a = "analyzeEmail env an (subject e) (e_from e) (snippet e) u w"
  have "labels (updateEmailAnalysis env (gmailId e) (fst ?a) (snd ?a)) = labels w"
    by (simp add: updateEmailAnalysis_def labels_analyzeEmail)
  then show ?case using Cons.IH by (simp add: split_beta Let_def)
qed

lemma labels_analyzeChunks: "labels (snd (analyzeChunks env an u es n w)) = labels w"
proof (induction env an u es n w rule: analyzeChunks.induct)
  case (1 env an u es n w)
  show ?case
  proof (cases "es = []")
    case True
    then show ?thesis by (subst analyzeChunks.simps) simp
  next
    case False
    let ?c = "analyzeChunk env an u (take 5 es) n w"
    let ?w2 = "if 5 < length es then (snd ?c)\<lparr>ext := setTimeout env 2000 (ext (snd ?c))\<rparr> else snd ?c"
    have l2: "labels ?w2 = labels w" by (simp add: labels_analyzeChunk)
    have "labels (snd (analyzeChunks env an u (drop 5 es) (fst ?c) ?w2)) = labels ?w2"
      by (rule 1[OF False, of "(fst ?c, snd ?c)" "fst ?c" "snd ?c" ?w2]) simp_all
    then show ?thesis
      using False l2 by (subst analyzeChunks.simps) (simp add: split_beta Let_def)
  qed
qed

lemma labels_batchAnalyzeEmails: "labels (snd (batchAnalyzeEmails env an b opts w)) = labels w"
  by (simp add: batchAnalyzeEmails_def analyzer_batchAnalyzeEmails_def Let_def split_beta
        labels_analyzeChunks)

lemma labels_fetchMessages: "labels (snd (fetchMessages env u ms n w)) = labels w"
proof (induction ms arbitrary: n w)
  case Nil
  then show ?case by simp
next
  case (Cons mid ms)
  show ?case
  proof (cases "fst (gmail_get env mid w)")
    case (Inl e)
    then show ?thesis using Cons.IH by (simp add: split_beta labels_gmail_get)
  next
    case (Inr msg)
    have "labels (saveEmail env (emailData env u msg (snd (gmail_get env mid w))) (snd (gmail_get env mid w))) =
          labels w"
      by (simp add: saveEmail_def labels_gmail_get)
    then show ?thesis using Inr Cons.IH by (simp add: split_beta)
  qed
qed

lemma labels_fetchPages:
  "fetchPages fuel env b opts bsize tok n w = Some (r, w') \<Longrightarrow> labels w' = labels w"
proof (induction fuel arbitrary: tok n w)
  case 0
  then show ?case by simp
next
  case (Suc fuel)
  let ?req = "\<lparr>maxResults = min bsize 50, pageToken = tok, q = str_or (query opts) (js ''in:inbox'')\<rparr>"
  let ?w1 = "snd (gmail_list env ?req w)"
  show ?case
  proof (cases "fst (gmail_list env ?req w)")
    case (Inl e)
    then have "w' = ?w1" using Suc.prems by (simp add: split_beta)
    then show ?thesis by (simp add: labels_gmail_list)
  next
    case (Inr response)
    let ?ms = "case messages response of None \<Rightarrow> [] | Some ms \<Rightarrow> ms"
    let ?f = "fetchMessages env (o_userId opts) ?ms n ?w1"
    let ?w3 = "updateBatchLog env b [EmailsProcessed \<mapsto> num (fst ?f)] (snd ?f)"
    have l3: "labels ?w3 = labels w"
      by (simp add: labels_updateBatchLog labels_fetchMessages labels_gmail_list)
    show ?thesis
    proof (cases "tokenTruthy (nextPageToken response) \<and> int (fst ?f) < bsize")
      case False
      then have "w' = ?w3" using Inr Suc.prems by (auto simp: split_beta Let_def)
      then show ?thesis using l3 by simp
    next
      case True
      have "fetchPages fuel env b opts bsize (nextPageToken response) (fst ?f) ?w3 = Some (r, w')"
        using Inr True Suc.prems by (simp add: split_beta Let_def)
      then have "labels w' = labels ?w3" by (rule Suc.IH)
      then show ?thesis using l3 by simp
    qed
  qed
qed

lemma labels_batchFetchEmails:
  "batchFetchEmails fuel env b opts w = Some (r, w') \<Longrightarrow> labels w' = labels w"
  using labels_fetchPages[of fuel env b opts "num_or (batchSize opts) 100" None 0 w _ w']
  by (auto simp: batchFetchEmails_def split: option.splits prod.splits sum.splits)

lemma labels_assignLabelStep: "labels (snd (snd (assignLabelStep env u (c, x, w) e))) = labels w"
  by (auto simp: assignLabelStep_def split_beta markSynced_def labels_gmail_modify
           split: option.splits sum.splits)

lemma labels_assignLabels_loop:
  "labels (snd (snd (foldl (assignLabelStep env u) acc es))) = labels (snd (snd acc))"
proof (induction es arbitrary: acc)
  case Nil
  then show ?case by simp
next
  case (Cons e es)
  obtain c x w where acc: "acc = (c, x, w)" by (cases acc)
  show ?case using Cons.IH labels_assignLabelStep[of env u c x w e] by (simp add: acc)
qed

lemma labels_batchAssignLabels: "labels (snd (batchAssignLabels env b opts w)) = labels w"
  using labels_assignLabels_loop[of env "o_userId opts" "(0, 0, w)"]
  by (simp add: batchAssignLabels_def Let_def split_beta)

lemma labels_batchOrganizeLabels: "labels (snd (batchOrganizeLabels env an b opts w)) = labels w"
  by (simp add: batchOrganizeLabels_def suggestLabelOrganization_def Let_def split_beta
        labels_callGeminiAPI split: sum.splits)

lemma fullBatchProcess_keeps:
  assumes "getLabelByName u nm (labels w) = Some lab"
    and "fullBatchProcess fuel env an b opts w = Some (r, w')"
  shows "getLabelByName u nm (labels w') = Some lab"
proof -
  let ?o1 = "\<lparr>o_userId = o_userId opts, batchSize = Some (num_or (batchSize opts) 100), limit = None, query = None\<rparr>"
  let ?o2 = "\<lparr>o_userId = o_userId opts, batchSize = None, limit = Some (num_or (batchSize opts) 100), query = None\<rparr>"
  let ?o3 = "\<lparr>o_userId = o_userId opts, batchSize = None, limit = None, query = None\<rparr>"
  obtain r1 w1 where f: "batchFetchEmails fuel env b ?o1 w = Some (r1, w1)"
    using assms(2)
    by (auto simp: fullBatchProcess_def fullBatchProcess_steps_def Let_def split: option.splits)
  have l1: "labels w1 = labels w" by (rule labels_batchFetchEmails[OF f])
  show ?thesis
  proof (cases r1)
    case (Inl e)
    then have "w' = w1"
      using assms(2) f by (simp add: fullBatchProcess_def fullBatchProcess_steps_def Let_def)
    then show ?thesis using l1 assms(1) by simp
  next
    case (Inr fetchResult)
    let ?w2 = "snd (batchAnalyzeEmails env an b ?o2 w1)"
    let ?w3 = "snd (batchCreateLabels env b ?o3 ?w2)"
    let ?w4 = "snd (batchAssignLabels env b ?o1 ?w3)"
    have l2: "labels ?w2 = labels w" by (simp add: labels_batchAnalyzeEmails l1)
    have k3: "getLabelByName u nm (labels ?w3) = Some lab"
      by (rule batchCreateLabels_keeps) (simp add: l2 assms(1))
    have k4: "getLabelByName u nm (labels ?w4) = Some lab"
      by (simp add: labels_batchAssignLabels k3)
    have "w' = ?w2 \<or> w' = ?w3 \<or> w' = ?w4"
      using assms(2) f Inr
      by (auto simp: fullBatchProcess_def fullBatchProcess_steps_def Let_def
               split: prod.splits sum.splits)
    then show ?thesis using l2 k3 k4 assms(1) by auto
  qed
qed

lemma dispatch_keeps:
  assumes "getLabelByName u nm (labels w) = Some lab"
    and "dispatch fuel env an b operation opts w = Some (r, w')"
  shows "getLabelByName u nm (labels w') = Some lab"
proof -
  consider "batchFetchEmails fuel env b opts w = Some (r, w')"
    | "w' = snd (batchAnalyzeEmails env an b opts w)"
    | "w' = snd (batchCreateLabels env b opts w)"
    | "w' = snd (batchAssignLabels env b opts w)"
    | "w' = snd (batchOrganizeLabels env an b opts w)"
    | "fullBatchProcess fuel env an b opts w = Some (r, w')"
    | "w' = w"
    using assms(2) by (auto simp: dispatch_def split: if_splits)
  then show ?thesis
  proof cases
    case 1
    then show ?thesis using labels_batchFetchEmails assms(1) by metis
  next
    case 2
    then show ?thesis using assms(1) by (simp add: labels_batchAnalyzeEmails)
  next
    case 3
    then show ?thesis using assms(1) by (simp add: batchCreateLabels_keeps)
  next
    case 4
    then show ?thesis using assms(1) by (simp add: labels_batchAssignLabels)
  next
    case 5
    then show ?thesis using assms(1) by (simp add: labels_batchOrganizeLabels)
  next
    case 6
    then show ?thesis using fullBatchProcess_keeps assms(1) by metis
  next
    case 7
    then show ?thesis using assms(1) by simp
  qed
qed

lemma executeBatch_keeps:
  assumes "getLabelByName u nm (labels w) = Some lab"
    and "executeBatch fuel env an bid toks w = Some (r, w')"
  shows "getLabelByName u nm (labels w') = Some lab"
proof -
  let ?w0 = "w\<lparr>oauth := \<lparr>access_token = accessToken toks, refresh_token = refreshToken toks\<rparr>\<rparr>"
  show ?thesis
  proof (cases "findBatchLog bid ?w0")
    case None
    then have "labels w' = labels w"
      using assms(2) by (auto simp: executeBatch_def executeBatch_catch_def Let_def labels_updateBatchLog)
    then show ?thesis using assms(1) by simp
  next
    case (Some job)
    let ?wr = "updateBatchLog env bid
               [Status \<mapsto> JStr (js ''running''), StartTime \<mapsto> JDate (dateNow env ?w0)] ?w0"
    obtain rr w2 where d: "dispatch fuel env an bid (b_fields job Operation) (b_options job) ?wr = Some (rr, w2)"
      using assms(2) Some by (auto simp: executeBatch_def Let_def split: option.splits)
    have "getLabelByName u nm (labels ?wr) = Some lab"
      using assms(1) by (simp add: labels_updateBatchLog)
    then have k2: "getLabelByName u nm (labels w2) = Some lab"
      using dispatch_keeps d by metis
    have "labels w' = labels w2"
      using assms(2) Some d
      by (cases rr) (auto simp: executeBatch_def executeBatch_catch_def Let_def labels_updateBatchLog)
    then show ?thesis using k2 by simp
  qed
qed

text \<open>
  Claim C7. Let no two labels of the store share (userId, name). Then neither do two
  after \<open>saveLabel\<close>, which replaces the label of that key when there is one and leaves
  the label of every other key as it is, nor after a run of \<open>batchCreateLabels\<close>. A
  label that is in the store is resolved from the store: the turn of the loop leaves the
  state as it is, with no call to the provider, and counts it as existing. A label that
  is absent and that the provider creates is stored with the identifier the provider
  returned, and from then on every turn for that name, under any environment, finds
  that label with that identifier and creates nothing; when the provider refuses, nothing
  is stored and nothing counted. A stored label stays as it is through every turn, for
  whatever user and name, through every run of \<open>batchCreateLabels\<close>, and through
  every run of \<open>executeBatch\<close>, whatever the operation. A run asks the provider to create
  exactly the needed names that are not in the store, each once, in order. When the
  provider accepts every creation, every needed name is in the store after the run, and a
  second run, under any environment, changes nothing and reports no label created.
\<close>

theorem label_resolution:
  assumes inv: "distinct (map labelKey (labels w))"
  shows "distinct (map labelKey (labels (saveLabel env l w)))
    \<and> distinct (map labelKey (labels (snd (batchCreateLabels env bid opts w))))
    \<and> (\<forall>lab. getLabelByName u nm (labels w) = Some lab \<longrightarrow>
          createLabelStep env u (c, x, w) nm = (c, Suc x, w))
    \<and> (\<forall>newId w1. getLabelByName u nm (labels w) = None \<and>
          gmail_createLabel env nm w = (Inr newId, w1) \<longrightarrow>
          (\<exists>lab w2. createLabelStep env u (c, x, w) nm = (Suc c, x, w2)
             \<and> getLabelByName u nm (labels w2) = Some lab \<and> gmailLabelId lab = newId
             \<and> trace w2 = trace w @ [GmailCreateLabel nm]
             \<and> createLabelStep env' u (Suc c, x, w2) nm = (Suc c, Suc x, w2)))
    \<and> (\<forall>e w1. getLabelByName u nm (labels w) = None \<and> gmail_createLabel env nm w = (Inl e, w1) \<longrightarrow>
          createLabelStep env u (c, x, w) nm = (c, x, w1) \<and> labels w1 = labels w)
    \<and> ((l_userId l, name l) \<noteq> (u, nm) \<longrightarrow>
          getLabelByName u nm (labels (saveLabel env l w)) = getLabelByName u nm (labels w))
    \<and> (\<forall>lab. getLabelByName u nm (labels w) = Some lab \<longrightarrow>
          getLabelByName u nm (labels (snd (snd (createLabelStep env u' (c, x, w) nm')))) = Some lab
        \<and> getLabelByName u nm (labels (snd (batchCreateLabels env bid opts w))) = Some lab
        \<and> (\<forall>r w'. executeBatch fuel env an bid toks w = Some (r, w') \<longrightarrow>
               getLabelByName u nm (labels w') = Some lab))
    \<and> trace (snd (batchCreateLabels env bid opts w)) =
         trace w @ map GmailCreateLabel
           (filter (\<lambda>n. getLabelByName (o_userId opts) n (labels w) = None)
              (uniqueLabels (getEmails (o_userId opts) (Some True) None (emails w))))
    \<and> ((\<forall>c n x. \<not> isl (fst (labels_create env c n x))) \<longrightarrow>
         (\<forall>n \<in> set (uniqueLabels (getEmails (o_userId opts) (Some True) None (emails w))).
            getLabelByName (o_userId opts) n (labels (snd (batchCreateLabels env bid opts w))) \<noteq> None)
         \<and> batchCreateLabels env' bid opts (snd (batchCreateLabels env bid opts w)) =
             (Inr [LabelsCreated \<mapsto> num 0,
                   LabelsUsed \<mapsto> num (length (uniqueLabels
                                  (getEmails (o_userId opts) (Some True) None (emails w)))),
                   Operation \<mapsto> JStr (js ''createLabels'')],
              snd (batchCreateLabels env bid opts w)))"
proof -
  have c1: "distinct (map labelKey (labels (saveLabel env l w)))"
    by (rule distinct_saveLabel[OF inv])
  have c2: "distinct (map labelKey (labels (snd (batchCreateLabels env bid opts w))))"
    by (rule distinct_batchCreateLabels[OF inv])
  have c3: "\<forall>lab. getLabelByName u nm (labels w) = Some lab \<longrightarrow>
          createLabelStep env u (c, x, w) nm = (c, Suc x, w)"
    using createLabelStep_existing by blast
  have c4: "\<forall>newId w1. getLabelByName u nm (labels w) = None \<and>
          gmail_createLabel env nm w = (Inr newId, w1) \<longrightarrow>
          (\<exists>lab w2. createLabelStep env u (c, x, w) nm = (Suc c, x, w2)
             \<and> getLabelByName u nm (labels w2) = Some lab \<and> gmailLabelId lab = newId
             \<and> trace w2 = trace w @ [GmailCreateLabel nm]
             \<and> createLabelStep env' u (Suc c, x, w2) nm = (Suc c, Suc x, w2))"
    using createLabelStep_created by blast
  have c5: "\<forall>e w1. getLabelByName u nm (labels w) = None \<and> gmail_createLabel env nm w = (Inl e, w1) \<longrightarrow>
          createLabelStep env u (c, x, w) nm = (c, x, w1) \<and> labels w1 = labels w"
    using createLabelStep_failed by blast
  have c6: "(l_userId l, name l) \<noteq> (u, nm) \<longrightarrow>
          getLabelByName u nm (labels (saveLabel env l w)) = getLabelByName u nm (labels w)"
    using getLabelByName_saveLabel_other by blast
  have c7: "\<forall>lab. getLabelByName u nm (labels w) = Some lab \<longrightarrow>
          getLabelByName u nm (labels (snd (snd (createLabelStep env u' (c, x, w) nm')))) = Some lab
        \<and> getLabelByName u nm (labels (snd (batchCreateLabels env bid opts w))) = Some lab
        \<and> (\<forall>r w'. executeBatch fuel env an bid toks w = Some (r, w') \<longrightarrow>
               getLabelByName u nm (labels w') = Some lab)"
  proof (intro allI impI conjI)
    fix lab assume a: "getLabelByName u nm (labels w) = Some lab"
    show "getLabelByName u nm (labels (snd (snd (createLabelStep env u' (c, x, w) nm')))) = Some lab"
      by (rule createLabelStep_keeps[OF a])
    show "getLabelByName u nm (labels (snd (batchCreateLabels env bid opts w))) = Some lab"
      by (rule batchCreateLabels_keeps[OF a])
  next
    fix lab r w'
    assume a: "getLabelByName u nm (labels w) = Some lab"
      and run: "executeBatch fuel env an bid toks w = Some (r, w')"
    show "getLabelByName u nm (labels w') = Some lab"
      by (rule executeBatch_keeps[OF a run])
  qed
  have c8: "trace (snd (batchCreateLabels env bid opts w)) =
         trace w @ map GmailCreateLabel
           (filter (\<lambda>n. getLabelByName (o_userId opts) n (labels w) = None)
              (uniqueLabels (getEmails (o_userId opts) (Some True) None (emails w))))"
    by (rule trace_batchCreateLabels)
  have c9: "(\<forall>c n x. \<not> isl (fst (labels_create env c n x))) \<longrightarrow>
         (\<forall>n \<in> set (uniqueLabels (getEmails (o_userId opts) (Some True) None (emails w))).
            getLabelByName (o_userId opts) n (labels (snd (batchCreateLabels env bid opts w))) \<noteq> None)
         \<and> batchCreateLabels env' bid opts (snd (batchCreateLabels env bid opts w)) =
             (Inr [LabelsCreated \<mapsto> num 0,
                   LabelsUsed \<mapsto> num (length (uniqueLabels
                                  (getEmails (o_userId opts) (Some True) None (emails w)))),
                   Operation \<mapsto> JStr (js ''createLabels'')],
              snd (batchCreateLabels env bid opts w))"
    using batchCreateLabels_again by blast
  from c1 c2 c3 c4 c5 c6 c7 c8 c9 show ?thesis by (intro conjI)
qed

lemma twoLabel_names:
  "uniqueLabels (getEmails (js ''u1'') (Some True) None (emails twoLabelWorld)) = [js ''Work'', js ''Banking'']"
  by (simp add: uniqueLabels_def getEmails_def cursor_limit_def num_or_def map_filter_def
        twoLabelWorld_def emptyWorld_def workEmail_def bankEmail_def js_eq_iff js_empty_iff)

lemma twoLabel_stored:
  "getLabelByName (js ''u1'') (js ''Work'') (labels twoLabelWorld) = Some workLabel"
  "getLabelByName (js ''u1'') (js ''Banking'') (labels twoLabelWorld) = None"
  by (simp_all add: getLabelByName_def twoLabelWorld_def emptyWorld_def workLabel_def js_eq_iff)

lemma labelJob_facts:
  "distinct (map labelKey (labels labelJobWorld))"
  "getLabelByName (js ''u1'') (js ''Work'') (labels labelJobWorld) = Some workLabel"
  by (simp_all add: labelJobWorld_def createBatch_def createBatchLog_def generateBatchId_def
        twoLabelWorld_def emptyWorld_def sampleEnv_def getLabelByName_def workLabel_def
        Let_def split_beta js_eq_iff)

lemma labelJob_run:
  "map_option (isl \<circ> fst)
     (executeBatch 0 (sampleEnv 0 timeout) analyzerOff (js ''batch_1'') staleTokens labelJobWorld) =
     Some False"
  by code_simp

text \<open>
  The label Work on the empty state: created once, found the second time. And a run on
  the state with the label Work in the store and emails that suggest Work and Banking: it
  asks the provider for Banking only, Work keeps its identifier, and a second run changes
  nothing. And the run of a createLabels job on that state keeps the label Work.
\<close>

theorem label_resolution_witness:
  "distinct (map labelKey (labels emptyWorld))
   \<and> fst workCreated = 1
   \<and> map_option gmailLabelId (getLabelByName (js ''u1'') (js ''Work'') (labels (snd (snd workCreated)))) =
       Some (js ''Label_Work'')
   \<and> trace (snd (snd workCreated)) = [GmailCreateLabel (js ''Work'')]
   \<and> createLabelStep (sampleEnv 5 timeout) (js ''u1'') workCreated (js ''Work'') =
       (1, 1, snd (snd workCreated))
   \<and> distinct (map labelKey (labels twoLabelWorld))
   \<and> getLabelByName (js ''u1'') (js ''Work'')
        (labels (snd (batchCreateLabels (sampleEnv 0 timeout) (js ''batch_1'') plainOptions twoLabelWorld))) =
       Some workLabel
   \<and> gmailLabelId workLabel = js ''Label_1''
   \<and> trace (snd (batchCreateLabels (sampleEnv 0 timeout) (js ''batch_1'') plainOptions twoLabelWorld)) =
       [GmailCreateLabel (js ''Banking'')]
   \<and> getLabelByName (js ''u1'') (js ''Banking'')
        (labels (snd (batchCreateLabels (sampleEnv 0 timeout) (js ''batch_1'') plainOptions twoLabelWorld))) \<noteq> None
   \<and> batchCreateLabels (sampleEnv 5 timeout) (js ''batch_1'') plainOptions
        (snd (batchCreateLabels (sampleEnv 0 timeout) (js ''batch_1'') plainOptions twoLabelWorld)) =
       (Inr [LabelsCreated \<mapsto> num 0, LabelsUsed \<mapsto> num 2, Operation \<mapsto> JStr (js ''createLabels'')],
        snd (batchCreateLabels (sampleEnv 0 timeout) (js ''batch_1'') plainOptions twoLabelWorld))
   \<and> map_option (\<lambda>(r, w'). getLabelByName (js ''u1'') (js ''Work'') (labels w'))
        (executeBatch 0 (sampleEnv 0 timeout) analyzerOff (js ''batch_1'') staleTokens labelJobWorld) =
       Some (Some workLabel)"
proof -
  let ?env = "sampleEnv 0 timeout" and ?u = "js ''u1''" and ?nm = "js ''Work''"
  let ?bid = "js ''batch_1''"
  have inv: "distinct (map labelKey (labels emptyWorld))" by (simp add: emptyWorld_def)
  have none: "getLabelByName ?u ?nm (labels emptyWorld) = None"
    by (simp add: getLabelByName_def emptyWorld_def)
  have cr: "gmail_createLabel ?env ?nm emptyWorld =
              (Inr (js ''Label_Work''), snd (gmail_createLabel ?env ?nm emptyWorld))"
    by (simp add: gmail_createLabel_def sampleEnv_def split_beta js_def)
  have tr: "trace emptyWorld = []" by (simp add: emptyWorld_def)
  note t1 = label_resolution[OF inv, where u="?u" and nm="?nm" and env="?env" and c=0 and x=0
            and env'="sampleEnv 5 timeout" and l=workLabel and bid="?bid" and opts=plainOptions
            and u'="?u" and nm'="?nm" and fuel=0 and an=analyzerOff and toks=staleTokens]
  note t1c = t1[THEN conjunct2, THEN conjunct2, THEN conjunct2, THEN conjunct1]
  have "\<exists>lab w2. createLabelStep ?env ?u (0, 0, emptyWorld) ?nm = (Suc 0, 0, w2)
             \<and> getLabelByName ?u ?nm (labels w2) = Some lab \<and> gmailLabelId lab = js ''Label_Work''
             \<and> trace w2 = trace emptyWorld @ [GmailCreateLabel ?nm]
             \<and> createLabelStep (sampleEnv 5 timeout) ?u (Suc 0, 0, w2) ?nm = (Suc 0, Suc 0, w2)"
    using t1c none cr by blast
  then obtain lab w2 where
    step: "createLabelStep ?env ?u (0, 0, emptyWorld) ?nm = (Suc 0, 0, w2)"
    and g: "getLabelByName ?u ?nm (labels w2) = Some lab" "gmailLabelId lab = js ''Label_Work''"
    and t: "trace w2 = trace emptyWorld @ [GmailCreateLabel ?nm]"
    and again: "createLabelStep (sampleEnv 5 timeout) ?u (Suc 0, 0, w2) ?nm = (Suc 0, Suc 0, w2)"
    by blast
  have wc: "workCreated = (Suc 0, 0, w2)" by (simp add: workCreated_def step)
  have first: "fst workCreated = 1
     \<and> map_option gmailLabelId (getLabelByName ?u ?nm (labels (snd (snd workCreated)))) = Some (js ''Label_Work'')
     \<and> trace (snd (snd workCreated)) = [GmailCreateLabel ?nm]
     \<and> createLabelStep (sampleEnv 5 timeout) ?u workCreated ?nm = (1, 1, snd (snd workCreated))"
    using g t again by (simp add: wc tr)
  let ?wp = "snd (batchCreateLabels ?env ?bid plainOptions twoLabelWorld)"
  have inv2: "distinct (map labelKey (labels twoLabelWorld))"
    by (simp add: twoLabelWorld_def emptyWorld_def)
  have u: "o_userId plainOptions = ?u" by (simp add: plainOptions_def)
  have acc: "\<forall>c n x. \<not> isl (fst (labels_create ?env c n x))" by (simp add: sampleEnv_def)
  have tr2: "trace twoLabelWorld = []" by (simp add: twoLabelWorld_def emptyWorld_def)
  note t2 = label_resolution[OF inv2, where u="?u" and nm="?nm" and env="?env" and c=0 and x=0
            and env'="sampleEnv 5 timeout" and l=workLabel and bid="?bid" and opts=plainOptions
            and u'="?u" and nm'="?nm" and fuel=0 and an=analyzerOff and toks=staleTokens]
  note t2keep = t2[THEN conjunct2, THEN conjunct2, THEN conjunct2, THEN conjunct2, THEN conjunct2,
                   THEN conjunct2, THEN conjunct1]
  note t2trace = t2[THEN conjunct2, THEN conjunct2, THEN conjunct2, THEN conjunct2, THEN conjunct2,
                    THEN conjunct2, THEN conjunct2, THEN conjunct1]
  note t2again = t2[THEN conjunct2, THEN conjunct2, THEN conjunct2, THEN conjunct2, THEN conjunct2,
                    THEN conjunct2, THEN conjunct2, THEN conjunct2]
  have keep: "getLabelByName ?u ?nm (labels ?wp) = Some workLabel"
    using t2keep twoLabel_stored(1) by blast
  have calls: "trace ?wp = [GmailCreateLabel (js ''Banking'')]"
    using t2trace by (simp add: u twoLabel_names twoLabel_stored tr2)
  have all: "(\<forall>n \<in> set (uniqueLabels (getEmails (o_userId plainOptions) (Some True) None (emails twoLabelWorld))).
            getLabelByName (o_userId plainOptions) n (labels ?wp) \<noteq> None)
         \<and> batchCreateLabels (sampleEnv 5 timeout) ?bid plainOptions ?wp =
             (Inr [LabelsCreated \<mapsto> num 0,
                   LabelsUsed \<mapsto> num (length (uniqueLabels
                                  (getEmails (o_userId plainOptions) (Some True) None (emails twoLabelWorld)))),
                   Operation \<mapsto> JStr (js ''createLabels'')], ?wp)"
    using t2again acc by blast
  have bank: "getLabelByName ?u (js ''Banking'') (labels ?wp) \<noteq> None"
    using all by (simp add: u twoLabel_names)
  have second: "batchCreateLabels (sampleEnv 5 timeout) ?bid plainOptions ?wp =
       (Inr [LabelsCreated \<mapsto> num 0, LabelsUsed \<mapsto> num 2, Operation \<mapsto> JStr (js ''createLabels'')], ?wp)"
    using all by (simp add: u twoLabel_names numeral_2_eq_2)
  have id: "gmailLabelId workLabel = js ''Label_1''" by (simp add: workLabel_def)
  obtain r w' where run: "executeBatch 0 ?env analyzerOff ?bid staleTokens labelJobWorld = Some (r, w')"
    using labelJob_run by auto
  note t3 = label_resolution[OF labelJob_facts(1), where u="?u" and nm="?nm" and env="?env" and c=0 and x=0
            and env'="sampleEnv 5 timeout" and l=workLabel and bid="?bid" and opts=plainOptions
            and u'="?u" and nm'="?nm" and fuel=0 and an=analyzerOff and toks=staleTokens]
  note t3keep = t3[THEN conjunct2, THEN conjunct2, THEN conjunct2, THEN conjunct2, THEN conjunct2,
                   THEN conjunct2, THEN conjunct1]
  have "getLabelByName ?u ?nm (labels w') = Some workLabel"
    using t3keep labelJob_facts(2) run by blast
  then have exec: "map_option (\<lambda>(r, w'). getLabelByName ?u ?nm (labels w'))
        (executeBatch 0 ?env analyzerOff ?bid staleTokens labelJobWorld) = Some (Some workLabel)"
    by (simp add: run)
  show ?thesis using inv first inv2 keep id calls bank second exec by blast
qed

section \<open>Batch creation\<close>

text \<open>The entries of the table of ceilings.\<close>

lemma maxBatchSizes_table:
  "maxBatchSizes (js ''fetchEmails'') = Some (Ceiling 500) \<and>
   maxBatchSizes (js ''analyzeEmails'') = Some (Ceiling 200) \<and>
   maxBatchSizes (js ''assignLabels'') = Some (Ceiling 200) \<and>
   maxBatchSizes (js ''fullProcess'') = Some (Ceiling 200) \<and>
   maxBatchSizes (js ''createLabels'') = None \<and>
   maxBatchSizes (js ''organizeLabels'') = None"
  by (simp add: maxBatchSizes_def objectPrototypeNames_def js_eq_iff)

lemma maxBatchSizes_inherited:
  "operation \<in> set objectPrototypeNames \<Longrightarrow> maxBatchSizes operation = Some Inherited"
  by (auto simp: maxBatchSizes_def objectPrototypeNames_def js_eq_iff)

lemma maxBatchSizes_absent:
  "operation \<notin> {js ''fetchEmails'', js ''analyzeEmails'', js ''assignLabels'', js ''fullProcess''} \<Longrightarrow>
   operation \<notin> set objectPrototypeNames \<Longrightarrow> maxBatchSizes operation = None"
  by (simp add: maxBatchSizes_def)

lemma ceiling_positive: "maxBatchSizes operation = Some (Ceiling m) \<Longrightarrow> 0 < m"
  by (auto simp: maxBatchSizes_def split: option.splits if_splits)

text \<open>Above the ceiling of the operation, and below zero, the request is rejected and the state is left as it is.\<close>

lemma batchCreateRoute_too_large:
  assumes "maxBatchSizes operation = Some (Ceiling m)" and "batchSize opts = Some b" and "b > m"
  shows "batchCreateRoute env userId operation (Some opts) w =
           (BadRequest (js ''Batch size too large. Maximum for '' @ operation @ js '' is '' @
                        decimal (nat m)), w)"
  using assms ceiling_positive[OF assms(1)]
  by (simp add: batchCreateRoute_def Let_def)

lemma batchCreateRoute_negative:
  assumes "maxBatchSizes operation = Some entry" and "batchSize opts = Some b" and "b < 0"
  shows "batchCreateRoute env userId operation (Some opts) w =
           (BadRequest (js ''Batch size must be at least 1''), w)"
proof (cases entry)
  case (Ceiling m)
  then have "0 < m" using assms(1) ceiling_positive by blast
  then show ?thesis using assms Ceiling by (simp add: batchCreateRoute_def Let_def)
next
  case Inherited
  then show ?thesis using assms by (simp add: batchCreateRoute_def Let_def)
qed

lemma batchCreateRoute_accepts:
  assumes "maxBatchSizes operation = None \<or> batchSize opts = None \<or>
           (\<exists>m b. maxBatchSizes operation = Some (Ceiling m) \<and> batchSize opts = Some b \<and> 1 \<le> b \<and> b \<le> m) \<or>
           (\<exists>b. maxBatchSizes operation = Some Inherited \<and> batchSize opts = Some b \<and> 1 \<le> b)"
  shows "batchCreateRoute env userId operation (Some opts) w =
           (Created (fst (createBatch env userId operation (opts\<lparr>o_userId := userId\<rparr>) w)),
            snd (createBatch env userId operation (opts\<lparr>o_userId := userId\<rparr>) w))"
  using assms
  by (auto simp: batchCreateRoute_def Let_def split_beta split: option.splits table_entry.splits)

text \<open>
  Claim C5, as the code has it. For an operation with a ceiling (fetchEmails 500,
  analyzeEmails 200, assignLabels 200, fullProcess 200), a batch size above the ceiling is
  answered with the error "Batch size too large", and a batch size below zero with the
  error "Batch size must be at least 1"; the state is left as it is. A name for which the
  table of ceilings answers nothing, such as createLabels and organizeLabels, is not
  validated. A request for such a name, a request without a batch size, and a request
  whose batch size is from 1 to the ceiling is accepted: the new job is appended, its
  identifier returned, and nothing else is done. A name that the table inherits from
  \<open>Object.prototype\<close> is answered like an operation without a finite ceiling: a batch size
  below zero is rejected, and one from 1 on is accepted. Nothing is said here of the batch
  size 0.
\<close>

theorem batchCreateRoute_validation:
  "(\<forall>m b. maxBatchSizes operation = Some (Ceiling m) \<and> batchSize opts = Some b \<and> b > m \<longrightarrow>
      batchCreateRoute env userId operation (Some opts) w =
        (BadRequest (js ''Batch size too large. Maximum for '' @ operation @ js '' is '' @
                     decimal (nat m)), w))
   \<and> (\<forall>entry b. maxBatchSizes operation = Some entry \<and> batchSize opts = Some b \<and> b < 0 \<longrightarrow>
        batchCreateRoute env userId operation (Some opts) w =
          (BadRequest (js ''Batch size must be at least 1''), w))
   \<and> (maxBatchSizes operation = None \<or> batchSize opts = None \<or>
        (\<exists>m b. maxBatchSizes operation = Some (Ceiling m) \<and> batchSize opts = Some b \<and> 1 \<le> b \<and> b \<le> m) \<or>
        (\<exists>b. maxBatchSizes operation = Some Inherited \<and> batchSize opts = Some b \<and> 1 \<le> b) \<longrightarrow>
        batchCreateRoute env userId operation (Some opts) w =
          (Created (fst (createBatch env userId operation (opts\<lparr>o_userId := userId\<rparr>) w)),
           snd (createBatch env userId operation (opts\<lparr>o_userId := userId\<rparr>) w))
        \<and> (\<exists>d. batchLogs (snd (batchCreateRoute env userId operation (Some opts) w)) = batchLogs w @ [d]
              \<and> batchId d = fst (createBatch env userId operation (opts\<lparr>o_userId := userId\<rparr>) w)
              \<and> trace (snd (batchCreateRoute env userId operation (Some opts) w)) =
                  trace w @ [BatchLogInsert d]))
   \<and> maxBatchSizes (js ''fetchEmails'') = Some (Ceiling 500)
   \<and> maxBatchSizes (js ''analyzeEmails'') = Some (Ceiling 200)
   \<and> maxBatchSizes (js ''assignLabels'') = Some (Ceiling 200)
   \<and> maxBatchSizes (js ''fullProcess'') = Some (Ceiling 200)
   \<and> maxBatchSizes (js ''createLabels'') = None
   \<and> maxBatchSizes (js ''organizeLabels'') = None
   \<and> (operation \<in> set objectPrototypeNames \<longrightarrow> maxBatchSizes operation = Some Inherited)
   \<and> (operation \<notin> {js ''fetchEmails'', js ''analyzeEmails'', js ''assignLabels'', js ''fullProcess''} \<and>
      operation \<notin> set objectPrototypeNames \<longrightarrow> maxBatchSizes operation = None)"
proof -
  have large: "\<forall>m b. maxBatchSizes operation = Some (Ceiling m) \<and> batchSize opts = Some b \<and> b > m \<longrightarrow>
      batchCreateRoute env userId operation (Some opts) w =
        (BadRequest (js ''Batch size too large. Maximum for '' @ operation @ js '' is '' @
                     decimal (nat m)), w)"
    using batchCreateRoute_too_large by blast
  have neg: "\<forall>entry b. maxBatchSizes operation = Some entry \<and> batchSize opts = Some b \<and> b < 0 \<longrightarrow>
        batchCreateRoute env userId operation (Some opts) w =
          (BadRequest (js ''Batch size must be at least 1''), w)"
    using batchCreateRoute_negative by blast
  have acc: "maxBatchSizes operation = None \<or> batchSize opts = None \<or>
        (\<exists>m b. maxBatchSizes operation = Some (Ceiling m) \<and> batchSize opts = Some b \<and> 1 \<le> b \<and> b \<le> m) \<or>
        (\<exists>b. maxBatchSizes operation = Some Inherited \<and> batchSize opts = Some b \<and> 1 \<le> b) \<longrightarrow>
        batchCreateRoute env userId operation (Some opts) w =
          (Created (fst (createBatch env userId operation (opts\<lparr>o_userId := userId\<rparr>) w)),
           snd (createBatch env userId operation (opts\<lparr>o_userId := userId\<rparr>) w))
        \<and> (\<exists>d. batchLogs (snd (batchCreateRoute env userId operation (Some opts) w)) = batchLogs w @ [d]
              \<and> batchId d = fst (createBatch env userId operation (opts\<lparr>o_userId := userId\<rparr>) w)
              \<and> trace (snd (batchCreateRoute env userId operation (Some opts) w)) =
                  trace w @ [BatchLogInsert d])"
  proof
    assume a: "maxBatchSizes operation = None \<or> batchSize opts = None \<or>
        (\<exists>m b. maxBatchSizes operation = Some (Ceiling m) \<and> batchSize opts = Some b \<and> 1 \<le> b \<and> b \<le> m) \<or>
        (\<exists>b. maxBatchSizes operation = Some Inherited \<and> batchSize opts = Some b \<and> 1 \<le> b)"
    have e: "batchCreateRoute env userId operation (Some opts) w =
          (Created (fst (createBatch env userId operation (opts\<lparr>o_userId := userId\<rparr>) w)),
           snd (createBatch env userId operation (opts\<lparr>o_userId := userId\<rparr>) w))"
      by (rule batchCreateRoute_accepts[OF a])
    obtain d where
      "trace (snd (createBatch env userId operation (opts\<lparr>o_userId := userId\<rparr>) w)) = trace w @ [BatchLogInsert d]"
      "batchLogs (snd (createBatch env userId operation (opts\<lparr>o_userId := userId\<rparr>) w)) = batchLogs w @ [d]"
      "batchId d = fst (createBatch env userId operation (opts\<lparr>o_userId := userId\<rparr>) w)"
      using createBatch_effect[of env userId operation "opts\<lparr>o_userId := userId\<rparr>" w] by blast
    then show "batchCreateRoute env userId operation (Some opts) w =
          (Created (fst (createBatch env userId operation (opts\<lparr>o_userId := userId\<rparr>) w)),
           snd (createBatch env userId operation (opts\<lparr>o_userId := userId\<rparr>) w))
        \<and> (\<exists>d. batchLogs (snd (batchCreateRoute env userId operation (Some opts) w)) = batchLogs w @ [d]
              \<and> batchId d = fst (createBatch env userId operation (opts\<lparr>o_userId := userId\<rparr>) w)
              \<and> trace (snd (batchCreateRoute env userId operation (Some opts) w)) =
                  trace w @ [BatchLogInsert d])"
      using e by simp
  qed
  have inh: "operation \<in> set objectPrototypeNames \<longrightarrow> maxBatchSizes operation = Some Inherited"
    using maxBatchSizes_inherited by blast
  have abs: "operation \<notin> {js ''fetchEmails'', js ''analyzeEmails'', js ''assignLabels'', js ''fullProcess''} \<and>
      operation \<notin> set objectPrototypeNames \<longrightarrow> maxBatchSizes operation = None"
    using maxBatchSizes_absent by blast
  show ?thesis using large neg acc inh abs maxBatchSizes_table by blast
qed

lemmas create_defs =
  batchCreateRoute_def createBatch_def createBatchLog_def generateBatchId_def maxBatchSizes_def
  objectPrototypeNames_def sampleEnv_def emptyWorld_def Let_def split_beta js_eq_iff

text \<open>
  The claim as stated rejects a batch size below 1 for every operation. The checks are
  made only for a name that the table of ceilings answers: createLabels with batch size -5
  is accepted.
\<close>

theorem batchCreateRoute_unlisted_counterexample:
  "fst (batchCreateRoute (sampleEnv 0 timeout) (js ''u1'') (js ''createLabels'')
     (Some \<lparr>o_userId = js ''u1'', batchSize = Some (- 5), limit = None, query = None\<rparr>) emptyWorld) =
     Created (js ''batch_1'')
   \<and> length (batchLogs (snd (batchCreateRoute (sampleEnv 0 timeout) (js ''u1'') (js ''createLabels'')
     (Some \<lparr>o_userId = js ''u1'', batchSize = Some (- 5), limit = None, query = None\<rparr>) emptyWorld))) = 1"
  by (simp add: create_defs)

text \<open>
  fetchEmails with batch size 501 is rejected and with batch size 500 accepted; the
  inherited name constructor with batch size -5 is rejected.
\<close>

theorem batchCreateRoute_validation_witness:
  "batchCreateRoute (sampleEnv 0 timeout) (js ''u1'') (js ''fetchEmails'')
      (Some \<lparr>o_userId = js ''u1'', batchSize = Some 501, limit = None, query = None\<rparr>) emptyWorld =
      (BadRequest (js ''Batch size too large. Maximum for fetchEmails is 500''), emptyWorld)
   \<and> fst (batchCreateRoute (sampleEnv 0 timeout) (js ''u1'') (js ''fetchEmails'')
      (Some \<lparr>o_userId = js ''u1'', batchSize = Some 500, limit = None, query = None\<rparr>) emptyWorld) =
      Created (js ''batch_1'')
   \<and> batchCreateRoute (sampleEnv 0 timeout) (js ''u1'') (js ''constructor'')
      (Some \<lparr>o_userId = js ''u1'', batchSize = Some (- 5), limit = None, query = None\<rparr>) emptyWorld =
      (BadRequest (js ''Batch size must be at least 1''), emptyWorld)"
proof -
  let ?env = "sampleEnv 0 timeout" and ?u = "js ''u1''" and ?op = "js ''fetchEmails''"
  let ?big = "\<lparr>o_userId = js ''u1'', batchSize = Some 501, limit = None, query = None\<rparr>"
  let ?ok = "\<lparr>o_userId = js ''u1'', batchSize = Some 500, limit = None, query = None\<rparr>"
  let ?neg = "\<lparr>o_userId = js ''u1'', batchSize = Some (- 5), limit = None, query = None\<rparr>"
  have m: "maxBatchSizes ?op = Some (Ceiling 500)"
    using batchCreateRoute_validation[of ?op ?big ?env ?u emptyWorld] by blast
  have a: "batchCreateRoute ?env ?u ?op (Some ?big) emptyWorld =
             (BadRequest (js ''Batch size too large. Maximum for fetchEmails is 500''), emptyWorld)"
  proof -
    have "maxBatchSizes ?op = Some (Ceiling 500) \<and> batchSize ?big = Some 501 \<and> (501::int) > 500"
      using m by simp
    then have "batchCreateRoute ?env ?u ?op (Some ?big) emptyWorld =
        (BadRequest (js ''Batch size too large. Maximum for '' @ ?op @ js '' is '' @ decimal (nat 500)),
         emptyWorld)"
      using batchCreateRoute_validation[of ?op ?big ?env ?u emptyWorld] by blast
    moreover have "decimal (nat 500) = js ''500''"
      by (simp add: decimal.simps js_def)
    ultimately show ?thesis by (simp add: js_def)
  qed
  have b: "fst (batchCreateRoute ?env ?u ?op (Some ?ok) emptyWorld) = Created (js ''batch_1'')"
  proof -
    have "\<exists>m b. maxBatchSizes ?op = Some (Ceiling m) \<and> batchSize ?ok = Some b \<and> 1 \<le> b \<and> b \<le> m"
      using m by simp
    then have "batchCreateRoute ?env ?u ?op (Some ?ok) emptyWorld =
          (Created (fst (createBatch ?env ?u ?op (?ok\<lparr>o_userId := ?u\<rparr>) emptyWorld)),
           snd (createBatch ?env ?u ?op (?ok\<lparr>o_userId := ?u\<rparr>) emptyWorld))"
      using batchCreateRoute_validation[of ?op ?ok ?env ?u emptyWorld] by blast
    moreover have "fst (createBatch ?env ?u ?op (?ok\<lparr>o_userId := ?u\<rparr>) emptyWorld) = js ''batch_1''"
      by (simp add: createBatch_def generateBatchId_def sampleEnv_def emptyWorld_def split_beta Let_def)
    ultimately show ?thesis by simp
  qed
  have c: "batchCreateRoute ?env ?u (js ''constructor'') (Some ?neg) emptyWorld =
             (BadRequest (js ''Batch size must be at least 1''), emptyWorld)"
  proof -
    have "js ''constructor'' \<in> set objectPrototypeNames"
      by (simp add: objectPrototypeNames_def js_eq_iff)
    then have "maxBatchSizes (js ''constructor'') = Some Inherited"
      using batchCreateRoute_validation[of "js ''constructor''" ?neg ?env ?u emptyWorld] by blast
    then have "maxBatchSizes (js ''constructor'') = Some Inherited \<and> batchSize ?neg = Some (- 5) \<and> (- 5 :: int) < 0"
      by simp
    then show ?thesis
      using batchCreateRoute_validation[of "js ''constructor''" ?neg ?env ?u emptyWorld] by blast
  qed
  show ?thesis using a b c by blast
qed

text \<open>
  The batch size 0. The handler tests \<open>options.batchSize && maxBatchSizes[operation]\<close>
  before both checks, and zero is falsy: the check that answers "Batch size must be at
  least 1" is not reached, and the job is created, for every operation.
\<close>

lemma batchCreateRoute_zero_accepted:
  "batchCreateRoute env userId operation (Some (opts\<lparr>batchSize := Some 0\<rparr>)) w =
     (Created (fst (createBatch env userId operation (opts\<lparr>batchSize := Some 0, o_userId := userId\<rparr>) w)),
      snd (createBatch env userId operation (opts\<lparr>batchSize := Some 0, o_userId := userId\<rparr>) w))
   \<and> length (batchLogs (snd (batchCreateRoute env userId operation (Some (opts\<lparr>batchSize := Some 0\<rparr>)) w))) =
       Suc (length (batchLogs w))"
  by (simp add: batchCreateRoute_def createBatch_def createBatchLog_def generateBatchId_def
        Let_def split_beta split: option.splits)

lemma batchCreateRoute_zero_example:
  "fst (batchCreateRoute (sampleEnv 0 timeout) (js ''u1'') (js ''fetchEmails'')
     (Some \<lparr>o_userId = js ''u1'', batchSize = Some 0, limit = None, query = None\<rparr>) emptyWorld) =
     Created (js ''batch_1'')
   \<and> length (batchLogs (snd (batchCreateRoute (sampleEnv 0 timeout) (js ''u1'') (js ''fetchEmails'')
     (Some \<lparr>o_userId = js ''u1'', batchSize = Some 0, limit = None, query = None\<rparr>) emptyWorld))) = 1"
proof -
  let ?opts = "\<lparr>o_userId = js ''u1'', batchSize = Some 0, limit = None, query = None\<rparr>"
  have o: "?opts\<lparr>batchSize := Some 0\<rparr> = ?opts" by simp
  have b: "fst (createBatch (sampleEnv 0 timeout) (js ''u1'') (js ''fetchEmails'')
             (?opts\<lparr>batchSize := Some 0, o_userId := js ''u1''\<rparr>) emptyWorld) = js ''batch_1''"
    by (simp add: createBatch_def generateBatchId_def sampleEnv_def emptyWorld_def Let_def split_beta)
  have e: "length (batchLogs emptyWorld) = 0" by (simp add: emptyWorld_def)
  note th = batchCreateRoute_zero_accepted[of "sampleEnv 0 timeout" "js ''u1''" "js ''fetchEmails''"
      ?opts emptyWorld, unfolded o]
  have t1: "fst (batchCreateRoute (sampleEnv 0 timeout) (js ''u1'') (js ''fetchEmails'') (Some ?opts)
              emptyWorld) = Created (js ''batch_1'')"
    using th b by simp
  have t2: "length (batchLogs (snd (batchCreateRoute (sampleEnv 0 timeout) (js ''u1'')
              (js ''fetchEmails'') (Some ?opts) emptyWorld))) = Suc (length (batchLogs emptyWorld))"
    using th by blast
  show ?thesis using t1 t2 e by simp
qed

end
